theory Spec2Isabelle
  imports Main
begin

section \<open>JavaScript \<open>Map\<close>\<close>

text \<open>
  A JavaScript \<open>Map\<close> keeps its entries in insertion order and holds a key at most once:
  \<open>set\<close> on a key that is present replaces the value where the entry stands, \<open>set\<close> on a new
  key appends the entry, \<open>delete\<close> removes the entry of the key. It is modelled as an
  association list.
\<close>

type_synonym ('k, 'v) jsmap = "('k \<times> 'v) list"

fun jsmap_get :: "('k, 'v) jsmap \<Rightarrow> 'k \<Rightarrow> 'v option" where
  "jsmap_get [] k = None"
| "jsmap_get ((k', v') # m) k = (if k' = k then Some v' else jsmap_get m k)"

definition jsmap_has :: "('k, 'v) jsmap \<Rightarrow> 'k \<Rightarrow> bool" where
  "jsmap_has m k = (jsmap_get m k \<noteq> None)"

fun jsmap_set :: "('k, 'v) jsmap \<Rightarrow> 'k \<Rightarrow> 'v \<Rightarrow> ('k, 'v) jsmap" where
  "jsmap_set [] k v = [(k, v)]"
| "jsmap_set ((k', v') # m) k v =
     (if k' = k then (k, v) # m else (k', v') # jsmap_set m k v)"

definition jsmap_delete :: "('k, 'v) jsmap \<Rightarrow> 'k \<Rightarrow> ('k, 'v) jsmap" where
  "jsmap_delete m k = filter (\<lambda>e. fst e \<noteq> k) m"

definition jsmap_keys :: "('k, 'v) jsmap \<Rightarrow> 'k list" where
  "jsmap_keys m = map fst m"

definition jsmap_values :: "('k, 'v) jsmap \<Rightarrow> 'v list" where
  "jsmap_values m = map snd m"

definition jsmap_size :: "('k, 'v) jsmap \<Rightarrow> nat" where
  "jsmap_size m = length m"

section \<open>JavaScript strings\<close>

text \<open>
  The string functions the bridge uses. A string is a list of 8-bit characters; the white
  space that \<open>trim\<close> and \<open>parseInt\<close> skip is the white space of that range.
\<close>

definition is_ws :: "char \<Rightarrow> bool" where
  "is_ws c = (c \<in> set [CHR 0x09, CHR 0x0A, CHR 0x0B, CHR 0x0C, CHR 0x0D, CHR 0x20, CHR 0xA0])"

definition trim :: "string \<Rightarrow> string" where
  "trim s = rev (dropWhile is_ws (rev (dropWhile is_ws s)))"

fun split_on :: "char \<Rightarrow> string \<Rightarrow> string list" where
  "split_on c [] = [[]]"
| "split_on c (x # xs) =
     (if x = c then [] # split_on c xs
      else (case split_on c xs of [] \<Rightarrow> [[x]] | w # ws \<Rightarrow> (x # w) # ws))"

definition digit_char :: "nat \<Rightarrow> char" where
  "digit_char d = ''0123456789'' ! d"

fun toString :: "nat \<Rightarrow> string" where
  "toString n = (if n < 10 then [digit_char n] else toString (n div 10) @ [digit_char (n mod 10)])"

declare toString.simps [simp del]

definition padStart :: "string \<Rightarrow> nat \<Rightarrow> char \<Rightarrow> string" where
  "padStart s n c = replicate (n - length s) c @ s"

text \<open>\<open>s.replace(pat, rep)\<close> with a string pattern replaces the first occurrence only.\<close>

fun replace :: "string \<Rightarrow> string \<Rightarrow> string \<Rightarrow> string" where
  "replace [] pat rep = (if pat = [] then rep else [])"
| "replace (c # cs) pat rep =
     (if take (length pat) (c # cs) = pat then rep @ drop (length pat) (c # cs)
      else c # replace cs pat rep)"

text \<open>
  \<open>parseInt(s)\<close> with no radix: leading white space is skipped, a sign is read, a prefix
  \<open>0x\<close> or \<open>0X\<close> selects radix 16, and the longest run of digits of the radix is the
  value; with no digit the result is \<open>NaN\<close>, here \<open>None\<close>.
\<close>

definition digit_value :: "char \<Rightarrow> nat option" where
  "digit_value c =
     (let n = (of_char c :: nat)
      in if 48 \<le> n \<and> n \<le> 57 then Some (n - 48)
         else if 97 \<le> n \<and> n \<le> 122 then Some (n - 87)
         else if 65 \<le> n \<and> n \<le> 90 then Some (n - 55)
         else None)"

definition is_digit_of :: "nat \<Rightarrow> char \<Rightarrow> bool" where
  "is_digit_of radix c = (case digit_value c of None \<Rightarrow> False | Some d \<Rightarrow> d < radix)"

definition digits_value :: "nat \<Rightarrow> string \<Rightarrow> nat" where
  "digits_value radix ds =
     foldl (\<lambda>acc c. acc * radix + (case digit_value c of None \<Rightarrow> 0 | Some d \<Rightarrow> d)) 0 ds"

definition parseInt :: "string \<Rightarrow> int option" where
  "parseInt s =
     (let t = dropWhile is_ws s;
          neg = (take 1 t = ''-'');
          u = (if take 1 t = ''-'' \<or> take 1 t = ''+'' then drop 1 t else t);
          hex = (take 2 u = ''0x'' \<or> take 2 u = ''0X'');
          radix = (if hex then 16 else 10);
          ds = takeWhile (is_digit_of radix) (if hex then drop 2 u else u)
      in if ds = [] then None
         else Some (if neg then - int (digits_value radix ds) else int (digits_value radix ds)))"

section \<open>Objects of the media engine\<close>

text \<open>
  Routers, transports, producers and consumers are objects of the external media engine.
  The program reads their \<open>id\<close> (and the fields it copies into events) and calls their
  methods. A call that may throw has its outcome as an argument of the handler that makes it
  (\<open>None\<close> or \<open>False\<close>: the call threw). \<open>close()\<close> on an engine object returns normally;
  it is recorded as an action.
\<close>

datatype kind = Audio | Video

record router =
  router_id :: string
  rtpCapabilities :: "string list"

record transport =
  transport_id :: string
  iceParameters :: string
  iceCandidates :: string
  dtlsParameters :: string

record plain_transport =
  plain_transport_id :: string
  localPort :: nat

record producer =
  producer_id :: string
  producer_kind :: kind

record consumer =
  consumer_id :: string
  consumer_kind :: kind
  consumer_rtpParameters :: string

section \<open>Events and actions\<close>

datatype event =
    RouterRtpCapabilities "string list"
  | ExistingProducers "string list"
  | WebrtcTransportCreated string string string string
  | TransportConnected string
  | NewProducer string string
  | ProducerCreated string
  | ConsumerCreated string string kind string
  | ConsumerResumed string
  | ErrorEvent string

text \<open>
  What a \<open>catch\<close> block of the server receives: an \<open>Error\<close> the handler itself has thrown,
  with its message, or whatever a call into the engine threw.
\<close>

datatype thrown = Thrown string | EngineThrew

text \<open>
  What a method does to the world outside the program's own maps, in program order.
  \<open>Emit sid e\<close> is \<open>socket.emit\<close> on the socket with id \<open>sid\<close>;
  \<open>EmitTo sid room e\<close> is \<open>socket.to(room).emit\<close>; \<open>LogError\<close> is the \<open>logger.error\<close> call of
  a \<open>catch\<close> block of the server (the \<open>info\<close> and \<open>console\<close> logging is left out).
  The \<open>Engine...\<close> actions are the calls that ask the engine for a new object or a change of
  one (\<open>EngineProducePlain\<close> carries the kind and the \<open>ssrc\<close> the bridge passes, \<open>None\<close> for
  \<open>NaN\<close>); the \<open>Close...\<close> actions are the \<open>close()\<close> calls. \<open>Spawn\<close>, \<open>Kill\<close>, \<open>SetInterval\<close> and \<open>ClearInterval\<close> are the calls
  to the runtime: a process handle and a timer handle are numbers.
\<close>

datatype action =
    Emit string event
  | EmitTo string string event
  | LogError string thrown
  | EngineCreateRouter
  | EngineCreateWebRtcTransport string
  | EngineCreatePlainTransport
  | EngineConnect string
  | EngineProduce string kind
  | EngineProducePlain string kind "int option"
  | EngineConsume string string
  | EngineResume string
  | CloseTransport string
  | CloseProducer string
  | CloseConsumer string
  | CloseRouter string
  | Spawn nat string "string list"
  | Kill nat string
  | SetInterval nat string string
  | ClearInterval nat

section \<open>The camera bridge (\<open>RTSPBridge\<close>)\<close>

subsection \<open>State\<close>

text \<open>
  \<open>this.routers\<close> maps a camera id to the camera's state object, which the retry callbacks
  and the \<open>close\<close> handler reach through the same reference; a camera has one such object for
  good, so the model holds it by value. The interval timers that are active in the runtime
  are part of the state: \<open>timers\<close> maps a timer handle to the camera id and source URL its
  callback was created with, and \<open>next_timer\<close> is the handle the next \<open>setInterval\<close> returns.
\<close>

record cam_state =
  retryTimer :: "nat option"
  videoTransport :: "plain_transport option"
  audioTransport :: "plain_transport option"
  ffmpeg :: "nat option"
  videoProducer :: "producer option"
  audioProducer :: "producer option"

definition empty_cam_state :: cam_state where
  "empty_cam_state = \<lparr>retryTimer = None, videoTransport = None, audioTransport = None,
     ffmpeg = None, videoProducer = None, audioProducer = None\<rparr>"

record bridge =
  ffmpegProcesses :: "(string, nat) jsmap"
  routers :: "(string, cam_state) jsmap"
  b_producers :: "(string, producer) jsmap"
  rtspUrls :: "string list"
  isRunning :: bool
  mainRouter :: "router option"
  timers :: "(nat, string \<times> string) jsmap"
  next_timer :: nat

text \<open>The constructor, from the value of the environment variable \<open>RTSP_URLS\<close>.\<close>

definition new_bridge :: "string option \<Rightarrow> bridge" where
  "new_bridge env_urls =
     \<lparr>ffmpegProcesses = [], routers = [], b_producers = [],
      rtspUrls = filter (\<lambda>url. trim url \<noteq> [])
                   (split_on CHR '','' (case env_urls of None \<Rightarrow> [] | Some v \<Rightarrow> v)),
      isRunning = False, mainRouter = None, timers = [], next_timer = 0\<rparr>"

subsection \<open>Camera ids and synchronisation-source ids\<close>

text \<open>\<open>cameraId i\<close> is the id \<open>start\<close> gives the camera at position \<open>i\<close> of the URL list.\<close>

definition cameraId :: "nat \<Rightarrow> string" where
  "cameraId i = ''cam'' @ padStart (toString (i + 1)) 2 CHR ''0''"

definition ssrc :: "kind \<Rightarrow> string \<Rightarrow> int option" where
  "ssrc knd cam =
     map_option (\<lambda>n. (case knd of Video \<Rightarrow> 11111111 | Audio \<Rightarrow> 22222222) + n)
       (parseInt (replace cam ''cam'' []))"

subsection \<open>The availability probe\<close>

text \<open>
  \<open>checkStreamAvailable\<close> returns a promise and settles it from the events of the probe
  process and of a timer. \<open>spawn\<close> either throws or returns the process; after that the
  promise sees a sequence of events: data on \<open>stdout\<close> or \<open>stderr\<close>, the \<open>error\<close> event, the
  \<open>close\<close> event with the exit code (\<open>None\<close> for \<open>null\<close>), and the safety timeout.
  A promise is settled by the first \<open>resolve\<close>; later calls do nothing.
\<close>

datatype 'a promise = Pending | Resolved 'a | Rejected

datatype probe_event =
    StdoutData string
  | StderrData string
  | ProcError
  | ProcClose "int option"
  | SafetyTimeout

record probe =
  probe_output :: string
  probe_errored :: bool
  settled :: "bool promise"

definition resolve :: "probe \<Rightarrow> bool \<Rightarrow> probe" where
  "resolve p b = (case settled p of Pending \<Rightarrow> p\<lparr>settled := Resolved b\<rparr> | _ \<Rightarrow> p)"

fun probe_step :: "probe \<Rightarrow> probe_event \<Rightarrow> probe" where
  "probe_step p (StdoutData d) = p\<lparr>probe_output := probe_output p @ d\<rparr>"
| "probe_step p (StderrData d) = p"
| "probe_step p ProcError = p\<lparr>probe_errored := True\<rparr>"
| "probe_step p (ProcClose code) =
     (if probe_errored p \<or> code \<noteq> Some 0 then resolve p False
      else if probe_output p \<noteq> [] \<and> length (trim (probe_output p)) > 0 then resolve p True
      else resolve p False)"
| "probe_step p SafetyTimeout = resolve p False"

definition checkStreamAvailable :: "string \<Rightarrow> bool \<Rightarrow> probe_event list \<Rightarrow> bool promise" where
  "checkStreamAvailable rtspUrl spawn_throws evs =
     (if spawn_throws then Resolved False
      else settled (foldl probe_step
                      \<lparr>probe_output = [], probe_errored = False, settled = Pending\<rparr> evs))"

subsection \<open>Starting a camera\<close>

text \<open>
  What the environment answers during one run of \<open>startRTSPStream\<close>: the result of the
  availability probe, the two plain transports (\<open>None\<close>: the call threw), the process that
  \<open>spawn\<close> returns and whether the promise of \<open>startFFmpegProcess\<close> resolves (it is rejected
  by the \<open>error\<close> event), and the two producers (\<open>None\<close>: \<open>produce\<close> threw).
\<close>

record ingest_env =
  e_available :: bool
  e_videoTransport :: "plain_transport option"
  e_audioTransport :: "plain_transport option"
  e_ffmpeg :: nat
  e_started :: bool
  e_videoProducer :: "producer option"
  e_audioProducer :: "producer option"

text \<open>
  The retry block, which the source repeats in three places: clear the camera's pending
  interval, if any, and start a new one that polls the source every 10 seconds.
\<close>

definition schedule_retry ::
  "bridge \<Rightarrow> cam_state \<Rightarrow> string \<Rightarrow> string \<Rightarrow> bridge \<times> cam_state \<times> action list" where
  "schedule_retry b st rtspUrl cam =
     (let cleared = (case retryTimer st of None \<Rightarrow> timers b
                     | Some old \<Rightarrow> jsmap_delete (timers b) old);
          t = next_timer b
      in (b\<lparr>timers := jsmap_set cleared t (cam, rtspUrl), next_timer := Suc t\<rparr>,
          st\<lparr>retryTimer := Some t\<rparr>,
          (case retryTimer st of None \<Rightarrow> [] | Some old \<Rightarrow> [ClearInterval old])
          @ [SetInterval t cam rtspUrl]))"

definition ffmpegArgs :: "string \<Rightarrow> nat \<Rightarrow> nat \<Rightarrow> string list" where
  "ffmpegArgs rtspUrl videoPort audioPort =
     [''-i'', rtspUrl, ''-c:v'', ''libx264'', ''-preset'', ''ultrafast'',
      ''-tune'', ''zerolatency'', ''-pix_fmt'', ''yuv420p'', ''-g'', ''30'',
      ''-sc_threshold'', ''0'', ''-profile:v'', ''baseline'', ''-level'', ''3.1'',
      ''-s'', ''640x480'', ''-b:v'', ''1000k'', ''-maxrate'', ''1000k'',
      ''-bufsize'', ''2000k'', ''-f'', ''rtp'', ''rtp://127.0.0.1:'' @ toString videoPort,
      ''-c:a'', ''libopus'', ''-b:a'', ''64k'', ''-ac'', ''2'', ''-ar'', ''48000'',
      ''-f'', ''rtp'', ''rtp://127.0.0.1:'' @ toString audioPort, ''-y'']"

text \<open>
  \<open>startFFmpegProcess\<close> spawns the process and registers it under the camera id; the result
  is the process when the promise resolves (start message or 5 second timeout) and \<open>None\<close>
  when it is rejected.
\<close>

definition startFFmpegProcess ::
  "bridge \<Rightarrow> string \<Rightarrow> string \<Rightarrow> nat \<Rightarrow> nat \<Rightarrow> nat \<Rightarrow> bool
     \<Rightarrow> bridge \<times> action list \<times> nat option" where
  "startFFmpegProcess b rtspUrl cam videoPort audioPort proc started =
     (b\<lparr>ffmpegProcesses := jsmap_set (ffmpegProcesses b) cam proc\<rparr>,
      [Spawn proc ''ffmpeg'' (ffmpegArgs rtspUrl videoPort audioPort)],
      if started then Some proc else None)"

text \<open>
  \<open>startRTSPStream\<close> as one step, from the probe to the producers. A call that throws
  before the producers are asked for ends in the outer \<open>catch\<close>, which only logs; a
  \<open>produce\<close> that throws ends in the inner \<open>catch\<close>, which closes both transports, sends
  \<open>SIGTERM\<close> to the process and, if the bridge is running, schedules a retry.
\<close>

definition startRTSPStream ::
  "bridge \<Rightarrow> string \<Rightarrow> string \<Rightarrow> ingest_env \<Rightarrow> bridge \<times> action list" where
  "startRTSPStream b0 rtspUrl cam env =
     (let b = (if jsmap_has (routers b0) cam then b0
               else b0\<lparr>routers := jsmap_set (routers b0) cam empty_cam_state\<rparr>);
          st = (case jsmap_get (routers b) cam of None \<Rightarrow> empty_cam_state | Some st \<Rightarrow> st)
      in if \<not> e_available env
         then (case schedule_retry b st rtspUrl cam of
                 (b1, st1, acts) \<Rightarrow> (b1\<lparr>routers := jsmap_set (routers b1) cam st1\<rparr>, acts))
         else
           (case (if mainRouter b = None then None else e_videoTransport env) of
              None \<Rightarrow> (b, [EngineCreatePlainTransport])
            | Some vt \<Rightarrow>
           (case (if mainRouter b = None then None else e_audioTransport env) of
              None \<Rightarrow> (b, [EngineCreatePlainTransport, EngineCreatePlainTransport])
            | Some at \<Rightarrow>
           (let st1 = st\<lparr>videoTransport := Some vt, audioTransport := Some at\<rparr>;
                b1 = b\<lparr>routers := jsmap_set (routers b) cam st1\<rparr>
            in case startFFmpegProcess b1 rtspUrl cam (localPort vt) (localPort at)
                      (e_ffmpeg env) (e_started env) of
                 (b2, spawned, None) \<Rightarrow>
                   (b2, [EngineCreatePlainTransport, EngineCreatePlainTransport] @ spawned)
               | (b2, spawned, Some proc) \<Rightarrow>
           (let st2 = st1\<lparr>ffmpeg := Some proc\<rparr>;
                pre = [EngineCreatePlainTransport, EngineCreatePlainTransport] @ spawned;
                produceV = EngineProducePlain (plain_transport_id vt) Video (ssrc Video cam);
                produceA = EngineProducePlain (plain_transport_id at) Audio (ssrc Audio cam)
            in case (e_videoProducer env, e_audioProducer env) of
                 (Some vp, Some ap) \<Rightarrow>
                   (b2\<lparr>b_producers := jsmap_set (jsmap_set (b_producers b2) (cam @ ''_video'') vp)
                                          (cam @ ''_audio'') ap,
                       routers := jsmap_set (routers b2) cam
                                    (st2\<lparr>videoProducer := Some vp, audioProducer := Some ap\<rparr>)\<rparr>,
                    pre @ [produceV, produceA])
               | (vp, ap) \<Rightarrow>
                   (let failed = pre @ [produceV] @ (if vp = None then [] else [produceA])
                          @ [CloseTransport (plain_transport_id vt),
                             CloseTransport (plain_transport_id at), Kill proc ''SIGTERM''];
                        st3 = st2\<lparr>ffmpeg := None\<rparr>
                    in if isRunning b2
                       then (case schedule_retry b2 st3 rtspUrl cam of
                               (b3, st4, acts) \<Rightarrow>
                                 (b3\<lparr>routers := jsmap_set (routers b3) cam st4\<rparr>, failed @ acts))
                       else (b2\<lparr>routers := jsmap_set (routers b2) cam st3\<rparr>, failed)))))))"

text \<open>
  The callback of a retry interval created for camera \<open>cam\<close> and source \<open>rtspUrl\<close>;
  \<open>ok\<close> is the result of its availability probe.
\<close>

definition retryTick ::
  "bridge \<Rightarrow> string \<Rightarrow> string \<Rightarrow> bool \<Rightarrow> ingest_env \<Rightarrow> bridge \<times> action list" where
  "retryTick b rtspUrl cam ok env =
     (if \<not> isRunning b then (b, [])
      else if ok
      then (case jsmap_get (routers b) cam of
              None \<Rightarrow> startRTSPStream b rtspUrl cam env
            | Some st \<Rightarrow>
                (case startRTSPStream
                        (b\<lparr>timers := (case retryTimer st of None \<Rightarrow> timers b
                                       | Some t \<Rightarrow> jsmap_delete (timers b) t),
                           routers := jsmap_set (routers b) cam (st\<lparr>retryTimer := None\<rparr>)\<rparr>)
                        rtspUrl cam env of
                   (b1, acts) \<Rightarrow>
                     (b1, (case retryTimer st of None \<Rightarrow> [] | Some t \<Rightarrow> [ClearInterval t])
                          @ acts)))
      else (b, []))"

text \<open>
  The \<open>close\<close> handler that \<open>startFFmpegProcess\<close> installs on the process. The source
  wraps each \<open>close()\<close> call of the handler in \<open>try\<close>/\<open>catch\<close>; as \<open>close()\<close> returns normally,
  the handler runs straight through. A camera without a state object gets an empty one,
  which is stored only on the branch that calls \<open>this.routers.set\<close>.
\<close>

definition onFFmpegClose :: "bridge \<Rightarrow> string \<Rightarrow> string \<Rightarrow> bridge \<times> action list" where
  "onFFmpegClose b0 rtspUrl cam =
     (let b = b0\<lparr>ffmpegProcesses := jsmap_delete (ffmpegProcesses b0) cam\<rparr>;
          known = jsmap_has (routers b) cam;
          st = (case jsmap_get (routers b) cam of None \<Rightarrow> empty_cam_state | Some st \<Rightarrow> st);
          closeV = (case videoProducer st of None \<Rightarrow> []
                    | Some vp \<Rightarrow> [CloseProducer (producer_id vp)]);
          producers1 = (case videoProducer st of None \<Rightarrow> b_producers b
                        | Some vp \<Rightarrow> jsmap_delete (b_producers b) (cam @ ''_video''));
          closeA = (case audioProducer st of None \<Rightarrow> []
                    | Some ap \<Rightarrow> [CloseProducer (producer_id ap)]);
          producers2 = (case audioProducer st of None \<Rightarrow> producers1
                        | Some ap \<Rightarrow> jsmap_delete producers1 (cam @ ''_audio''));
          closeVT = (case videoTransport st of None \<Rightarrow> []
                     | Some vt \<Rightarrow> [CloseTransport (plain_transport_id vt)]);
          closeAT = (case audioTransport st of None \<Rightarrow> []
                     | Some at \<Rightarrow> [CloseTransport (plain_transport_id at)]);
          st1 = st\<lparr>videoProducer := None, audioProducer := None,
                   videoTransport := None, audioTransport := None\<rparr>;
          b1 = b\<lparr>b_producers := producers2\<rparr>;
          cleanup = closeV @ closeA @ closeVT @ closeAT
      in if isRunning b1
         then (case schedule_retry b1 st1 rtspUrl cam of
                 (b2, st2, acts) \<Rightarrow>
                   (b2\<lparr>routers := jsmap_set (routers b2) cam st2\<rparr>, cleanup @ acts))
         else ((if known then b1\<lparr>routers := jsmap_set (routers b1) cam st1\<rparr> else b1),
               cleanup))"

subsection \<open>Start and stop\<close>

fun start_cameras ::
  "bridge \<Rightarrow> string list \<Rightarrow> nat \<Rightarrow> (nat \<Rightarrow> ingest_env) \<Rightarrow> bridge \<times> action list" where
  "start_cameras b [] i envs = (b, [])"
| "start_cameras b (url # urls) i envs =
     (case startRTSPStream b (trim url) (cameraId i) (envs i) of
        (b1, acts1) \<Rightarrow>
          (case start_cameras b1 urls (Suc i) envs of
             (b2, acts2) \<Rightarrow> (b2, acts1 @ acts2)))"

text \<open>
  \<open>start\<close> returns normally or throws (\<open>Inl\<close>, with the state it leaves); \<open>envs i\<close> is the
  environment of the camera at position \<open>i\<close>.
\<close>

definition start ::
  "bridge \<Rightarrow> router option \<Rightarrow> (nat \<Rightarrow> ingest_env) \<Rightarrow> (bridge + bridge) \<times> action list" where
  "start b createRouter envs =
     (if isRunning b then (Inr b, [])
      else (case createRouter of
              None \<Rightarrow> (Inl (b\<lparr>isRunning := False\<rparr>), [EngineCreateRouter])
            | Some r \<Rightarrow>
                (case start_cameras (b\<lparr>isRunning := True, mainRouter := Some r\<rparr>)
                        (take 6 (rtspUrls b)) 0 envs of
                   (b1, acts) \<Rightarrow> (Inr b1, EngineCreateRouter # acts))))"

definition stop :: "bridge \<Rightarrow> bridge \<times> action list" where
  "stop b =
     (b\<lparr>isRunning := False, ffmpegProcesses := [], b_producers := []\<rparr>,
      map (\<lambda>proc. Kill proc ''SIGTERM'') (jsmap_values (ffmpegProcesses b))
      @ map (\<lambda>pr. CloseProducer (producer_id pr)) (jsmap_values (b_producers b))
      @ (case mainRouter b of None \<Rightarrow> [] | Some r \<Rightarrow> [CloseRouter (router_id r)]))"

section \<open>The signalling server (\<open>SFUServer\<close>)\<close>

subsection \<open>The registry\<close>

text \<open>
  \<open>handleJoinRoom\<close> stores one and the same peer object in \<open>room.peers\<close> (under the peer
  id) and in \<open>this.peers\<close> (under the socket id). Both maps therefore hold a reference into
  a store of peer objects, \<open>peer_objs\<close>: a new object is appended, a reference is its index.
  \<open>socket.peerId\<close> and \<open>socket.roomId\<close>, the two fields the server writes on the socket
  object, are the map \<open>sockets\<close>; a socket without an entry has both fields undefined.
\<close>

record peer =
  peer_id :: string
  peer_socket :: string
  p_transports :: "(string, transport) jsmap"
  p_producers :: "(string, producer) jsmap"
  p_consumers :: "(string, consumer) jsmap"

record room =
  r_router :: router
  r_peers :: "(string, nat) jsmap"
  r_producers :: "(string, producer) jsmap"

record server =
  rtspBridge :: bridge
  rooms :: "(string, room) jsmap"
  peers :: "(string, nat) jsmap"
  peer_objs :: "peer list"
  sockets :: "(string, string \<times> string) jsmap"

definition new_server :: "string option \<Rightarrow> server" where
  "new_server env_urls =
     \<lparr>rtspBridge = new_bridge env_urls, rooms = [], peers = [], peer_objs = [], sockets = []\<rparr>"

definition socket_roomId :: "server \<Rightarrow> string \<Rightarrow> string option" where
  "socket_roomId s sid = map_option snd (jsmap_get (sockets s) sid)"

definition get_peer :: "server \<Rightarrow> string \<Rightarrow> (nat \<times> peer) option" where
  "get_peer s sid = map_option (\<lambda>r. (r, peer_objs s ! r)) (jsmap_get (peers s) sid)"

definition get_room :: "server \<Rightarrow> string \<Rightarrow> (string \<times> room) option" where
  "get_room s sid =
     (case socket_roomId s sid of
        None \<Rightarrow> None
      | Some roomId \<Rightarrow> map_option (\<lambda>r. (roomId, r)) (jsmap_get (rooms s) roomId))"

subsection \<open>The handlers\<close>

text \<open>
  Each handler is one step: it takes the state, the socket id, the payload and the
  outcomes of the engine calls it awaits, and returns the new state with the actions it
  performed. What other handlers might do while it waits at an \<open>await\<close> is left out,
  except for \<open>handleJoinRoom\<close>, which is also given in two steps.
  A \<open>throw\<close> inside the \<open>try\<close> block ends in the handler's \<open>catch\<close>, which logs the error and
  emits an \<open>error\<close> event; what the handler had changed before stays changed.
\<close>

definition handleJoinRoom ::
  "server \<Rightarrow> string \<Rightarrow> string \<Rightarrow> string \<Rightarrow> router option \<Rightarrow> server \<times> action list" where
  "handleJoinRoom s sid roomId peerId createRouter =
     (case (if \<not> jsmap_has (rooms s) roomId
            then map_option
                   (\<lambda>r. (jsmap_set (rooms s) roomId
                           \<lparr>r_router = r, r_peers = [], r_producers = []\<rparr>,
                         [EngineCreateRouter]))
                   createRouter
            else Some (rooms s, [])) of
        None \<Rightarrow> (s, [EngineCreateRouter, LogError ''Error joining room:'' EngineThrew,
                     Emit sid (ErrorEvent ''Failed to join room'')])
      | Some (rooms1, created) \<Rightarrow>
          (case jsmap_get rooms1 roomId of
             None \<Rightarrow> (s, created @ [LogError ''Error joining room:'' (Thrown ''TypeError''),
                                     Emit sid (ErrorEvent ''Failed to join room'')])
           | Some room \<Rightarrow>
               let p = \<lparr>peer_id = peerId, peer_socket = sid,
                        p_transports = [], p_producers = [], p_consumers = []\<rparr>;
                   ref = length (peer_objs s);
                   room' = room\<lparr>r_peers := jsmap_set (r_peers room) peerId ref\<rparr>;
                   producerIds = jsmap_keys (r_producers room)
               in (s\<lparr>rooms := jsmap_set rooms1 roomId room',
                     peers := jsmap_set (peers s) sid ref,
                     peer_objs := peer_objs s @ [p],
                     sockets := jsmap_set (sockets s) sid (peerId, roomId)\<rparr>,
                   created
                   @ [Emit sid (RouterRtpCapabilities (rtpCapabilities (r_router room)))]
                   @ (if length producerIds > 0
                      then [Emit sid (ExistingProducers producerIds)] else []))))"

text \<open>
  \<open>handleJoinRoom\<close> has one \<open>await\<close>: the call of \<open>createRouter\<close>, made when the room
  is not registered. While it waits, other handlers run. The next three definitions are
  the handler split at that point. \<open>join_room_rest\<close> is the handler from
  \<open>const room = this.rooms.get(roomId)\<close> on. \<open>handleJoinRoom_to_await\<close> is the handler
  up to the call: for a registered room there is no \<open>await\<close> and the handler runs to its
  end; otherwise the result is \<open>None\<close>, the handler is suspended.
  \<open>handleJoinRoom_from_await\<close> is the suspended handler when the call settles:
  \<open>this.rooms.set\<close> stores the new room under the room id, whatever the map holds there
  by then, and the handler goes on; a call that threw ends in the \<open>catch\<close>.
\<close>

definition join_room_rest ::
  "server \<Rightarrow> string \<Rightarrow> string \<Rightarrow> string \<Rightarrow> server \<times> action list" where
  "join_room_rest s sid roomId peerId =
     (case jsmap_get (rooms s) roomId of
        None \<Rightarrow> (s, [LogError ''Error joining room:'' (Thrown ''TypeError''),
                     Emit sid (ErrorEvent ''Failed to join room'')])
      | Some room \<Rightarrow>
          let p = \<lparr>peer_id = peerId, peer_socket = sid,
                   p_transports = [], p_producers = [], p_consumers = []\<rparr>;
              ref = length (peer_objs s);
              room' = room\<lparr>r_peers := jsmap_set (r_peers room) peerId ref\<rparr>;
              producerIds = jsmap_keys (r_producers room)
          in (s\<lparr>rooms := jsmap_set (rooms s) roomId room',
                peers := jsmap_set (peers s) sid ref,
                peer_objs := peer_objs s @ [p],
                sockets := jsmap_set (sockets s) sid (peerId, roomId)\<rparr>,
              [Emit sid (RouterRtpCapabilities (rtpCapabilities (r_router room)))]
              @ (if length producerIds > 0
                 then [Emit sid (ExistingProducers producerIds)] else [])))"

definition handleJoinRoom_to_await ::
  "server \<Rightarrow> string \<Rightarrow> string \<Rightarrow> string \<Rightarrow> (server \<times> action list) option" where
  "handleJoinRoom_to_await s sid roomId peerId =
     (if \<not> jsmap_has (rooms s) roomId then None
      else Some (join_room_rest s sid roomId peerId))"

definition handleJoinRoom_from_await ::
  "server \<Rightarrow> string \<Rightarrow> string \<Rightarrow> string \<Rightarrow> router option \<Rightarrow> server \<times> action list" where
  "handleJoinRoom_from_await s sid roomId peerId createRouter =
     (case createRouter of
        None \<Rightarrow> (s, [LogError ''Error joining room:'' EngineThrew,
                     Emit sid (ErrorEvent ''Failed to join room'')])
      | Some r \<Rightarrow>
          join_room_rest
            (s\<lparr>rooms := jsmap_set (rooms s) roomId
                          \<lparr>r_router = r, r_peers = [], r_producers = []\<rparr>\<rparr>)
            sid roomId peerId)"

definition handleCreateWebRTCTransport ::
  "server \<Rightarrow> string \<Rightarrow> string \<Rightarrow> transport option \<Rightarrow> server \<times> action list" where
  "handleCreateWebRTCTransport s sid direction createWebRTCTransport =
     (case (get_peer s sid, get_room s sid) of
        (Some (ref, p), Some (roomId, room)) \<Rightarrow>
          (case createWebRTCTransport of
             None \<Rightarrow> (s, [EngineCreateWebRtcTransport (router_id (r_router room)),
                          LogError ''Error creating WebRTC transport:'' EngineThrew,
                          Emit sid (ErrorEvent ''Failed to create transport'')])
           | Some t \<Rightarrow>
               (s\<lparr>peer_objs := (peer_objs s)
                     [ref := p\<lparr>p_transports := jsmap_set (p_transports p) (transport_id t) t\<rparr>]\<rparr>,
                [EngineCreateWebRtcTransport (router_id (r_router room)),
                 Emit sid (WebrtcTransportCreated (transport_id t) (iceParameters t)
                             (iceCandidates t) (dtlsParameters t))]))
      | _ \<Rightarrow> (s, [LogError ''Error creating WebRTC transport:''
                       (Thrown ''Peer or room not found''),
                     Emit sid (ErrorEvent ''Failed to create transport'')]))"

definition handleConnectTransport ::
  "server \<Rightarrow> string \<Rightarrow> string \<Rightarrow> string \<Rightarrow> bool \<Rightarrow> server \<times> action list" where
  "handleConnectTransport s sid transportId dtls connect =
     (case get_peer s sid of
        None \<Rightarrow> (s, [LogError ''Error connecting transport:'' (Thrown ''Peer not found''),
                     Emit sid (ErrorEvent ''Failed to connect transport'')])
      | Some (ref, p) \<Rightarrow>
          (case jsmap_get (p_transports p) transportId of
             None \<Rightarrow> (s, [LogError ''Error connecting transport:''
                            (Thrown ''Transport not found''),
                          Emit sid (ErrorEvent ''Failed to connect transport'')])
           | Some t \<Rightarrow>
               if connect
               then (s, [EngineConnect (transport_id t), Emit sid (TransportConnected transportId)])
               else (s, [EngineConnect (transport_id t),
                         LogError ''Error connecting transport:'' EngineThrew,
                         Emit sid (ErrorEvent ''Failed to connect transport'')])))"

definition handleProduce ::
  "server \<Rightarrow> string \<Rightarrow> string \<Rightarrow> kind \<Rightarrow> string \<Rightarrow> producer option \<Rightarrow> server \<times> action list" where
  "handleProduce s sid transportId knd rtpParameters produce =
     (case (get_peer s sid, get_room s sid) of
        (Some (ref, p), Some (roomId, room)) \<Rightarrow>
          (case jsmap_get (p_transports p) transportId of
             None \<Rightarrow> (s, [LogError ''Error creating producer:'' (Thrown ''Transport not found''),
                          Emit sid (ErrorEvent ''Failed to create producer'')])
           | Some t \<Rightarrow>
               (case produce of
                  None \<Rightarrow> (s, [EngineProduce (transport_id t) knd,
                               LogError ''Error creating producer:'' EngineThrew,
                               Emit sid (ErrorEvent ''Failed to create producer'')])
                | Some pr \<Rightarrow>
                    (s\<lparr>peer_objs := (peer_objs s)
                          [ref := p\<lparr>p_producers := jsmap_set (p_producers p) (producer_id pr) pr\<rparr>],
                        rooms := jsmap_set (rooms s) roomId
                          (room\<lparr>r_producers := jsmap_set (r_producers room) (producer_id pr) pr\<rparr>)\<rparr>,
                     [EngineProduce (transport_id t) knd,
                      EmitTo sid roomId (NewProducer (producer_id pr) (peer_id p)),
                      Emit sid (ProducerCreated (producer_id pr))])))
      | _ \<Rightarrow> (s, [LogError ''Error creating producer:'' (Thrown ''Peer or room not found''),
                     Emit sid (ErrorEvent ''Failed to create producer'')]))"

definition handleConsume ::
  "server \<Rightarrow> string \<Rightarrow> string \<Rightarrow> string \<Rightarrow> string list \<Rightarrow> bool \<Rightarrow> consumer option
     \<Rightarrow> server \<times> action list" where
  "handleConsume s sid transportId producerId caps canConsume consume =
     (case (get_peer s sid, get_room s sid) of
        (Some (ref, p), Some (roomId, room)) \<Rightarrow>
          (case (jsmap_get (p_transports p) transportId,
                 jsmap_get (r_producers room) producerId) of
             (Some t, Some pr) \<Rightarrow>
               if \<not> canConsume
               then (s, [LogError ''Error creating consumer:'' (Thrown ''Cannot consume''),
                         Emit sid (ErrorEvent ''Failed to create consumer'')])
               else
                 (case consume of
                    None \<Rightarrow> (s, [EngineConsume (transport_id t) producerId,
                                 LogError ''Error creating consumer:'' EngineThrew,
                                 Emit sid (ErrorEvent ''Failed to create consumer'')])
                  | Some c \<Rightarrow>
                      (s\<lparr>peer_objs := (peer_objs s)
                            [ref := p\<lparr>p_consumers := jsmap_set (p_consumers p) (consumer_id c) c\<rparr>]\<rparr>,
                       [EngineConsume (transport_id t) producerId,
                        Emit sid (ConsumerCreated (consumer_id c) producerId (consumer_kind c)
                                    (consumer_rtpParameters c))]))
           | _ \<Rightarrow> (s, [LogError ''Error creating consumer:''
                            (Thrown ''Transport or producer not found''),
                          Emit sid (ErrorEvent ''Failed to create consumer'')]))
      | _ \<Rightarrow> (s, [LogError ''Error creating consumer:'' (Thrown ''Peer or room not found''),
                     Emit sid (ErrorEvent ''Failed to create consumer'')]))"

definition handleResumeConsumer ::
  "server \<Rightarrow> string \<Rightarrow> string \<Rightarrow> bool \<Rightarrow> server \<times> action list" where
  "handleResumeConsumer s sid consumerId resume =
     (case get_peer s sid of
        None \<Rightarrow> (s, [LogError ''Error resuming consumer:'' (Thrown ''Peer not found''),
                     Emit sid (ErrorEvent ''Failed to resume consumer'')])
      | Some (ref, p) \<Rightarrow>
          (case jsmap_get (p_consumers p) consumerId of
             None \<Rightarrow> (s, [LogError ''Error resuming consumer:''
                            (Thrown ''Consumer not found''),
                          Emit sid (ErrorEvent ''Failed to resume consumer'')])
           | Some c \<Rightarrow>
               if resume
               then (s, [EngineResume (consumer_id c), Emit sid (ConsumerResumed consumerId)])
               else (s, [EngineResume (consumer_id c),
                         LogError ''Error resuming consumer:'' EngineThrew,
                         Emit sid (ErrorEvent ''Failed to resume consumer'')])))"

definition handleDisconnect :: "server \<Rightarrow> string \<Rightarrow> server \<times> action list" where
  "handleDisconnect s sid =
     (case get_peer s sid of
        None \<Rightarrow> (s, [])
      | Some (ref, p) \<Rightarrow>
          (case get_room s sid of
             None \<Rightarrow> (s\<lparr>peers := jsmap_delete (peers s) sid\<rparr>, [])
           | Some (roomId, room) \<Rightarrow>
               let closing =
                     map (\<lambda>t. CloseTransport (transport_id t)) (jsmap_values (p_transports p))
                     @ map (\<lambda>pr. CloseProducer (producer_id pr)) (jsmap_values (p_producers p))
                     @ map (\<lambda>c. CloseConsumer (consumer_id c)) (jsmap_values (p_consumers p));
                   room' = room\<lparr>
                     r_producers := foldl (\<lambda>m pr. jsmap_delete m (producer_id pr))
                                      (r_producers room) (jsmap_values (p_producers p)),
                     r_peers := jsmap_delete (r_peers room) (peer_id p)\<rparr>
               in if jsmap_size (r_peers room') = 0
                  then (s\<lparr>rooms := jsmap_delete (rooms s) roomId,
                          peers := jsmap_delete (peers s) sid\<rparr>,
                        closing @ [CloseRouter (router_id (r_router room))])
                  else (s\<lparr>rooms := jsmap_set (rooms s) roomId room',
                          peers := jsmap_delete (peers s) sid\<rparr>,
                        closing)))"

subsection \<open>Dispatch\<close>

text \<open>
  The server handles one message at a time (\<open>setupSocketHandlers\<close>); the bridge's callbacks
  run in the same process on the server's \<open>rtspBridge\<close>. A command is a message of a socket
  or a callback of the bridge, together with the outcomes of the engine calls it makes.
  The camera commands carry the camera id and the source URL of the callback's closure;
  they are not restricted to the callbacks that are pending, so the runs include every
  order in which the runtime can deliver them.
\<close>

datatype command =
    JoinRoom string string string "router option"
  | CreateWebRTCTransport string string "transport option"
  | ConnectTransport string string string bool
  | Produce string string kind string "producer option"
  | Consume string string string "string list" bool "consumer option"
  | ResumeConsumer string string bool
  | Disconnect string
  | BridgeStart "router option" "nat \<Rightarrow> ingest_env"
  | CameraStart string string ingest_env
  | CameraRetry string string bool ingest_env
  | CameraExit string string
  | BridgeStop

definition on_bridge :: "server \<Rightarrow> bridge \<times> action list \<Rightarrow> server \<times> action list" where
  "on_bridge s r = (case r of (b, acts) \<Rightarrow> (s\<lparr>rtspBridge := b\<rparr>, acts))"

fun dispatch :: "server \<Rightarrow> command \<Rightarrow> server \<times> action list" where
  "dispatch s (JoinRoom sid roomId peerId cr) = handleJoinRoom s sid roomId peerId cr"
| "dispatch s (CreateWebRTCTransport sid direction ct) =
     handleCreateWebRTCTransport s sid direction ct"
| "dispatch s (ConnectTransport sid transportId dtls ok) =
     handleConnectTransport s sid transportId dtls ok"
| "dispatch s (Produce sid transportId knd rtpParameters pr) =
     handleProduce s sid transportId knd rtpParameters pr"
| "dispatch s (Consume sid transportId producerId caps can c) =
     handleConsume s sid transportId producerId caps can c"
| "dispatch s (ResumeConsumer sid consumerId ok) = handleResumeConsumer s sid consumerId ok"
| "dispatch s (Disconnect sid) = handleDisconnect s sid"
| "dispatch s (BridgeStart cr envs) =
     on_bridge s (case start (rtspBridge s) cr envs of
                    (Inl b, acts) \<Rightarrow> (b, acts)
                  | (Inr b, acts) \<Rightarrow> (b, acts))"
| "dispatch s (CameraStart rtspUrl cam env) =
     on_bridge s (startRTSPStream (rtspBridge s) rtspUrl cam env)"
| "dispatch s (CameraRetry rtspUrl cam ok env) =
     on_bridge s (retryTick (rtspBridge s) rtspUrl cam ok env)"
| "dispatch s (CameraExit rtspUrl cam) = on_bridge s (onFFmpegClose (rtspBridge s) rtspUrl cam)"
| "dispatch s BridgeStop = on_bridge s (stop (rtspBridge s))"

fun run :: "server \<Rightarrow> command list \<Rightarrow> server \<times> action list" where
  "run s [] = (s, [])"
| "run s (c # cs) =
     (case dispatch s c of
        (s1, acts1) \<Rightarrow> (case run s1 cs of (s2, acts2) \<Rightarrow> (s2, acts1 @ acts2)))"

subsection \<open>Joins that wait for their router\<close>

text \<open>
  A run in which a join may wait for its router while other messages are handled. The
  state is the server with the suspended joins, each the arguments of its handler
  (socket id, room id, peer id), in the order in which they were suspended. What occurs is
  the arrival of a \<open>join-room\<close> message (the handler runs to its \<open>await\<close> or, for a
  registered room, to its end), the settling of the \<open>createRouter\<close> call of the \<open>n\<close>-th
  suspended join (the handler runs from its \<open>await\<close> to its end), or a command handled
  in one step. The other handlers wait for the engine too, but what they do afterwards
  writes neither \<open>this.rooms\<close> nor \<open>this.peers\<close> nor the \<open>peers\<close> map of a room.
\<close>

type_synonym waiting_join = "string \<times> string \<times> string"

datatype occurrence =
    JoinArrives string string string
  | RouterSettles nat "router option"
  | Runs command

fun occur ::
  "server \<times> waiting_join list \<Rightarrow> occurrence
     \<Rightarrow> (server \<times> waiting_join list) \<times> action list" where
  "occur (s, js) (JoinArrives sid roomId peerId) =
     (case handleJoinRoom_to_await s sid roomId peerId of
        None \<Rightarrow> ((s, js @ [(sid, roomId, peerId)]), [EngineCreateRouter])
      | Some (s', acts) \<Rightarrow> ((s', js), acts))"
| "occur (s, js) (RouterSettles n createRouter) =
     (if n < length js
      then (case js ! n of
              (sid, roomId, peerId) \<Rightarrow>
                (case handleJoinRoom_from_await s sid roomId peerId createRouter of
                   (s', acts) \<Rightarrow> ((s', take n js @ drop (Suc n) js), acts)))
      else ((s, js), []))"
| "occur (s, js) (Runs c) = (case dispatch s c of (s', acts) \<Rightarrow> ((s', js), acts))"

fun occurs ::
  "server \<times> waiting_join list \<Rightarrow> occurrence list
     \<Rightarrow> (server \<times> waiting_join list) \<times> action list" where
  "occurs w [] = (w, [])"
| "occurs w (e # es) =
     (case occur w e of
        (w1, acts1) \<Rightarrow> (case occurs w1 es of (w2, acts2) \<Rightarrow> (w2, acts1 @ acts2)))"

text \<open>
  The runs for which the rooms are related to their peers. A \<open>join-room\<close> is in order
  when its socket is not registered and has no join waiting, no join of its room is waiting
  for the room's router, and the room, if it is registered, does not hold the peer id. A
  disconnect is in order when its socket has no join waiting. Everything else is in order.
\<close>

definition may_join ::
  "server \<times> waiting_join list \<Rightarrow> string \<Rightarrow> string \<Rightarrow> string \<Rightarrow> bool" where
  "may_join w sid roomId peerId =
     (\<not> jsmap_has (peers (fst w)) sid \<and>
      sid \<notin> set (map fst (snd w)) \<and>
      roomId \<notin> set (map (\<lambda>j. fst (snd j)) (snd w)) \<and>
      (case jsmap_get (rooms (fst w)) roomId of
         None \<Rightarrow> True
       | Some room \<Rightarrow> \<not> jsmap_has (r_peers room) peerId))"

fun in_order :: "server \<times> waiting_join list \<Rightarrow> occurrence \<Rightarrow> bool" where
  "in_order w (JoinArrives sid roomId peerId) = may_join w sid roomId peerId"
| "in_order w (Runs (JoinRoom sid roomId peerId createRouter)) = may_join w sid roomId peerId"
| "in_order w (Runs (Disconnect sid)) = (sid \<notin> set (map fst (snd w)))"
| "in_order w _ = True"

text \<open>The occurrences with which the socket \<open>sid\<close> starts a join.\<close>

fun joins :: "string \<Rightarrow> occurrence \<Rightarrow> bool" where
  "joins sid (JoinArrives sid' roomId peerId) = (sid' = sid)"
| "joins sid (Runs (JoinRoom sid' roomId peerId createRouter)) = (sid' = sid)"
| "joins sid _ = False"

fun orderly :: "server \<times> waiting_join list \<Rightarrow> occurrence list \<Rightarrow> bool" where
  "orderly w [] = True"
| "orderly w (e # es) = (in_order w e \<and> orderly (fst (occur w e)) es)"

section \<open>Notions used in the properties\<close>

text \<open>The events a list of actions emits on the socket \<open>sid\<close>, in order.\<close>

fun emitted :: "string \<Rightarrow> action list \<Rightarrow> event list" where
  "emitted sid [] = []"
| "emitted sid (Emit sid' e # acts) =
     (if sid' = sid then e # emitted sid acts else emitted sid acts)"
| "emitted sid (_ # acts) = emitted sid acts"

text \<open>
  The registry as a reader of the two maps sees it: every reference replaced by the peer
  object it points to.
\<close>

definition resolve_peers :: "peer list \<Rightarrow> ('k, nat) jsmap \<Rightarrow> ('k \<times> peer) list" where
  "resolve_peers objs m = map (\<lambda>(k, ref). (k, objs ! ref)) m"

definition room_view ::
  "peer list \<Rightarrow> room \<Rightarrow> router \<times> (string \<times> peer) list \<times> (string, producer) jsmap" where
  "room_view objs room =
     (r_router room, resolve_peers objs (r_peers room), r_producers room)"

definition registry_view ::
  "server \<Rightarrow> (string \<times> router \<times> (string \<times> peer) list \<times> (string, producer) jsmap) list
     \<times> (string \<times> peer) list \<times> (string, string \<times> string) jsmap" where
  "registry_view s =
     (map (\<lambda>(roomId, room). (roomId, room_view (peer_objs s) room)) (rooms s),
      resolve_peers (peer_objs s) (peers s),
      sockets s)"

definition room_exists :: "server \<Rightarrow> string \<Rightarrow> bool" where
  "room_exists s roomId = jsmap_has (rooms s) roomId"

text \<open>
  The peers of a room are the sockets registered in \<open>this.peers\<close> whose \<open>socket.roomId\<close>
  is the room: the room's own \<open>peers\<close> map is not consulted.
\<close>

definition room_sockets :: "server \<Rightarrow> string \<Rightarrow> string list" where
  "room_sockets s roomId =
     filter (\<lambda>sid. socket_roomId s sid = Some roomId) (jsmap_keys (peers s))"

definition peer_count :: "server \<Rightarrow> string \<Rightarrow> nat" where
  "peer_count s roomId = length (room_sockets s roomId)"

definition ingest_producer_count :: "server \<Rightarrow> nat" where
  "ingest_producer_count s = jsmap_size (b_producers (rtspBridge s))"

text \<open>The transports of the peer registered for a socket.\<close>

definition transports_of :: "server \<Rightarrow> string \<Rightarrow> (string, transport) jsmap option" where
  "transports_of s sid = map_option (\<lambda>rp. p_transports (snd rp)) (get_peer s sid)"

definition fresh_peer :: "string \<Rightarrow> string \<Rightarrow> peer" where
  "fresh_peer sid peerId =
     \<lparr>peer_id = peerId, peer_socket = sid,
      p_transports = [], p_producers = [], p_consumers = []\<rparr>"

text \<open>
  Invariants of the registry. In an orderly run the two maps agree: a registered socket
  is registered once, its peer object carries its socket id, and its room is registered
  and holds the peer's id with the same object; every entry of a room's \<open>peers\<close> map is
  the peer of a registered socket of that room; and no room is without a peer. The room
  of a waiting join is not registered, nor is its socket, and no two waiting joins have the
  same socket or the same room. A socket is out when it is neither registered nor
  waiting. In every run, no reference dangles.
\<close>

definition registry_ok :: "server \<Rightarrow> bool" where
  "registry_ok s =
     (distinct (map fst (peers s)) \<and>
      (\<forall>sid ref. jsmap_get (peers s) sid = Some ref \<longrightarrow>
         ref < length (peer_objs s) \<and> peer_socket (peer_objs s ! ref) = sid \<and>
         (\<exists>roomId room.
            jsmap_get (sockets s) sid = Some (peer_id (peer_objs s ! ref), roomId) \<and>
            jsmap_get (rooms s) roomId = Some room \<and>
            jsmap_get (r_peers room) (peer_id (peer_objs s ! ref)) = Some ref)) \<and>
      (\<forall>roomId room peerId ref.
         jsmap_get (rooms s) roomId = Some room \<and> jsmap_get (r_peers room) peerId = Some ref \<longrightarrow>
         ref < length (peer_objs s) \<and>
         jsmap_get (peers s) (peer_socket (peer_objs s ! ref)) = Some ref \<and>
         jsmap_get (sockets s) (peer_socket (peer_objs s ! ref)) = Some (peerId, roomId)) \<and>
      (\<forall>roomId room. jsmap_get (rooms s) roomId = Some room \<longrightarrow> r_peers room \<noteq> []))"

definition out :: "string \<Rightarrow> server \<times> waiting_join list \<Rightarrow> bool" where
  "out sid w = (jsmap_get (peers (fst w)) sid = None \<and> sid \<notin> set (map fst (snd w)))"

definition waiting_ok :: "server \<times> waiting_join list \<Rightarrow> bool" where
  "waiting_ok w =
     (distinct (map fst (snd w)) \<and> distinct (map (\<lambda>j. fst (snd j)) (snd w)) \<and>
      (\<forall>j \<in> set (snd w). jsmap_get (peers (fst w)) (fst j) = None \<and>
                          jsmap_get (rooms (fst w)) (fst (snd j)) = None))"

definition refs_valid :: "server \<Rightarrow> bool" where
  "refs_valid s =
     ((\<forall>e \<in> set (peers s). snd e < length (peer_objs s)) \<and>
      (\<forall>e \<in> set (rooms s). \<forall>e' \<in> set (r_peers (snd e)). snd e' < length (peer_objs s)))"

text \<open>
  The \<open>close()\<close> calls \<open>handleDisconnect\<close> makes on what a peer holds; the actions that
  close a router; the actions on a producer of the bridge.
\<close>

definition closing_of :: "peer \<Rightarrow> action list" where
  "closing_of p =
     map (\<lambda>t. CloseTransport (transport_id t)) (jsmap_values (p_transports p))
     @ map (\<lambda>pr. CloseProducer (producer_id pr)) (jsmap_values (p_producers p))
     @ map (\<lambda>c. CloseConsumer (consumer_id c)) (jsmap_values (p_consumers p))"

fun is_CloseRouter :: "action \<Rightarrow> bool" where
  "is_CloseRouter (CloseRouter r) = True"
| "is_CloseRouter _ = False"


text \<open>Actions that send an event to a client.\<close>

fun is_signal :: "action \<Rightarrow> bool" where
  "is_signal (Emit sid e) = True"
| "is_signal (EmitTo sid roomId e) = True"
| "is_signal _ = False"

fun is_SetInterval :: "action \<Rightarrow> bool" where
  "is_SetInterval (SetInterval t cam rtspUrl) = True"
| "is_SetInterval _ = False"

text \<open>The interval timers of a camera that are active in the runtime.\<close>

definition cam_timers :: "bridge \<Rightarrow> string \<Rightarrow> (nat \<times> string \<times> string) list" where
  "cam_timers b cam = filter (\<lambda>e. fst (snd e) = cam) (timers b)"

text \<open>
  What the state object of a camera records, \<open>None\<close> also when the camera has no state
  object yet.
\<close>

definition recorded_timer :: "(string, cam_state) jsmap \<Rightarrow> string \<Rightarrow> nat option" where
  "recorded_timer rs cam =
     (case jsmap_get rs cam of None \<Rightarrow> None | Some st \<Rightarrow> retryTimer st)"

definition recorded_video :: "(string, cam_state) jsmap \<Rightarrow> string \<Rightarrow> producer option" where
  "recorded_video rs cam =
     (case jsmap_get rs cam of None \<Rightarrow> None | Some st \<Rightarrow> videoProducer st)"

definition recorded_audio :: "(string, cam_state) jsmap \<Rightarrow> string \<Rightarrow> producer option" where
  "recorded_audio rs cam =
     (case jsmap_get rs cam of None \<Rightarrow> None | Some st \<Rightarrow> audioProducer st)"

text \<open>
  Invariants of the bridge. Timer handles are not reused (the active ones and the recorded
  ones are below \<open>next_timer\<close>), and every active timer is the one its camera's state
  records in \<open>retryTimer\<close>. A key of a camera in \<open>this.producers\<close> has
  its producer recorded in the camera's state.
\<close>

definition timers_ok ::
  "(nat, string \<times> string) jsmap \<Rightarrow> nat \<Rightarrow> (string, cam_state) jsmap \<Rightarrow> bool" where
  "timers_ok tm nt rs =
     ((\<forall>e \<in> set tm. fst e < nt) \<and> distinct (map fst tm) \<and>
      (\<forall>e \<in> set tm. recorded_timer rs (fst (snd e)) = Some (fst e)) \<and>
      (\<forall>cam t. recorded_timer rs cam = Some t \<longrightarrow> t < nt))"

definition timers_tracked :: "bridge \<Rightarrow> bool" where
  "timers_tracked b = timers_ok (timers b) (next_timer b) (routers b)"

definition producers_ok ::
  "(string, producer) jsmap \<Rightarrow> (string, cam_state) jsmap \<Rightarrow> bool" where
  "producers_ok pm rs =
     (\<forall>cam. (jsmap_has pm (cam @ ''_video'') \<longrightarrow> recorded_video rs cam \<noteq> None) \<and>
            (jsmap_has pm (cam @ ''_audio'') \<longrightarrow> recorded_audio rs cam \<noteq> None))"

definition producers_tracked :: "bridge \<Rightarrow> bool" where
  "producers_tracked b = producers_ok (b_producers b) (routers b)"

text \<open>
  Events of the probe that settle its promise; what the probe has read on \<open>stdout\<close>;
  strings of decimal digits.
\<close>

fun settles :: "probe_event \<Rightarrow> bool" where
  "settles (ProcClose code) = True"
| "settles SafetyTimeout = True"
| "settles _ = False"

fun stdout_of :: "probe_event list \<Rightarrow> string" where
  "stdout_of [] = []"
| "stdout_of (StdoutData d # evs) = d @ stdout_of evs"
| "stdout_of (_ # evs) = stdout_of evs"

definition decimal :: "string \<Rightarrow> bool" where
  "decimal s = (\<forall>c \<in> set s. c \<in> set ''0123456789'')"

text \<open>
  The registry after a join that found or created \<open>room\<close> under \<open>roomId\<close>: the room gets
  the peer id, the socket gets a new peer object with empty maps.
\<close>

definition joined :: "server \<Rightarrow> string \<Rightarrow> string \<Rightarrow> string \<Rightarrow> room \<Rightarrow> server" where
  "joined s sid roomId peerId room =
     s\<lparr>rooms := jsmap_set (rooms s) roomId
                   (room\<lparr>r_peers := jsmap_set (r_peers room) peerId (length (peer_objs s))\<rparr>),
       peers := jsmap_set (peers s) sid (length (peer_objs s)),
       peer_objs := peer_objs s @ [\<lparr>peer_id = peerId, peer_socket = sid,
                        p_transports = [], p_producers = [], p_consumers = []\<rparr>],
       sockets := jsmap_set (sockets s) sid (peerId, roomId)\<rparr>"

section \<open>Example runs\<close>

definition router1 :: router where
  "router1 = \<lparr>router_id = ''router-1'',
               rtpCapabilities = [''audio/opus'', ''video/VP8'', ''video/H264'']\<rparr>"

definition transport1 :: transport where
  "transport1 = \<lparr>transport_id = ''transport-1'', iceParameters = ''ice-1'',
                  iceCandidates = ''candidates-1'', dtlsParameters = ''dtls-1''\<rparr>"

definition producer1 :: producer where
  "producer1 = \<lparr>producer_id = ''producer-1'', producer_kind = Video\<rparr>"

text \<open>One peer has joined the room \<open>security\<close>.\<close>

definition one_peer :: server where
  "one_peer = fst (run (new_server None)
     [JoinRoom ''sockA'' ''security'' ''peer1'' (Some router1)])"

text \<open>The peer has also created a transport.\<close>

definition one_transport :: server where
  "one_transport = fst (run (new_server None)
     [JoinRoom ''sockA'' ''security'' ''peer1'' (Some router1),
      CreateWebRTCTransport ''sockA'' ''recv'' (Some transport1)])"

text \<open>The peer has also produced a video stream on that transport.\<close>

definition one_producer :: server where
  "one_producer = fst (run (new_server None)
     [JoinRoom ''sockA'' ''security'' ''peer1'' (Some router1),
      CreateWebRTCTransport ''sockA'' ''send'' (Some transport1),
      Produce ''sockA'' ''transport-1'' Video ''rtp-1'' (Some producer1)])"

text \<open>
  A camera whose source answers the probe and whose transports, process and producers are
  all created; a camera whose source does not answer.
\<close>

definition router2 :: router where
  "router2 = \<lparr>router_id = ''router-2'',
               rtpCapabilities = [''audio/opus'', ''video/VP8'', ''video/H264'']\<rparr>"

definition camera_up :: ingest_env where
  "camera_up =
     \<lparr>e_available = True,
      e_videoTransport = Some \<lparr>plain_transport_id = ''plain-video-1'', localPort = 40000\<rparr>,
      e_audioTransport = Some \<lparr>plain_transport_id = ''plain-audio-1'', localPort = 40002\<rparr>,
      e_ffmpeg = 101, e_started = True,
      e_videoProducer = Some \<lparr>producer_id = ''camera-video-1'', producer_kind = Video\<rparr>,
      e_audioProducer = Some \<lparr>producer_id = ''camera-audio-1'', producer_kind = Audio\<rparr>\<rparr>"

definition camera_down :: ingest_env where
  "camera_down = camera_up\<lparr>e_available := False\<rparr>"

text \<open>The bridge has started with one camera, which is producing.\<close>

definition camera_producing :: server where
  "camera_producing = fst (run (new_server (Some ''rtsp://camera-1/stream''))
     [BridgeStart (Some router2) (\<lambda>i. camera_up)])"

text \<open>After that, a peer has joined the room \<open>security\<close> and left again.\<close>

definition camera_producing_peer_gone :: server where
  "camera_producing_peer_gone = fst (run (new_server (Some ''rtsp://camera-1/stream''))
     [BridgeStart (Some router2) (\<lambda>i. camera_up),
      JoinRoom ''sockA'' ''security'' ''peer1'' (Some router1),
      Disconnect ''sockA''])"

text \<open>
  The bridge has started with two cameras: the first is producing, the second has no
  signal and polls.
\<close>

definition two_cameras :: server where
  "two_cameras = fst (run (new_server (Some ''rtsp://camera-1/stream,rtsp://camera-2/stream''))
     [BridgeStart (Some router2) (\<lambda>i. if i = 0 then camera_up else camera_down)])"

text \<open>A peer has joined and the bridge has started with no camera configured.\<close>

definition peer_and_bridge :: server where
  "peer_and_bridge = fst (run (new_server None)
     [JoinRoom ''sockA'' ''security'' ''peer1'' (Some router1),
      BridgeStart (Some router2) (\<lambda>i. camera_up)])"

text \<open>
  An orderly run. The bridge starts with one camera, which is producing. Then \<open>sockA\<close>
  asks for the room \<open>security\<close> and \<open>sockB\<close> for the room \<open>lobby\<close>; both joins wait for
  their routers. The router of \<open>lobby\<close> is ready first, then that of \<open>security\<close>. Then
  \<open>sockC\<close> and \<open>sockD\<close> join \<open>security\<close>, which is registered by then, and \<open>sockD\<close>
  disconnects.
\<close>

definition router3 :: router where
  "router3 = \<lparr>router_id = ''router-3'',
               rtpCapabilities = [''audio/opus'', ''video/VP8'', ''video/H264'']\<rparr>"

definition interleaved_joins :: "occurrence list" where
  "interleaved_joins =
     [Runs (BridgeStart (Some router2) (\<lambda>i. camera_up)),
      JoinArrives ''sockA'' ''security'' ''peer1'',
      JoinArrives ''sockB'' ''lobby'' ''peer2'',
      RouterSettles 1 (Some router3),
      RouterSettles 0 (Some router1),
      JoinArrives ''sockC'' ''security'' ''peer3'']"

definition orderly_run :: "occurrence list" where
  "orderly_run = interleaved_joins @
     [JoinArrives ''sockD'' ''security'' ''peer4'', Runs (Disconnect ''sockD'')]"

definition two_rooms :: server where
  "two_rooms =
     fst (fst (occurs (new_server (Some ''rtsp://camera-1/stream''), []) orderly_run))"

text \<open>
  Three runs that are not orderly. A socket joins \<open>lobby\<close>, then \<open>security\<close>, and
  disconnects. Two sockets join \<open>security\<close> with the same peer id and the first
  disconnects. Two sockets ask for the unregistered room \<open>security\<close> before its router is
  ready, both routers are created, and the second socket disconnects.
\<close>

definition room_changed_run :: "occurrence list" where
  "room_changed_run =
     [Runs (JoinRoom ''sockA'' ''lobby'' ''peer1'' (Some router1)),
      Runs (JoinRoom ''sockA'' ''security'' ''peer1'' (Some router3)),
      Runs (Disconnect ''sockA'')]"

definition room_changed :: server where
  "room_changed = fst (fst (occurs (new_server None, []) room_changed_run))"

definition peer_id_shared_run :: "occurrence list" where
  "peer_id_shared_run =
     [Runs (JoinRoom ''sockA'' ''security'' ''peer1'' (Some router1)),
      Runs (JoinRoom ''sockB'' ''security'' ''peer1'' None),
      Runs (Disconnect ''sockA'')]"

definition peer_id_shared :: server where
  "peer_id_shared = fst (fst (occurs (new_server None, []) peer_id_shared_run))"

definition joins_overlapped_run :: "occurrence list" where
  "joins_overlapped_run =
     [JoinArrives ''sockA'' ''security'' ''peer1'',
      JoinArrives ''sockB'' ''security'' ''peer2'',
      RouterSettles 0 (Some router1),
      RouterSettles 0 (Some router3),
      Runs (Disconnect ''sockB'')]"

definition joins_overlapped :: server where
  "joins_overlapped = fst (fst (occurs (new_server None, []) joins_overlapped_run))"





section \<open>Facts about maps\<close>

lemma jsmap_get_set:
  "jsmap_get (jsmap_set m k v) k' = (if k' = k then Some v else jsmap_get m k')"
  by (induction m) auto

lemma jsmap_get_delete:
  "jsmap_get (jsmap_delete m k) k' = (if k' = k then None else jsmap_get m k')"
  by (induction m) (auto simp: jsmap_delete_def)

lemma jsmap_set_not_Nil: "jsmap_set m k v \<noteq> []"
  by (cases m) (auto split: if_splits)

lemma jsmap_set_set: "jsmap_set (jsmap_set m k v0) k v = jsmap_set m k v"
  by (induction m) auto

lemma jsmap_get_in_set: "jsmap_get m k = Some v \<Longrightarrow> (k, v) \<in> set m"
  by (induction m) (auto split: if_splits)

lemma set_jsmap_set: "e \<in> set (jsmap_set m k v) \<Longrightarrow> e = (k, v) \<or> e \<in> set m"
  by (induction m) (auto split: if_splits)

lemma set_jsmap_delete: "e \<in> set (jsmap_delete m k) \<Longrightarrow> e \<in> set m"
  by (auto simp: jsmap_delete_def)

lemma keys_jsmap_set: "fst ` set (jsmap_set m k v) = insert k (fst ` set m)"
proof (induction m)
  case Nil
  show ?case by simp
next
  case (Cons e m)
  obtain k' v' where e: "e = (k', v')" by (cases e)
  show ?case
  proof (cases "k' = k")
    case True
    then show ?thesis by (simp add: e)
  next
    case False
    then show ?thesis using Cons.IH by (simp add: e insert_commute)
  qed
qed

lemma distinct_jsmap_set: "distinct (map fst m) \<Longrightarrow> distinct (map fst (jsmap_set m k v))"
proof (induction m)
  case Nil
  then show ?case by simp
next
  case (Cons e m)
  then show ?case
    using keys_jsmap_set [of m k v] by (cases e) (auto simp: image_iff)
qed

lemma distinct_jsmap_delete:
  "distinct (map fst m) \<Longrightarrow> distinct (map fst (jsmap_delete m k))"
  by (simp add: jsmap_delete_def distinct_map_filter)

lemma set_jsmap_delete_iff: "e \<in> set (jsmap_delete m k) \<longleftrightarrow> e \<in> set m \<and> fst e \<noteq> k"
  by (auto simp: jsmap_delete_def)

lemma jsmap_keys_get: "k \<in> set (jsmap_keys m) \<longleftrightarrow> jsmap_get m k \<noteq> None"
  by (induction m) (auto simp: jsmap_keys_def)

lemma jsmap_keys_delete: "jsmap_keys (jsmap_delete m k) = filter (\<lambda>x. x \<noteq> k) (jsmap_keys m)"
  by (induction m) (auto simp: jsmap_keys_def jsmap_delete_def)

lemma first_key: "m \<noteq> [] \<Longrightarrow> \<exists>k v. jsmap_get m k = Some v"
  by (cases m) auto

lemma key_of_entry: "(k, v) \<in> set m \<Longrightarrow> \<exists>v'. jsmap_get m k = Some v'"
  by (induction m) auto

section \<open>The three outcomes of \<open>handleJoinRoom\<close>\<close>

lemma handleJoinRoom_existing:
  "jsmap_get (rooms s) roomId = Some room \<Longrightarrow>
   handleJoinRoom s sid roomId peerId cr =
     (joined s sid roomId peerId room,
      Emit sid (RouterRtpCapabilities (rtpCapabilities (r_router room)))
      # (if r_producers room = [] then []
         else [Emit sid (ExistingProducers (jsmap_keys (r_producers room)))]))"
  by (cases cr)
     (simp_all add: handleJoinRoom_def jsmap_has_def joined_def jsmap_keys_def Let_def)

lemma handleJoinRoom_created:
  "jsmap_get (rooms s) roomId = None \<Longrightarrow>
   handleJoinRoom s sid roomId peerId (Some r) =
     (joined s sid roomId peerId \<lparr>r_router = r, r_peers = [], r_producers = []\<rparr>,
      [EngineCreateRouter, Emit sid (RouterRtpCapabilities (rtpCapabilities r))])"
  by (simp add: handleJoinRoom_def jsmap_has_def joined_def jsmap_keys_def
        jsmap_get_set jsmap_set_set Let_def)

lemma handleJoinRoom_failed:
  "jsmap_get (rooms s) roomId = None \<Longrightarrow>
   handleJoinRoom s sid roomId peerId None =
     (s, [EngineCreateRouter, LogError ''Error joining room:'' EngineThrew,
          Emit sid (ErrorEvent ''Failed to join room'')])"
  by (simp add: handleJoinRoom_def jsmap_has_def)

text \<open>
  The handler in two steps gives what the handler in one step gives, when nothing else runs
  between the steps.
\<close>

lemma join_room_rest_joined:
  "jsmap_get (rooms s) roomId = Some room \<Longrightarrow>
   join_room_rest s sid roomId peerId =
     (joined s sid roomId peerId room,
      Emit sid (RouterRtpCapabilities (rtpCapabilities (r_router room)))
      # (if r_producers room = [] then []
         else [Emit sid (ExistingProducers (jsmap_keys (r_producers room)))]))"
  by (simp add: join_room_rest_def joined_def jsmap_keys_def Let_def)

lemma handleJoinRoom_steps:
  "handleJoinRoom s sid roomId peerId cr =
     (case handleJoinRoom_to_await s sid roomId peerId of
        Some r \<Rightarrow> r
      | None \<Rightarrow> (case handleJoinRoom_from_await s sid roomId peerId cr of
                  (s', acts) \<Rightarrow> (s', EngineCreateRouter # acts)))"
proof (cases "jsmap_get (rooms s) roomId")
  case None
  then show ?thesis
    by (cases cr)
       (simp_all add: handleJoinRoom_created handleJoinRoom_failed handleJoinRoom_to_await_def
          handleJoinRoom_from_await_def jsmap_has_def join_room_rest_joined jsmap_get_set
          joined_def jsmap_set_set)
next
  case (Some room)
  then show ?thesis
    by (simp add: handleJoinRoom_existing handleJoinRoom_to_await_def jsmap_has_def
          join_room_rest_joined)
qed

lemma from_await_created:
  "jsmap_get (rooms s) roomId = None \<Longrightarrow>
   handleJoinRoom_from_await s sid roomId peerId (Some r) =
     (joined s sid roomId peerId \<lparr>r_router = r, r_peers = [], r_producers = []\<rparr>,
      [Emit sid (RouterRtpCapabilities (rtpCapabilities r))])"
  by (simp add: handleJoinRoom_from_await_def join_room_rest_joined jsmap_get_set joined_def
        jsmap_set_set)

lemma fst_run_Cons: "fst (run s (c # cs)) = fst (run (fst (dispatch s c)) cs)"
  by (simp split: prod.splits)

section \<open>The registry in orderly runs\<close>

subsection \<open>A join\<close>

lemma registry_ok_joined:
  assumes ok: "registry_ok s"
    and new: "jsmap_get (peers s) sid = None"
    and room: "jsmap_get (rooms s) roomId = Some room \<or>
               (jsmap_get (rooms s) roomId = None \<and> r_peers room = [])"
    and pid: "jsmap_get (r_peers room) peerId = None"
  shows "registry_ok (joined s sid roomId peerId room)"
proof -
  let ?n = "length (peer_objs s)"
  let ?s = "joined s sid roomId peerId room"
  have d: "distinct (map fst (peers ?s))"
    using ok by (simp add: registry_ok_def joined_def distinct_jsmap_set)
  have a: "ref < length (peer_objs ?s) \<and> peer_socket (peer_objs ?s ! ref) = x \<and>
         (\<exists>rid rm.
            jsmap_get (sockets ?s) x = Some (peer_id (peer_objs ?s ! ref), rid) \<and>
            jsmap_get (rooms ?s) rid = Some rm \<and>
            jsmap_get (r_peers rm) (peer_id (peer_objs ?s ! ref)) = Some ref)"
    if h: "jsmap_get (peers ?s) x = Some ref" for x ref
  proof (cases "x = sid")
    case True
    with h have "ref = ?n" by (simp add: joined_def jsmap_get_set)
    with True show ?thesis by (simp add: joined_def jsmap_get_set)
  next
    case False
    with h have g: "jsmap_get (peers s) x = Some ref" by (simp add: joined_def jsmap_get_set)
    with ok obtain rid rm where lt: "ref < ?n" and so: "peer_socket (peer_objs s ! ref) = x"
      and sk: "jsmap_get (sockets s) x = Some (peer_id (peer_objs s ! ref), rid)"
      and rm: "jsmap_get (rooms s) rid = Some rm"
      and en: "jsmap_get (r_peers rm) (peer_id (peer_objs s ! ref)) = Some ref"
      unfolding registry_ok_def by blast
    show ?thesis
    proof (cases "rid = roomId")
      case True
      with rm room have eq: "rm = room" by auto
      with en pid have "peer_id (peer_objs s ! ref) \<noteq> peerId" by auto
      with lt so sk rm en eq True False show ?thesis
        by (simp add: joined_def jsmap_get_set nth_append)
    next
      case r: False
      with lt so sk rm en False show ?thesis
        by (simp add: joined_def jsmap_get_set nth_append)
    qed
  qed
  have b: "ref < length (peer_objs ?s) \<and>
         jsmap_get (peers ?s) (peer_socket (peer_objs ?s ! ref)) = Some ref \<and>
         jsmap_get (sockets ?s) (peer_socket (peer_objs ?s ! ref)) = Some (k, rid)"
    if h: "jsmap_get (rooms ?s) rid = Some rm" "jsmap_get (r_peers rm) k = Some ref"
    for rid rm k ref
  proof -
    have old: ?thesis
      if o: "jsmap_get (rooms s) rid = Some rm0" "jsmap_get (r_peers rm0) k = Some ref" for rm0
    proof -
      from ok o have lt: "ref < ?n"
        and p: "jsmap_get (peers s) (peer_socket (peer_objs s ! ref)) = Some ref"
        and sk: "jsmap_get (sockets s) (peer_socket (peer_objs s ! ref)) = Some (k, rid)"
        unfolding registry_ok_def by blast+
      from p new have "peer_socket (peer_objs s ! ref) \<noteq> sid" by auto
      with lt p sk show ?thesis by (simp add: joined_def jsmap_get_set nth_append)
    qed
    show ?thesis
    proof (cases "rid = roomId")
      case True
      with h(1) have rm: "rm = room\<lparr>r_peers := jsmap_set (r_peers room) peerId ?n\<rparr>"
        by (simp add: joined_def jsmap_get_set)
      show ?thesis
      proof (cases "k = peerId")
        case k: True
        with h(2) rm have "ref = ?n" by (simp add: jsmap_get_set)
        with k True show ?thesis by (simp add: joined_def jsmap_get_set)
      next
        case k: False
        with h(2) rm have e: "jsmap_get (r_peers room) k = Some ref" by (simp add: jsmap_get_set)
        with room have "jsmap_get (rooms s) roomId = Some room" by auto
        with e True show ?thesis using old by simp
      qed
    next
      case False
      with h(1) have "jsmap_get (rooms s) rid = Some rm" by (simp add: joined_def jsmap_get_set)
      with h(2) show ?thesis using old by simp
    qed
  qed
  have c: "r_peers rm \<noteq> []" if h: "jsmap_get (rooms ?s) rid = Some rm" for rid rm
  proof (cases "rid = roomId")
    case True
    with h show ?thesis by (auto simp: joined_def jsmap_get_set jsmap_set_not_Nil)
  next
    case False
    with h have "jsmap_get (rooms s) rid = Some rm" by (simp add: joined_def jsmap_get_set)
    with ok show ?thesis unfolding registry_ok_def by blast
  qed
  from d a b c show ?thesis unfolding registry_ok_def by blast
qed

subsection \<open>A disconnect and the other handlers\<close>

lemma closing_of_no_router: "filter is_CloseRouter (closing_of p) = []"
  by (auto simp: closing_of_def filter_empty_conv)

lemma handleDisconnect_registered:
  assumes "jsmap_get (peers s) sid = Some ref"
    and "jsmap_get (sockets s) sid = Some (pid, roomId)"
    and "jsmap_get (rooms s) roomId = Some room"
  shows "handleDisconnect s sid =
    (if jsmap_delete (r_peers room) (peer_id (peer_objs s ! ref)) = []
     then (s\<lparr>rooms := jsmap_delete (rooms s) roomId, peers := jsmap_delete (peers s) sid\<rparr>,
           closing_of (peer_objs s ! ref) @ [CloseRouter (router_id (r_router room))])
     else (s\<lparr>rooms := jsmap_set (rooms s) roomId
                (room\<lparr>r_producers := foldl (\<lambda>m pr. jsmap_delete m (producer_id pr))
                          (r_producers room) (jsmap_values (p_producers (peer_objs s ! ref))),
                      r_peers := jsmap_delete (r_peers room) (peer_id (peer_objs s ! ref))\<rparr>),
              peers := jsmap_delete (peers s) sid\<rparr>,
           closing_of (peer_objs s ! ref)))"
  using assms
  by (simp add: handleDisconnect_def get_peer_def get_room_def socket_roomId_def Let_def
        jsmap_size_def closing_of_def)

lemma registry_ok_disconnect:
  assumes ok: "registry_ok s"
  shows "registry_ok (fst (handleDisconnect s sid))"
proof (cases "jsmap_get (peers s) sid")
  case None
  then show ?thesis using ok by (simp add: handleDisconnect_def get_peer_def)
next
  case (Some ref)
  with ok obtain roomId room where lt: "ref < length (peer_objs s)"
    and so: "peer_socket (peer_objs s ! ref) = sid"
    and sk: "jsmap_get (sockets s) sid = Some (peer_id (peer_objs s ! ref), roomId)"
    and rm: "jsmap_get (rooms s) roomId = Some room"
    and en: "jsmap_get (r_peers room) (peer_id (peer_objs s ! ref)) = Some ref"
    unfolding registry_ok_def by blast
  let ?pid = "peer_id (peer_objs s ! ref)"
  let ?s = "fst (handleDisconnect s sid)"
  note hd = handleDisconnect_registered [OF Some sk rm]
  have objs: "peer_objs ?s = peer_objs s" and socks: "sockets ?s = sockets s"
    and prs: "peers ?s = jsmap_delete (peers s) sid"
    by (simp_all add: hd)
  have rms: "jsmap_get (rooms ?s) rid =
      (if rid = roomId
       then (if jsmap_delete (r_peers room) ?pid = [] then None
             else Some (room\<lparr>r_producers := foldl (\<lambda>m pr. jsmap_delete m (producer_id pr))
                          (r_producers room) (jsmap_values (p_producers (peer_objs s ! ref))),
                      r_peers := jsmap_delete (r_peers room) ?pid\<rparr>))
       else jsmap_get (rooms s) rid)" for rid
    by (simp add: hd jsmap_get_set jsmap_get_delete)
  have d: "distinct (map fst (peers ?s))"
    using ok by (simp add: prs registry_ok_def distinct_jsmap_delete)
  have a: "r < length (peer_objs ?s) \<and> peer_socket (peer_objs ?s ! r) = x \<and>
         (\<exists>rid rm'.
            jsmap_get (sockets ?s) x = Some (peer_id (peer_objs ?s ! r), rid) \<and>
            jsmap_get (rooms ?s) rid = Some rm' \<and>
            jsmap_get (r_peers rm') (peer_id (peer_objs ?s ! r)) = Some r)"
    if h: "jsmap_get (peers ?s) x = Some r" for x r
  proof -
    from h have ne: "x \<noteq> sid" and g: "jsmap_get (peers s) x = Some r"
      by (auto simp: prs jsmap_get_delete split: if_splits)
    from ok g obtain rid rm' where lt': "r < length (peer_objs s)"
      and so': "peer_socket (peer_objs s ! r) = x"
      and sk': "jsmap_get (sockets s) x = Some (peer_id (peer_objs s ! r), rid)"
      and rm': "jsmap_get (rooms s) rid = Some rm'"
      and en': "jsmap_get (r_peers rm') (peer_id (peer_objs s ! r)) = Some r"
      unfolding registry_ok_def by blast
    show ?thesis
    proof (cases "rid = roomId")
      case True
      with rm rm' have eq: "rm' = room" by simp
      have "peer_id (peer_objs s ! r) \<noteq> ?pid"
      proof
        assume "peer_id (peer_objs s ! r) = ?pid"
        with en en' eq have "r = ref" by simp
        with so so' ne show False by simp
      qed
      then have e2: "jsmap_get (jsmap_delete (r_peers room) ?pid) (peer_id (peer_objs s ! r))
                       = Some r"
        using en' eq by (simp add: jsmap_get_delete)
      then have "jsmap_delete (r_peers room) ?pid \<noteq> []" by auto
      with lt' so' sk' True e2 show ?thesis by (simp add: objs socks rms)
    next
      case False
      with lt' so' sk' rm' en' show ?thesis by (simp add: objs socks rms)
    qed
  qed
  have b: "r < length (peer_objs ?s) \<and>
         jsmap_get (peers ?s) (peer_socket (peer_objs ?s ! r)) = Some r \<and>
         jsmap_get (sockets ?s) (peer_socket (peer_objs ?s ! r)) = Some (k, rid)"
    if h: "jsmap_get (rooms ?s) rid = Some rm'" "jsmap_get (r_peers rm') k = Some r"
    for rid rm' k r
  proof -
    have "\<exists>rm0. jsmap_get (rooms s) rid = Some rm0 \<and> jsmap_get (r_peers rm0) k = Some r \<and>
            (rid = roomId \<longrightarrow> k \<noteq> ?pid)"
      using h rm by (auto simp: rms jsmap_get_delete split: if_splits)
    then obtain rm0 where o: "jsmap_get (rooms s) rid = Some rm0"
      "jsmap_get (r_peers rm0) k = Some r" and diff: "rid = roomId \<longrightarrow> k \<noteq> ?pid"
      by blast
    from ok o have lt': "r < length (peer_objs s)"
      and p: "jsmap_get (peers s) (peer_socket (peer_objs s ! r)) = Some r"
      and sk': "jsmap_get (sockets s) (peer_socket (peer_objs s ! r)) = Some (k, rid)"
      unfolding registry_ok_def by blast+
    from sk sk' diff have "peer_socket (peer_objs s ! r) \<noteq> sid" by auto
    with lt' p sk' show ?thesis by (simp add: objs socks prs jsmap_get_delete)
  qed
  have c: "r_peers rm' \<noteq> []" if h: "jsmap_get (rooms ?s) rid = Some rm'" for rid rm'
  proof (cases "rid = roomId")
    case True
    with h show ?thesis by (auto simp: rms split: if_splits)
  next
    case False
    with h have "jsmap_get (rooms s) rid = Some rm'" by (simp add: rms)
    with ok show ?thesis unfolding registry_ok_def by blast
  qed
  from d a b c show ?thesis unfolding registry_ok_def by blast
qed

lemma registry_ok_objs:
  assumes ok: "registry_ok s"
    and len: "length objs = length (peer_objs s)"
    and same: "\<And>j. j < length objs \<Longrightarrow>
        peer_id (objs ! j) = peer_id (peer_objs s ! j) \<and>
        peer_socket (objs ! j) = peer_socket (peer_objs s ! j)"
  shows "registry_ok (s\<lparr>peer_objs := objs\<rparr>)"
proof -
  have a: "ref < length objs \<and> peer_socket (objs ! ref) = x \<and>
         (\<exists>rid rm.
            jsmap_get (sockets s) x = Some (peer_id (objs ! ref), rid) \<and>
            jsmap_get (rooms s) rid = Some rm \<and>
            jsmap_get (r_peers rm) (peer_id (objs ! ref)) = Some ref)"
    if h: "jsmap_get (peers s) x = Some ref" for x ref
  proof -
    from ok h have "ref < length (peer_objs s)" unfolding registry_ok_def by blast
    with len same [of ref] have e: "ref < length objs"
      "peer_id (objs ! ref) = peer_id (peer_objs s ! ref)"
      "peer_socket (objs ! ref) = peer_socket (peer_objs s ! ref)" by simp_all
    from ok h obtain rid rm where
      "peer_socket (peer_objs s ! ref) = x"
      "jsmap_get (sockets s) x = Some (peer_id (peer_objs s ! ref), rid)"
      "jsmap_get (rooms s) rid = Some rm"
      "jsmap_get (r_peers rm) (peer_id (peer_objs s ! ref)) = Some ref"
      unfolding registry_ok_def by blast
    with e show ?thesis by auto
  qed
  have b: "ref < length objs \<and>
         jsmap_get (peers s) (peer_socket (objs ! ref)) = Some ref \<and>
         jsmap_get (sockets s) (peer_socket (objs ! ref)) = Some (k, rid)"
    if h: "jsmap_get (rooms s) rid = Some rm" "jsmap_get (r_peers rm) k = Some ref"
    for rid rm k ref
  proof -
    from ok h have "ref < length (peer_objs s)" unfolding registry_ok_def by blast
    with len same [of ref] have e: "ref < length objs"
      "peer_socket (objs ! ref) = peer_socket (peer_objs s ! ref)" by simp_all
    from ok h have
      "jsmap_get (peers s) (peer_socket (peer_objs s ! ref)) = Some ref"
      "jsmap_get (sockets s) (peer_socket (peer_objs s ! ref)) = Some (k, rid)"
      unfolding registry_ok_def by blast+
    with e show ?thesis by auto
  qed
  have c: "r_peers rm \<noteq> []" if "jsmap_get (rooms s) rid = Some rm" for rid rm
    using ok that unfolding registry_ok_def by blast
  have d: "distinct (map fst (peers s))" using ok unfolding registry_ok_def by blast
  have "registry_ok (s\<lparr>peer_objs := objs\<rparr>) \<longleftrightarrow>
      distinct (map fst (peers s)) \<and>
      (\<forall>sid ref. jsmap_get (peers s) sid = Some ref \<longrightarrow>
         ref < length objs \<and> peer_socket (objs ! ref) = sid \<and>
         (\<exists>roomId room.
            jsmap_get (sockets s) sid = Some (peer_id (objs ! ref), roomId) \<and>
            jsmap_get (rooms s) roomId = Some room \<and>
            jsmap_get (r_peers room) (peer_id (objs ! ref)) = Some ref)) \<and>
      (\<forall>roomId room peerId ref.
         jsmap_get (rooms s) roomId = Some room \<and> jsmap_get (r_peers room) peerId = Some ref \<longrightarrow>
         ref < length objs \<and>
         jsmap_get (peers s) (peer_socket (objs ! ref)) = Some ref \<and>
         jsmap_get (sockets s) (peer_socket (objs ! ref)) = Some (peerId, roomId)) \<and>
      (\<forall>roomId room. jsmap_get (rooms s) roomId = Some room \<longrightarrow> r_peers room \<noteq> [])"
    by (simp add: registry_ok_def)
  with d a b c show ?thesis by blast
qed

lemma registry_ok_update:
  assumes "registry_ok s" and "peer_id p = peer_id (peer_objs s ! r)"
    and "peer_socket p = peer_socket (peer_objs s ! r)"
  shows "registry_ok (s\<lparr>peer_objs := (peer_objs s)[r := p]\<rparr>)"
proof (rule registry_ok_objs [OF assms(1)])
  show "length ((peer_objs s)[r := p]) = length (peer_objs s)" by simp
next
  fix j
  assume "j < length ((peer_objs s)[r := p])"
  then show "peer_id ((peer_objs s)[r := p] ! j) = peer_id (peer_objs s ! j) \<and>
        peer_socket ((peer_objs s)[r := p] ! j) = peer_socket (peer_objs s ! j)"
    using assms(2,3) by (cases "j = r") simp_all
qed

lemma registry_ok_producers:
  assumes ok: "registry_ok s" and rm: "jsmap_get (rooms s) roomId = Some room"
  shows "registry_ok (s\<lparr>rooms := jsmap_set (rooms s) roomId (room\<lparr>r_producers := x\<rparr>)\<rparr>)"
proof -
  let ?s = "s\<lparr>rooms := jsmap_set (rooms s) roomId (room\<lparr>r_producers := x\<rparr>)\<rparr>"
  have g: "jsmap_get (rooms ?s) rid = Some rm' \<Longrightarrow>
        \<exists>rm0. jsmap_get (rooms s) rid = Some rm0 \<and> r_peers rm0 = r_peers rm'" for rid rm'
    using rm by (auto simp: jsmap_get_set split: if_splits)
  have g': "jsmap_get (rooms s) rid = Some rm0 \<Longrightarrow>
        \<exists>rm'. jsmap_get (rooms ?s) rid = Some rm' \<and> r_peers rm0 = r_peers rm'" for rid rm0
    using rm by (auto simp: jsmap_get_set split: if_splits)
  have a: "ref < length (peer_objs ?s) \<and> peer_socket (peer_objs ?s ! ref) = y \<and>
         (\<exists>rid rm'.
            jsmap_get (sockets ?s) y = Some (peer_id (peer_objs ?s ! ref), rid) \<and>
            jsmap_get (rooms ?s) rid = Some rm' \<and>
            jsmap_get (r_peers rm') (peer_id (peer_objs ?s ! ref)) = Some ref)"
    if h: "jsmap_get (peers ?s) y = Some ref" for y ref
  proof -
    from h have "jsmap_get (peers s) y = Some ref" by simp
    with ok obtain rid rm0 where lt: "ref < length (peer_objs s)"
      and so: "peer_socket (peer_objs s ! ref) = y"
      and sk: "jsmap_get (sockets s) y = Some (peer_id (peer_objs s ! ref), rid)"
      and r0: "jsmap_get (rooms s) rid = Some rm0"
      and en: "jsmap_get (r_peers rm0) (peer_id (peer_objs s ! ref)) = Some ref"
      unfolding registry_ok_def by blast
    from g' [OF r0] obtain rm' where "jsmap_get (rooms ?s) rid = Some rm'"
      "r_peers rm0 = r_peers rm'" by blast
    with lt so sk en show ?thesis by auto
  qed
  have b: "ref < length (peer_objs ?s) \<and>
         jsmap_get (peers ?s) (peer_socket (peer_objs ?s ! ref)) = Some ref \<and>
         jsmap_get (sockets ?s) (peer_socket (peer_objs ?s ! ref)) = Some (k, rid)"
    if h: "jsmap_get (rooms ?s) rid = Some rm'" "jsmap_get (r_peers rm') k = Some ref"
    for rid rm' k ref
  proof -
    from g [OF h(1)] h(2) obtain rm0 where "jsmap_get (rooms s) rid = Some rm0"
      "jsmap_get (r_peers rm0) k = Some ref" by auto
    with ok show ?thesis unfolding registry_ok_def by simp
  qed
  have c: "r_peers rm' \<noteq> []" if h: "jsmap_get (rooms ?s) rid = Some rm'" for rid rm'
  proof -
    from g [OF h] obtain rm0 where "jsmap_get (rooms s) rid = Some rm0"
      "r_peers rm0 = r_peers rm'" by blast
    with ok show ?thesis unfolding registry_ok_def by metis
  qed
  have d: "distinct (map fst (peers ?s))" using ok by (simp add: registry_ok_def)
  from d a b c show ?thesis unfolding registry_ok_def by blast
qed

lemma registry_ok_bridge: "registry_ok (s\<lparr>rtspBridge := b\<rparr>) = registry_ok s"
  by (simp add: registry_ok_def)

lemma registry_ok_on_bridge: "registry_ok s \<Longrightarrow> registry_ok (fst (on_bridge s r))"
  by (simp add: on_bridge_def registry_ok_bridge split: prod.splits)

lemma registry_ok_transport:
  "registry_ok s \<Longrightarrow> registry_ok (fst (handleCreateWebRTCTransport s sid d ct))"
  by (auto simp: handleCreateWebRTCTransport_def get_peer_def
        split: option.splits prod.splits intro!: registry_ok_update)

lemma registry_ok_consume:
  "registry_ok s \<Longrightarrow> registry_ok (fst (handleConsume s sid t pr caps can c))"
  by (auto simp: handleConsume_def get_peer_def
        split: option.splits prod.splits intro!: registry_ok_update)

lemma registry_ok_produce:
  assumes "registry_ok s"
  shows "registry_ok (fst (handleProduce s sid t k rp pr))"
proof -
  have "registry_ok
      (s\<lparr>peer_objs := (peer_objs s)[ref := p\<lparr>p_producers := x\<rparr>],
         rooms := jsmap_set (rooms s) roomId (room\<lparr>r_producers := y\<rparr>)\<rparr>)"
    if "p = peer_objs s ! ref" "jsmap_get (rooms s) roomId = Some room"
    for ref p x roomId room y
  proof -
    have "registry_ok (s\<lparr>peer_objs := (peer_objs s)[ref := p\<lparr>p_producers := x\<rparr>]\<rparr>)"
      using that(1) by (intro registry_ok_update [OF assms]) simp_all
    from registry_ok_producers [OF this, of roomId room y] that(2)
    show ?thesis by simp
  qed
  then show ?thesis
    using assms
    by (auto simp: handleProduce_def get_peer_def get_room_def
          split: option.splits prod.splits)
qed

lemma registry_ok_dispatch:
  assumes "registry_ok s" and "\<And>sid roomId peerId cr. c \<noteq> JoinRoom sid roomId peerId cr"
  shows "registry_ok (fst (dispatch s c))"
proof (cases c)
  case (JoinRoom sid roomId peerId cr)
  with assms(2) [of sid roomId peerId cr] show ?thesis by simp
qed (use assms(1) in \<open>simp_all add: registry_ok_transport registry_ok_consume
       registry_ok_produce registry_ok_disconnect registry_ok_on_bridge
       handleConnectTransport_def handleResumeConsumer_def split: option.splits prod.splits\<close>)

lemma produce_keys:
  "peers (fst (handleProduce s sid t k rp pr)) = peers s \<and>
   (jsmap_get (rooms s) rid = None \<longrightarrow>
      jsmap_get (rooms (fst (handleProduce s sid t k rp pr))) rid = None)"
  by (auto simp: handleProduce_def get_room_def jsmap_get_set
        split: option.splits prod.splits)

lemma disconnect_keys:
  "(jsmap_get (peers s) x = None \<longrightarrow> jsmap_get (peers (fst (handleDisconnect s sid))) x = None) \<and>
   (jsmap_get (rooms s) rid = None \<longrightarrow>
      jsmap_get (rooms (fst (handleDisconnect s sid))) rid = None)"
  by (auto simp: handleDisconnect_def get_room_def Let_def jsmap_get_set jsmap_get_delete
        split: option.splits prod.splits)

lemma dispatch_keys:
  assumes "\<And>sid roomId peerId cr. c \<noteq> JoinRoom sid roomId peerId cr"
  shows "(jsmap_get (peers s) x = None \<longrightarrow> jsmap_get (peers (fst (dispatch s c))) x = None) \<and>
   (jsmap_get (rooms s) rid = None \<longrightarrow> jsmap_get (rooms (fst (dispatch s c))) rid = None)"
proof (cases c)
  case (JoinRoom sid roomId peerId cr)
  with assms [of sid roomId peerId cr] show ?thesis by simp
next
  case (Produce sid t k rp pr)
  then show ?thesis using produce_keys [of s sid t k rp pr rid] by simp
next
  case (Disconnect sid)
  then show ?thesis using disconnect_keys [of s x sid rid] by simp
qed (simp_all add: handleCreateWebRTCTransport_def handleConnectTransport_def
       handleConsume_def handleResumeConsumer_def on_bridge_def
       split: option.splits prod.splits)

subsection \<open>Every orderly run\<close>

lemma without_nth:
  assumes "distinct (map f js)" and "n < length js"
  shows "distinct (map f (take n js @ drop (Suc n) js)) \<and>
         f (js ! n) \<notin> set (map f (take n js @ drop (Suc n) js)) \<and>
         set (take n js @ drop (Suc n) js) \<subseteq> set js"
proof -
  have "js = take n js @ js ! n # drop (Suc n) js"
    using assms(2) by (rule id_take_nth_drop)
  then have "distinct (map f (take n js @ js ! n # drop (Suc n) js))"
    using assms(1) by simp
  then have "distinct (map f (take n js @ drop (Suc n) js)) \<and>
         f (js ! n) \<notin> set (map f (take n js @ drop (Suc n) js))"
    by auto
  moreover have "set (take n js @ drop (Suc n) js) \<subseteq> set js"
    using set_take_subset [of n js] set_drop_subset [of "Suc n" js] by auto
  ultimately show ?thesis by blast
qed

lemma waiting_ok_joined:
  assumes "\<forall>j \<in> set js. jsmap_get (peers s) (fst j) = None \<and>
                          jsmap_get (rooms s) (fst (snd j)) = None"
    and "distinct (map fst js)" and "distinct (map (\<lambda>j. fst (snd j)) js)"
    and "sid \<notin> set (map fst js)" and "roomId \<notin> set (map (\<lambda>j. fst (snd j)) js)"
  shows "waiting_ok (joined s sid roomId peerId room, js)"
  using assms by (auto simp: waiting_ok_def joined_def jsmap_get_set)

lemma waiting_ok_keys:
  assumes "waiting_ok (s, js)"
    and "\<And>x. jsmap_get (peers s) x = None \<Longrightarrow> jsmap_get (peers s') x = None"
    and "\<And>rid. jsmap_get (rooms s) rid = None \<Longrightarrow> jsmap_get (rooms s') rid = None"
  shows "waiting_ok (s', js)"
  using assms by (auto simp: waiting_ok_def)

lemma may_join_D:
  assumes "may_join (s, js) sid roomId peerId"
  shows "jsmap_get (peers s) sid = None" and "sid \<notin> set (map fst js)"
    and "roomId \<notin> set (map (\<lambda>j. fst (snd j)) js)"
    and "jsmap_get (rooms s) roomId = Some room \<Longrightarrow> jsmap_get (r_peers room) peerId = None"
  using assms by (auto simp: may_join_def jsmap_has_def)

lemma join_invariant:
  assumes ok: "registry_ok s" and w: "waiting_ok (s, js)"
    and m: "may_join (s, js) sid roomId peerId"
    and room: "jsmap_get (rooms s) roomId = Some room \<or>
               (jsmap_get (rooms s) roomId = None \<and> r_peers room = [])"
  shows "registry_ok (joined s sid roomId peerId room) \<and>
         waiting_ok (joined s sid roomId peerId room, js)"
proof -
  have pid: "jsmap_get (r_peers room) peerId = None"
    using room may_join_D(4) [OF m] by auto
  have "registry_ok (joined s sid roomId peerId room)"
    using ok may_join_D(1) [OF m] room pid by (rule registry_ok_joined)
  moreover have "waiting_ok (joined s sid roomId peerId room, js)"
    using w may_join_D(2,3) [OF m] by (intro waiting_ok_joined) (auto simp: waiting_ok_def)
  ultimately show ?thesis by blast
qed

lemma arrives_invariant:
  assumes ok: "registry_ok s" and w: "waiting_ok (s, js)"
    and m: "may_join (s, js) sid roomId peerId"
  shows "registry_ok (fst (fst (occur (s, js) (JoinArrives sid roomId peerId)))) \<and>
         waiting_ok (fst (occur (s, js) (JoinArrives sid roomId peerId)))"
proof (cases "jsmap_get (rooms s) roomId")
  case None
  then have "fst (occur (s, js) (JoinArrives sid roomId peerId))
      = (s, js @ [(sid, roomId, peerId)])"
    by (simp add: handleJoinRoom_to_await_def jsmap_has_def)
  moreover have "waiting_ok (s, js @ [(sid, roomId, peerId)])"
    using w may_join_D(1,2,3) [OF m] None by (auto simp: waiting_ok_def)
  ultimately show ?thesis using ok by simp
next
  case (Some room)
  then have "fst (occur (s, js) (JoinArrives sid roomId peerId))
      = (joined s sid roomId peerId room, js)"
    by (simp add: handleJoinRoom_to_await_def jsmap_has_def join_room_rest_joined)
  then show ?thesis using join_invariant [OF ok w m, of room] Some by simp
qed

lemma settles_invariant:
  assumes ok: "registry_ok s" and w: "waiting_ok (s, js)"
  shows "registry_ok (fst (fst (occur (s, js) (RouterSettles n cr)))) \<and>
         waiting_ok (fst (occur (s, js) (RouterSettles n cr)))"
proof (cases "n < length js")
  case False
  then show ?thesis using ok w by simp
next
  case True
  obtain sid roomId peerId where j: "js ! n = (sid, roomId, peerId)" by (cases "js ! n")
  let ?js = "take n js @ drop (Suc n) js"
  from w have d1: "distinct (map fst js)" and d2: "distinct (map (\<lambda>j. fst (snd j)) js)"
    and al: "\<forall>j \<in> set js. jsmap_get (peers s) (fst j) = None \<and>
                          jsmap_get (rooms s) (fst (snd j)) = None"
    by (simp_all add: waiting_ok_def)
  from True have "js ! n \<in> set js" by simp
  with al j have ps: "jsmap_get (peers s) sid = None" and rs: "jsmap_get (rooms s) roomId = None"
    by auto
  note n1 = without_nth [OF d1 True]
  note n2 = without_nth [OF d2 True]
  have al': "\<forall>j \<in> set ?js. jsmap_get (peers s) (fst j) = None \<and>
                          jsmap_get (rooms s) (fst (snd j)) = None"
    using al n1 by blast
  have w': "waiting_ok (s, ?js)"
    using n1 n2 al' by (simp add: waiting_ok_def)
  show ?thesis
  proof (cases cr)
    case None
    then have "fst (occur (s, js) (RouterSettles n cr)) = (s, ?js)"
      using True j by (simp add: handleJoinRoom_from_await_def)
    then show ?thesis using ok w' by (simp only: fst_conv)
  next
    case (Some r)
    let ?room = "\<lparr>r_router = r, r_peers = [], r_producers = []\<rparr>"
    have e: "fst (occur (s, js) (RouterSettles n cr)) = (joined s sid roomId peerId ?room, ?js)"
      using True j Some by (simp add: from_await_created [OF rs])
    have "registry_ok (joined s sid roomId peerId ?room)"
      using ok ps rs by (intro registry_ok_joined) simp_all
    moreover have "waiting_ok (joined s sid roomId peerId ?room, ?js)"
      using al' n1 n2 j by (intro waiting_ok_joined) simp_all
    ultimately show ?thesis by (simp only: e fst_conv) 
  qed
qed

lemma runs_join_invariant:
  assumes ok: "registry_ok s" and w: "waiting_ok (s, js)"
    and m: "may_join (s, js) sid roomId peerId"
  shows "registry_ok (fst (handleJoinRoom s sid roomId peerId cr)) \<and>
         waiting_ok (fst (handleJoinRoom s sid roomId peerId cr), js)"
proof (cases "jsmap_get (rooms s) roomId")
  case None
  show ?thesis
  proof (cases cr)
    case n: None
    then show ?thesis using ok w None by (simp add: handleJoinRoom_failed)
  next
    case (Some r)
    then show ?thesis
      using join_invariant [OF ok w m, of "\<lparr>r_router = r, r_peers = [], r_producers = []\<rparr>"] None
      by (simp add: handleJoinRoom_created)
  qed
next
  case (Some room)
  then show ?thesis
    using join_invariant [OF ok w m, of room] by (simp add: handleJoinRoom_existing)
qed

lemma runs_invariant:
  assumes ok: "registry_ok s" and w: "waiting_ok (s, js)" and o: "in_order (s, js) (Runs c)"
  shows "registry_ok (fst (fst (occur (s, js) (Runs c)))) \<and>
         waiting_ok (fst (occur (s, js) (Runs c)))"
proof -
  have e: "fst (occur (s, js) (Runs c)) = (fst (dispatch s c), js)"
    by (simp split: prod.splits)
  show ?thesis
  proof (cases "\<exists>sid roomId peerId cr. c = JoinRoom sid roomId peerId cr")
    case True
    then obtain sid roomId peerId cr where c: "c = JoinRoom sid roomId peerId cr" by blast
    with o have "may_join (s, js) sid roomId peerId" by simp
    from runs_join_invariant [OF ok w this, of cr] show ?thesis
      unfolding e by (simp only: fst_conv c dispatch.simps)
  next
    case False
    then have nj: "\<And>sid roomId peerId cr. c \<noteq> JoinRoom sid roomId peerId cr" by blast
    have "registry_ok (fst (dispatch s c))" using ok nj by (rule registry_ok_dispatch)
    moreover have "waiting_ok (fst (dispatch s c), js)"
    proof (rule waiting_ok_keys [OF w])
      fix x assume "jsmap_get (peers s) x = None"
      then show "jsmap_get (peers (fst (dispatch s c))) x = None"
        using dispatch_keys [OF nj, of s x] by simp
    next
      fix rid assume "jsmap_get (rooms s) rid = None"
      then show "jsmap_get (rooms (fst (dispatch s c))) rid = None"
        using dispatch_keys [OF nj, of s _ rid] by simp
    qed
    ultimately show ?thesis by (simp only: e fst_conv)
  qed
qed

lemma occur_invariant:
  assumes "registry_ok (fst w)" and "waiting_ok w" and "in_order w e"
  shows "registry_ok (fst (fst (occur w e))) \<and> waiting_ok (fst (occur w e))"
proof -
  obtain s js where w: "w = (s, js)" by (cases w)
  show ?thesis
  proof (cases e)
    case (JoinArrives sid roomId peerId)
    then show ?thesis using assms arrives_invariant [of s js sid roomId peerId] by (simp add: w)
  next
    case (RouterSettles n cr)
    then show ?thesis using assms settles_invariant [of s js n cr] by (simp add: w)
  next
    case (Runs c)
    then show ?thesis using assms runs_invariant [of s js c] by (simp add: w)
  qed
qed

lemma fst_occurs_Cons: "fst (occurs w (e # es)) = fst (occurs (fst (occur w e)) es)"
  by (simp split: prod.splits)

lemma occurs_invariant:
  "registry_ok (fst w) \<Longrightarrow> waiting_ok w \<Longrightarrow> orderly w es \<Longrightarrow>
   registry_ok (fst (fst (occurs w es))) \<and> waiting_ok (fst (occurs w es))"
proof (induction es arbitrary: w)
  case Nil
  then show ?case by simp
next
  case (Cons e es)
  from Cons.prems have o: "in_order w e" and r: "orderly (fst (occur w e)) es" by simp_all
  from occur_invariant [OF Cons.prems(1,2) o]
  have "registry_ok (fst (fst (occur w e)))" "waiting_ok (fst (occur w e))" by simp_all
  from Cons.IH [OF this r] show ?case by (simp only: fst_occurs_Cons)
qed

lemma new_server_invariant:
  "registry_ok (new_server env) \<and> waiting_ok (new_server env, [])"
  by (simp add: registry_ok_def waiting_ok_def new_server_def)

subsection \<open>A socket that has disconnected\<close>

lemma fst_occurs_append: "fst (occurs w (es @ es')) = fst (occurs (fst (occurs w es)) es')"
proof (induction es arbitrary: w)
  case Nil
  show ?case by simp
next
  case (Cons e es)
  show ?case by (simp only: append_Cons fst_occurs_Cons Cons.IH)
qed

lemma orderly_append:
  "orderly w (es @ es') \<longleftrightarrow> orderly w es \<and> orderly (fst (occurs w es)) es'"
proof (induction es arbitrary: w)
  case Nil
  show ?case by simp
next
  case (Cons e es)
  show ?case by (simp only: append_Cons orderly.simps fst_occurs_Cons Cons.IH conj_assoc)
qed

lemma joined_peers:
  "jsmap_get (peers (joined s sid' roomId peerId room)) sid
     = (if sid = sid' then Some (length (peer_objs s)) else jsmap_get (peers s) sid)"
  by (simp add: joined_def jsmap_get_set)

lemma join_peers:
  "sid' \<noteq> sid \<Longrightarrow> jsmap_get (peers s) sid = None \<Longrightarrow>
   jsmap_get (peers (fst (handleJoinRoom s sid' roomId peerId cr))) sid = None"
  by (cases "jsmap_get (rooms s) roomId"; cases cr)
     (simp_all add: handleJoinRoom_existing handleJoinRoom_created handleJoinRoom_failed
        joined_peers)

lemma rest_peers:
  "sid' \<noteq> sid \<Longrightarrow> jsmap_get (peers s) sid = None \<Longrightarrow>
   jsmap_get (peers (fst (join_room_rest s sid' roomId peerId))) sid = None"
  by (simp add: join_room_rest_def jsmap_get_set Let_def split: option.splits)

lemma out_occur:
  assumes "out sid w" and "\<not> joins sid e"
  shows "out sid (fst (occur w e))"
proof -
  obtain s js where w: "w = (s, js)" by (cases w)
  from assms(1) have p: "jsmap_get (peers s) sid = None" and nw: "sid \<notin> set (map fst js)"
    by (simp_all add: out_def w)
  show ?thesis
  proof (cases e)
    case (JoinArrives sid' roomId peerId)
    with assms(2) have ne: "sid' \<noteq> sid" by simp
    show ?thesis
      using p nw ne rest_peers [OF ne p, of roomId peerId]
      by (auto simp: out_def w JoinArrives handleJoinRoom_to_await_def split: prod.splits)
  next
    case (RouterSettles n cr)
    show ?thesis
    proof (cases "n < length js")
      case False
      then show ?thesis using p nw by (simp add: out_def w RouterSettles)
    next
      case True
      obtain sid' roomId peerId where j: "js ! n = (sid', roomId, peerId)" by (cases "js ! n")
      from True have "js ! n \<in> set js" by simp
      with j nw have ne: "sid' \<noteq> sid" by force
      have sub: "set (take n js @ drop (Suc n) js) \<subseteq> set js"
        using set_take_subset [of n js] set_drop_subset [of "Suc n" js] by auto
      have "jsmap_get (peers (fst (handleJoinRoom_from_await s sid' roomId peerId cr))) sid = None"
      proof (cases cr)
        case None
        then show ?thesis using p by (simp add: handleJoinRoom_from_await_def)
      next
        case (Some r)
        have "jsmap_get (peers (s\<lparr>rooms := jsmap_set (rooms s) roomId
                \<lparr>r_router = r, r_peers = [], r_producers = []\<rparr>\<rparr>)) sid = None"
          using p by simp
        from rest_peers [OF ne this] Some show ?thesis
          by (simp add: handleJoinRoom_from_await_def)
      qed
      moreover have "sid \<notin> set (map fst (take n js @ drop (Suc n) js))"
        using nw sub by auto
      moreover have "fst (occur w e)
          = (fst (handleJoinRoom_from_await s sid' roomId peerId cr),
             take n js @ drop (Suc n) js)"
        using True j by (simp add: w RouterSettles split: prod.splits)
      ultimately show ?thesis by (simp only: out_def fst_conv snd_conv) blast
    qed
  next
    case (Runs c)
    have "jsmap_get (peers (fst (dispatch s c))) sid = None"
    proof (cases "\<exists>sid' roomId peerId cr. c = JoinRoom sid' roomId peerId cr")
      case True
      then obtain sid' roomId peerId cr where c: "c = JoinRoom sid' roomId peerId cr" by blast
      with assms(2) Runs have "sid' \<noteq> sid" by simp
      from join_peers [OF this p] show ?thesis by (simp add: c)
    next
      case False
      then have "\<And>sid' roomId peerId cr. c \<noteq> JoinRoom sid' roomId peerId cr" by blast
      from dispatch_keys [OF this, of s sid] p show ?thesis by simp
    qed
    moreover have "fst (occur w e) = (fst (dispatch s c), js)"
      by (simp add: w Runs split: prod.splits)
    ultimately show ?thesis using nw by (simp only: out_def fst_conv snd_conv) blast
  qed
qed

lemma out_occurs:
  "out sid w \<Longrightarrow> \<forall>e \<in> set es. \<not> joins sid e \<Longrightarrow> out sid (fst (occurs w es))"
proof (induction es arbitrary: w)
  case Nil
  then show ?case by simp
next
  case (Cons e es)
  from Cons.prems have "out sid (fst (occur w e))" by (intro out_occur) simp_all
  moreover from Cons.prems have "\<forall>e \<in> set es. \<not> joins sid e" by simp
  ultimately have "out sid (fst (occurs (fst (occur w e)) es))" by (rule Cons.IH)
  then show ?case by (simp only: fst_occurs_Cons)
qed

lemma out_disconnect:
  assumes "in_order w (Runs (Disconnect sid))"
  shows "out sid (fst (occur w (Runs (Disconnect sid))))"
proof -
  obtain s js where w: "w = (s, js)" by (cases w)
  have "jsmap_get (peers (fst (handleDisconnect s sid))) sid = None"
    by (auto simp: handleDisconnect_def get_peer_def Let_def jsmap_get_delete
          split: option.splits prod.splits)
  moreover have "fst (occur w (Runs (Disconnect sid))) = (fst (handleDisconnect s sid), js)"
    by (simp add: w split: prod.splits)
  ultimately show ?thesis using assms by (simp add: out_def w)
qed

lemma disconnected_socket_stays_out:
  assumes "orderly w (es @ Runs (Disconnect sid) # es')"
    and "\<forall>e \<in> set es'. \<not> joins sid e"
  shows "\<not> jsmap_has (peers (fst (fst (occurs w (es @ Runs (Disconnect sid) # es'))))) sid"
proof -
  let ?w = "fst (occurs w es)"
  from assms(1) have "in_order ?w (Runs (Disconnect sid))"
    by (simp add: orderly_append)
  then have "out sid (fst (occur ?w (Runs (Disconnect sid))))" by (rule out_disconnect)
  from out_occurs [OF this assms(2)]
  have "out sid (fst (occurs w (es @ Runs (Disconnect sid) # es')))"
    by (simp only: fst_occurs_append fst_occurs_Cons)
  then show ?thesis by (simp add: out_def jsmap_has_def)
qed

subsection \<open>Rooms and their sockets\<close>

lemma room_sockets_iff:
  "sid \<in> set (room_sockets s roomId) \<longleftrightarrow>
     jsmap_get (peers s) sid \<noteq> None \<and> socket_roomId s sid = Some roomId"
  by (auto simp: room_sockets_def jsmap_keys_get)

lemma distinct_room_sockets: "registry_ok s \<Longrightarrow> distinct (room_sockets s roomId)"
  by (simp add: room_sockets_def registry_ok_def jsmap_keys_def)

lemma room_exists_iff_sockets:
  assumes ok: "registry_ok s"
  shows "room_exists s roomId \<longleftrightarrow> room_sockets s roomId \<noteq> []"
proof
  assume "room_exists s roomId"
  then obtain room where rm: "jsmap_get (rooms s) roomId = Some room"
    by (auto simp: room_exists_def jsmap_has_def)
  with ok have "r_peers room \<noteq> []" unfolding registry_ok_def by blast
  from first_key [OF this] obtain k v where "jsmap_get (r_peers room) k = Some v" by blast
  with ok rm have "jsmap_get (peers s) (peer_socket (peer_objs s ! v)) = Some v"
    "jsmap_get (sockets s) (peer_socket (peer_objs s ! v)) = Some (k, roomId)"
    unfolding registry_ok_def by blast+
  then have "peer_socket (peer_objs s ! v) \<in> set (room_sockets s roomId)"
    by (simp add: room_sockets_iff socket_roomId_def)
  then show "room_sockets s roomId \<noteq> []" by auto
next
  assume "room_sockets s roomId \<noteq> []"
  then obtain sid where "sid \<in> set (room_sockets s roomId)" by (cases "room_sockets s roomId") auto
  then obtain ref where p: "jsmap_get (peers s) sid = Some ref"
    and r: "socket_roomId s sid = Some roomId"
    by (auto simp: room_sockets_iff)
  from ok p obtain rid rm where
    "jsmap_get (sockets s) sid = Some (peer_id (peer_objs s ! ref), rid)"
    "jsmap_get (rooms s) rid = Some rm"
    unfolding registry_ok_def by blast
  with r show "room_exists s roomId"
    by (simp add: socket_roomId_def room_exists_def jsmap_has_def)
qed

lemma length_without:
  "distinct xs \<Longrightarrow> x \<in> set xs \<Longrightarrow> length (filter (\<lambda>y. y \<noteq> x) xs) = length xs - 1"
proof (induction xs)
  case Nil
  then show ?case by simp
next
  case (Cons a xs)
  show ?case
  proof (cases "a = x")
    case True
    with Cons.prems have "x \<notin> set xs" by simp
    then have "filter (\<lambda>y. y \<noteq> x) xs = xs" by (simp add: filter_id_conv) blast
    with True show ?thesis by simp
  next
    case False
    with Cons.prems have m: "x \<in> set xs" and d: "distinct xs" by simp_all
    from m have "0 < length xs" by (rule length_pos_if_in_set)
    with Cons.IH [OF d m] False show ?thesis by simp
  qed
qed

lemma only_member:
  "distinct xs \<Longrightarrow> x \<in> set xs \<Longrightarrow> length xs = 1 \<longleftrightarrow> (\<forall>y \<in> set xs. y = x)"
proof (cases xs)
  case Nil
  then show "x \<in> set xs \<Longrightarrow> ?thesis" by simp
next
  case (Cons a as)
  assume "distinct xs" "x \<in> set xs"
  with Cons show ?thesis by (cases as) auto
qed

lemma disconnect_room_sockets:
  "room_sockets (fst (handleDisconnect s sid)) roomId
     = filter (\<lambda>x. x \<noteq> sid) (room_sockets s roomId)"
proof -
  have "peers (fst (handleDisconnect s sid)) = jsmap_delete (peers s) sid \<or>
        (jsmap_get (peers s) sid = None \<and> fst (handleDisconnect s sid) = s)"
    by (auto simp: handleDisconnect_def get_peer_def Let_def split: option.splits prod.splits)
  moreover have "sockets (fst (handleDisconnect s sid)) = sockets s"
    by (auto simp: handleDisconnect_def Let_def split: option.splits prod.splits)
  moreover have "filter (\<lambda>x. x \<noteq> sid) (room_sockets s roomId) = room_sockets s roomId"
    if "jsmap_get (peers s) sid = None"
    using that by (auto simp: filter_id_conv room_sockets_iff)
  ultimately show ?thesis
    by (auto simp: room_sockets_def socket_roomId_def jsmap_keys_delete conj_commute)
qed

lemma disconnect_of_member:
  assumes ok: "registry_ok s" and mem: "sid \<in> set (room_sockets s roomId)"
  shows "\<exists>room. jsmap_get (rooms s) roomId = Some room \<and>
     peer_count (fst (handleDisconnect s sid)) roomId = peer_count s roomId - 1 \<and>
     (peer_count s roomId = 1 \<longrightarrow>
        \<not> room_exists (fst (handleDisconnect s sid)) roomId \<and>
        filter is_CloseRouter (snd (handleDisconnect s sid))
          = [CloseRouter (router_id (r_router room))]) \<and>
     (peer_count s roomId \<noteq> 1 \<longrightarrow>
        map_option r_router (jsmap_get (rooms (fst (handleDisconnect s sid))) roomId)
          = Some (r_router room) \<and>
        filter is_CloseRouter (snd (handleDisconnect s sid)) = [])"
proof -
  from mem obtain ref where p: "jsmap_get (peers s) sid = Some ref"
    and r: "socket_roomId s sid = Some roomId"
    by (auto simp: room_sockets_iff)
  from ok p obtain rid room where so: "peer_socket (peer_objs s ! ref) = sid"
    and sk0: "jsmap_get (sockets s) sid = Some (peer_id (peer_objs s ! ref), rid)"
    and rm0: "jsmap_get (rooms s) rid = Some room"
    and en0: "jsmap_get (r_peers room) (peer_id (peer_objs s ! ref)) = Some ref"
    unfolding registry_ok_def by blast
  from r sk0 have "rid = roomId" by (simp add: socket_roomId_def)
  with sk0 rm0 en0 have sk: "jsmap_get (sockets s) sid = Some (peer_id (peer_objs s ! ref), roomId)"
    and rm: "jsmap_get (rooms s) roomId = Some room"
    and en: "jsmap_get (r_peers room) (peer_id (peer_objs s ! ref)) = Some ref"
    by simp_all
  let ?pid = "peer_id (peer_objs s ! ref)"
  note hd = handleDisconnect_registered [OF p sk rm]
  have dist: "distinct (room_sockets s roomId)" using ok by (rule distinct_room_sockets)
  have cnt: "peer_count (fst (handleDisconnect s sid)) roomId = peer_count s roomId - 1"
    by (simp only: peer_count_def disconnect_room_sockets length_without [OF dist mem])
  have last: "jsmap_delete (r_peers room) ?pid = []" if one: "peer_count s roomId = 1"
  proof -
    have "fst e = ?pid" if e: "e \<in> set (r_peers room)" for e
    proof -
      obtain k v where kv: "e = (k, v)" by (cases e)
      with e key_of_entry obtain v' where g: "jsmap_get (r_peers room) k = Some v'" by fastforce
      with ok rm have "jsmap_get (peers s) (peer_socket (peer_objs s ! v')) = Some v'"
        "jsmap_get (sockets s) (peer_socket (peer_objs s ! v')) = Some (k, roomId)"
        unfolding registry_ok_def by blast+
      then have m': "peer_socket (peer_objs s ! v') \<in> set (room_sockets s roomId)"
        and sk': "jsmap_get (sockets s) (peer_socket (peer_objs s ! v')) = Some (k, roomId)"
        by (simp_all add: room_sockets_iff socket_roomId_def)
      from one only_member [OF dist mem] m' have "peer_socket (peer_objs s ! v') = sid"
        by (simp add: peer_count_def)
      with sk sk' kv show ?thesis by simp
    qed
    then show ?thesis by (auto simp: jsmap_delete_def filter_empty_conv)
  qed
  have more: "jsmap_delete (r_peers room) ?pid \<noteq> []" if many: "peer_count s roomId \<noteq> 1"
  proof -
    from many only_member [OF dist mem] obtain x where x: "x \<in> set (room_sockets s roomId)"
      and ne: "x \<noteq> sid" by (auto simp: peer_count_def)
    from x obtain r' where p': "jsmap_get (peers s) x = Some r'"
      and rx: "socket_roomId s x = Some roomId" by (auto simp: room_sockets_iff)
    from ok p' obtain rid' room' where so': "peer_socket (peer_objs s ! r') = x"
      and sk': "jsmap_get (sockets s) x = Some (peer_id (peer_objs s ! r'), rid')"
      and rm': "jsmap_get (rooms s) rid' = Some room'"
      and en': "jsmap_get (r_peers room') (peer_id (peer_objs s ! r')) = Some r'"
      unfolding registry_ok_def by blast
    from rx sk' have "rid' = roomId" by (simp add: socket_roomId_def)
    with rm rm' have eq: "room' = room" by simp
    have "peer_id (peer_objs s ! r') \<noteq> ?pid"
    proof
      assume "peer_id (peer_objs s ! r') = ?pid"
      with en en' eq have "r' = ref" by simp
      with so so' ne show False by simp
    qed
    with en' eq have "jsmap_get (jsmap_delete (r_peers room) ?pid) (peer_id (peer_objs s ! r'))
        = Some r'"
      by (simp add: jsmap_get_delete)
    then show ?thesis by auto
  qed
  have one: "\<not> room_exists (fst (handleDisconnect s sid)) roomId \<and>
        filter is_CloseRouter (snd (handleDisconnect s sid))
          = [CloseRouter (router_id (r_router room))]"
    if "peer_count s roomId = 1"
    using last [OF that]
    by (simp add: hd room_exists_def jsmap_has_def jsmap_get_delete closing_of_no_router)
  have many: "map_option r_router (jsmap_get (rooms (fst (handleDisconnect s sid))) roomId)
          = Some (r_router room) \<and>
        filter is_CloseRouter (snd (handleDisconnect s sid)) = []"
    if "peer_count s roomId \<noteq> 1"
    using more [OF that] by (simp add: hd jsmap_get_set closing_of_no_router)
  from rm cnt one many show ?thesis by blast
qed

section \<open>Signalling\<close>

text \<open>
  C10. A disconnect on a socket for which no peer is registered (it never completed a
  join-room) changes nothing: the server, with its rooms and peers maps, is returned as it
  was, and nothing is closed or emitted.
\<close>

theorem disconnect_without_join_is_noop:
  "jsmap_get (peers s) sid = None \<Longrightarrow> handleDisconnect s sid = (s, [])"
  by (simp add: handleDisconnect_def get_peer_def)

theorem disconnect_without_join_is_noop_witness:
  "jsmap_get (peers one_peer) ''sockB'' = None \<and>
   handleDisconnect one_peer ''sockB'' = (one_peer, [])"
proof -
  have h: "jsmap_get (peers one_peer) ''sockB'' = None" by code_simp
  show ?thesis using h disconnect_without_join_is_noop [OF h] by simp
qed

text \<open>
  C5. A consume request that names a producer id which the room of the requesting socket
  does not hold (or whose socket has no peer or no room) fails as not found: the handler
  throws \<open>Transport or producer not found\<close> (\<open>Peer or room not found\<close> when the peer or the
  room is missing), its \<open>catch\<close> logs that error and sends one error event to the requesting
  socket, and nothing else happens: the engine is not asked for a consumer, and the server
  state, with the peer's consumer map, is unchanged.
\<close>

theorem consume_absent_producer_fails:
  "(case get_room s sid of
      None \<Rightarrow> True
    | Some (roomId, room) \<Rightarrow> jsmap_get (r_producers room) producerId = None) \<Longrightarrow>
   handleConsume s sid transportId producerId caps canConsume consume =
     (s, [LogError ''Error creating consumer:''
            (Thrown (if get_peer s sid = None \<or> get_room s sid = None
                     then ''Peer or room not found''
                     else ''Transport or producer not found'')),
          Emit sid (ErrorEvent ''Failed to create consumer'')])"
  by (auto simp: handleConsume_def split: option.splits prod.splits)

theorem consume_absent_producer_fails_witness:
  "get_room one_transport ''sockA'' \<noteq> None \<and>
   get_peer one_transport ''sockA'' \<noteq> None \<and>
   transports_of one_transport ''sockA'' = Some [(''transport-1'', transport1)] \<and>
   handleConsume one_transport ''sockA'' ''transport-1'' ''producer-404'' [''video/H264'']
       True None
     = (one_transport,
        [LogError ''Error creating consumer:'' (Thrown ''Transport or producer not found''),
         Emit ''sockA'' (ErrorEvent ''Failed to create consumer'')])"
proof -
  have h: "(case get_room one_transport ''sockA'' of
              None \<Rightarrow> True
            | Some (roomId, room) \<Rightarrow> jsmap_get (r_producers room) ''producer-404'' = None)"
    by code_simp
  have a: "get_room one_transport ''sockA'' \<noteq> None" by code_simp
  have a': "get_peer one_transport ''sockA'' \<noteq> None" by code_simp
  have b: "transports_of one_transport ''sockA'' = Some [(''transport-1'', transport1)]"
    by code_simp
  show ?thesis using a a' b consume_absent_producer_fails [OF h] by simp
qed

text \<open>
  C1 (as stated, it fails). A join-room on an empty registry is answered with the router
  capabilities only: no existing-producers event is sent, not even one with an empty list.
\<close>

theorem join_empty_registry_sends_no_producer_list:
  "emitted ''sockA''
     (snd (handleJoinRoom (new_server None) ''sockA'' ''security'' ''peer1'' (Some router1)))
     = [RouterRtpCapabilities [''audio/opus'', ''video/VP8'', ''video/H264'']] \<and>
   ExistingProducers [] \<notin> set (emitted ''sockA''
     (snd (handleJoinRoom (new_server None) ''sockA'' ''security'' ''peer1'' (Some router1))))"
  by code_simp

text \<open>
  C1 (amended). A join-room that creates the room (as on an empty registry) is answered
  with the router capabilities alone. A join-room into a room that exists is answered
  with the router capabilities, followed, when the room holds at least one producer, by one
  existing-producers event listing exactly the ids in the room's producer map, in insertion
  order; when the room holds no producer, no existing-producers event is sent.
\<close>

theorem join_response:
  "(jsmap_get (rooms s) roomId = None \<longrightarrow>
      emitted sid (snd (handleJoinRoom s sid roomId peerId (Some r)))
        = [RouterRtpCapabilities (rtpCapabilities r)]) \<and>
   (jsmap_get (rooms s) roomId = Some room \<longrightarrow>
      emitted sid (snd (handleJoinRoom s sid roomId peerId cr))
        = RouterRtpCapabilities (rtpCapabilities (r_router room))
          # (if r_producers room = [] then []
             else [ExistingProducers (jsmap_keys (r_producers room))]))"
  by (simp add: handleJoinRoom_created handleJoinRoom_existing)

theorem join_response_witness:
  "jsmap_get (rooms (new_server None)) ''security'' = None \<and>
   emitted ''sockA''
     (snd (handleJoinRoom (new_server None) ''sockA'' ''security'' ''peer1'' (Some router1)))
     = [RouterRtpCapabilities (rtpCapabilities router1)] \<and>
   map_option r_producers (jsmap_get (rooms one_producer) ''security'')
     = Some [(''producer-1'', producer1)] \<and>
   emitted ''sockB'' (snd (handleJoinRoom one_producer ''sockB'' ''security'' ''peer2'' None))
     = [RouterRtpCapabilities (rtpCapabilities router1), ExistingProducers [''producer-1'']]"
proof -
  obtain room where r: "jsmap_get (rooms one_producer) ''security'' = Some room"
    and p: "r_producers room = [(''producer-1'', producer1)]"
    and c: "r_router room = router1"
    by (simp add: one_producer_def new_server_def handleJoinRoom_def
          handleCreateWebRTCTransport_def handleProduce_def get_peer_def get_room_def
          socket_roomId_def jsmap_has_def Let_def producer1_def transport1_def)
  have e: "jsmap_get (rooms (new_server None)) ''security'' = None"
    by (simp add: new_server_def)
  from join_response [where s = "new_server None" and roomId = "''security''"
      and sid = "''sockA''" and peerId = "''peer1''" and r = router1]
  have a: "emitted ''sockA''
     (snd (handleJoinRoom (new_server None) ''sockA'' ''security'' ''peer1'' (Some router1)))
     = [RouterRtpCapabilities (rtpCapabilities router1)]"
    using e by simp
  from join_response [where s = one_producer and roomId = "''security''" and room = room
      and sid = "''sockB''" and peerId = "''peer2''" and cr = None]
  have b: "emitted ''sockB''
     (snd (handleJoinRoom one_producer ''sockB'' ''security'' ''peer2'' None))
     = [RouterRtpCapabilities (rtpCapabilities router1), ExistingProducers [''producer-1'']]"
    using r p c by (simp add: jsmap_keys_def)
  from e a r p b show ?thesis by simp
qed

section \<open>Joining twice\<close>

lemma map_jsmap_set:
  "map (\<lambda>(k, v). (k, f v)) (jsmap_set m k0 v0)
   = jsmap_set (map (\<lambda>(k, v). (k, f v)) m) k0 (f v0)"
  by (induction m) auto

lemma resolve_peers_set:
  "resolve_peers objs (jsmap_set m k r) = jsmap_set (resolve_peers objs m) k (objs ! r)"
  unfolding resolve_peers_def by (rule map_jsmap_set)

lemma resolve_peers_append:
  "\<forall>e \<in> set m. snd e < length objs \<Longrightarrow>
   resolve_peers (objs @ extra) m = resolve_peers objs m"
  unfolding resolve_peers_def by (induction m) (auto simp: nth_append)

lemma room_view_append:
  "\<forall>e \<in> set (r_peers room). snd e < length objs \<Longrightarrow>
   room_view (objs @ extra) room = room_view objs room"
  by (simp add: room_view_def resolve_peers_append)

lemma rooms_view_append:
  "\<forall>e \<in> set m. \<forall>e' \<in> set (r_peers (snd e)). snd e' < length objs \<Longrightarrow>
   map (\<lambda>(roomId, room). (roomId, room_view (objs @ extra) room)) m
   = map (\<lambda>(roomId, room). (roomId, room_view objs room)) m"
  by (induction m) (auto simp: room_view_append)

lemma room_view_r_peers:
  "room_view objs (room\<lparr>r_peers := m\<rparr>)
   = (r_router room, resolve_peers objs m, r_producers room)"
  by (simp add: room_view_def)

lemma registry_view_joined:
  assumes "refs_valid s" and "\<forall>e' \<in> set (r_peers room). snd e' < length (peer_objs s)"
  shows "registry_view (joined s sid roomId peerId room) =
    (jsmap_set (map (\<lambda>(roomId, room). (roomId, room_view (peer_objs s) room)) (rooms s))
        roomId
        (r_router room,
         jsmap_set (resolve_peers (peer_objs s) (r_peers room)) peerId (fresh_peer sid peerId),
         r_producers room),
     jsmap_set (resolve_peers (peer_objs s) (peers s)) sid (fresh_peer sid peerId),
     jsmap_set (sockets s) sid (peerId, roomId))"
  using assms
  by (simp add: registry_view_def joined_def map_jsmap_set resolve_peers_set
        rooms_view_append resolve_peers_append refs_valid_def room_view_r_peers fresh_peer_def)

lemma refs_valid_joined:
  assumes "refs_valid s" and "\<forall>e' \<in> set (r_peers room). snd e' < length (peer_objs s)"
  shows "refs_valid (joined s sid roomId peerId room)"
  using assms unfolding refs_valid_def joined_def
  by (auto dest!: set_jsmap_set simp: less_Suc_eq)

lemma room_refs_valid:
  "refs_valid s \<Longrightarrow> jsmap_get (rooms s) roomId = Some room \<Longrightarrow>
   \<forall>e' \<in> set (r_peers room). snd e' < length (peer_objs s)"
  by (fastforce simp: refs_valid_def dest!: jsmap_get_in_set)

lemma joined_twice:
  assumes "refs_valid s" and "\<forall>e' \<in> set (r_peers room). snd e' < length (peer_objs s)"
  shows "registry_view (joined (joined s sid roomId peerId room) sid roomId peerId
            (room\<lparr>r_peers := jsmap_set (r_peers room) peerId (length (peer_objs s))\<rparr>))
         = registry_view (joined s sid roomId peerId room)"
proof -
  let ?s1 = "joined s sid roomId peerId room"
  let ?room1 = "room\<lparr>r_peers := jsmap_set (r_peers room) peerId (length (peer_objs s))\<rparr>"
  have v1: "refs_valid ?s1" using assms by (rule refs_valid_joined)
  have "jsmap_get (rooms ?s1) roomId = Some ?room1" by (simp add: joined_def jsmap_get_set)
  with v1 have r1: "\<forall>e' \<in> set (r_peers ?room1). snd e' < length (peer_objs ?s1)"
    by (rule room_refs_valid)
  show ?thesis
    unfolding registry_view_joined [OF v1 r1]
    unfolding registry_view_joined [OF assms]
    using assms
    by (simp add: jsmap_set_set map_jsmap_set resolve_peers_set resolve_peers_append
          rooms_view_append room_view_r_peers joined_def fresh_peer_def nth_append
          refs_valid_def)
qed

lemma on_bridge_registry:
  "rooms (fst (on_bridge s r)) = rooms s \<and> peers (fst (on_bridge s r)) = peers s \<and>
   peer_objs (fst (on_bridge s r)) = peer_objs s \<and> sockets (fst (on_bridge s r)) = sockets s"
  by (simp add: on_bridge_def split: prod.splits)

lemma join_refs_valid:
  assumes "refs_valid s"
  shows "refs_valid (fst (handleJoinRoom s sid roomId peerId cr))"
proof (cases "jsmap_get (rooms s) roomId")
  case None
  then show ?thesis
    using assms
    by (cases cr)
       (simp_all add: handleJoinRoom_created handleJoinRoom_failed refs_valid_joined)
next
  case (Some room)
  then show ?thesis
    using assms room_refs_valid [OF assms Some]
    by (simp add: handleJoinRoom_existing refs_valid_joined)
qed

lemma disconnect_refs_valid:
  "refs_valid s \<Longrightarrow> refs_valid (fst (handleDisconnect s sid))"
  unfolding refs_valid_def handleDisconnect_def Let_def get_room_def
  by (fastforce split: option.splits prod.splits
        dest!: set_jsmap_set set_jsmap_delete jsmap_get_in_set)

lemma produce_refs_valid:
  "refs_valid s \<Longrightarrow> refs_valid (fst (handleProduce s sid t k rp pr))"
  unfolding refs_valid_def handleProduce_def Let_def get_room_def
  by (fastforce split: option.splits prod.splits dest!: set_jsmap_set jsmap_get_in_set)

lemma dispatch_refs_valid:
  assumes "refs_valid s"
  shows "refs_valid (fst (dispatch s c))"
proof (cases c)
  case (JoinRoom sid roomId peerId cr)
  then show ?thesis using join_refs_valid [OF assms] by simp
next
  case (Disconnect sid)
  then show ?thesis using disconnect_refs_valid [OF assms] by simp
next
  case (Produce sid t k rp pr)
  then show ?thesis using produce_refs_valid [OF assms] by simp
qed (use assms in \<open>auto simp: refs_valid_def on_bridge_registry
       handleCreateWebRTCTransport_def handleConnectTransport_def handleConsume_def
       handleResumeConsumer_def split: option.splits prod.splits\<close>)

lemma run_refs_valid: "refs_valid s \<Longrightarrow> refs_valid (fst (run s cs))"
proof (induction cs arbitrary: s)
  case Nil
  then show ?case by simp
next
  case (Cons c cs)
  from Cons.prems have "refs_valid (fst (dispatch s c))" by (rule dispatch_refs_valid)
  then have "refs_valid (fst (run (fst (dispatch s c)) cs))" by (rule Cons.IH)
  then show ?case by (simp only: fst_run_Cons)
qed

lemma new_server_refs_valid: "refs_valid (new_server env)"
  by (simp add: refs_valid_def new_server_def)

text \<open>
  C6 (as stated, it fails). A join-room by a socket whose peer has already joined does not
  preserve the peer's transports: the peer that created \<open>transport-1\<close> has an empty
  transport map after joining again with the same room id and peer id, and the registry is
  not the one the first join and the transport creation left.
\<close>

theorem rejoin_drops_transports:
  "transports_of one_transport ''sockA'' = Some [(''transport-1'', transport1)] \<and>
   transports_of (fst (handleJoinRoom one_transport ''sockA'' ''security'' ''peer1'' None))
     ''sockA'' = Some [] \<and>
   registry_view (fst (handleJoinRoom one_transport ''sockA'' ''security'' ''peer1'' None))
     \<noteq> registry_view one_transport"
  by code_simp

text \<open>
  C6 (amended). After any sequence of commands, a join-room that succeeds (the room exists
  or its router can be created), performed twice in a row on the same socket with the same
  room id and peer id, leaves the registry as performing it once does: the same rooms with
  the same routers, peer ids, peer records and producers, the same peers map and the same
  socket fields. It does not preserve what the peer held before: every successful join
  registers for the socket a new peer record whose transport, producer and consumer maps
  are empty.
\<close>

theorem join_twice_same_as_once:
  assumes "run (new_server env) cmds = (s, acts)"
    and "jsmap_has (rooms s) roomId \<or> cr \<noteq> None"
  shows "registry_view (fst (handleJoinRoom (fst (handleJoinRoom s sid roomId peerId cr))
                               sid roomId peerId cr'))
         = registry_view (fst (handleJoinRoom s sid roomId peerId cr)) \<and>
         map_option snd (get_peer (fst (handleJoinRoom s sid roomId peerId cr)) sid)
         = Some (fresh_peer sid peerId)"
proof -
  have v: "refs_valid s"
    using run_refs_valid [OF new_server_refs_valid, of env cmds] assms(1) by simp
  obtain room where j: "fst (handleJoinRoom s sid roomId peerId cr) = joined s sid roomId peerId room"
    and rv: "\<forall>e' \<in> set (r_peers room). snd e' < length (peer_objs s)"
  proof (cases "jsmap_get (rooms s) roomId")
    case None
    with assms(2) obtain r where "cr = Some r" by (auto simp: jsmap_has_def)
    with None that [of "\<lparr>r_router = r, r_peers = [], r_producers = []\<rparr>"] show ?thesis
      by (simp add: handleJoinRoom_created)
  next
    case (Some room)
    with that [of room] room_refs_valid [OF v Some] show ?thesis
      by (simp add: handleJoinRoom_existing)
  qed
  let ?room1 = "room\<lparr>r_peers := jsmap_set (r_peers room) peerId (length (peer_objs s))\<rparr>"
  have g: "jsmap_get (rooms (joined s sid roomId peerId room)) roomId = Some ?room1"
    by (simp add: joined_def jsmap_get_set)
  have a: "registry_view (fst (handleJoinRoom (fst (handleJoinRoom s sid roomId peerId cr))
                               sid roomId peerId cr'))
         = registry_view (fst (handleJoinRoom s sid roomId peerId cr))"
    unfolding j by (simp add: handleJoinRoom_existing [OF g] joined_twice [OF v rv])
  have b: "map_option snd (get_peer (fst (handleJoinRoom s sid roomId peerId cr)) sid)
         = Some (fresh_peer sid peerId)"
    unfolding j by (simp add: get_peer_def joined_def jsmap_get_set fresh_peer_def)
  from a b show ?thesis by simp
qed

theorem join_twice_same_as_once_witness:
  "run (new_server None)
     [JoinRoom ''sockA'' ''security'' ''peer1'' (Some router1),
      CreateWebRTCTransport ''sockA'' ''recv'' (Some transport1)]
     = (one_transport,
        snd (run (new_server None)
          [JoinRoom ''sockA'' ''security'' ''peer1'' (Some router1),
           CreateWebRTCTransport ''sockA'' ''recv'' (Some transport1)])) \<and>
   jsmap_has (rooms one_transport) ''security'' \<and>
   registry_view
     (fst (handleJoinRoom (fst (handleJoinRoom one_transport ''sockA'' ''security'' ''peer1'' None))
             ''sockA'' ''security'' ''peer1'' None))
     = registry_view (fst (handleJoinRoom one_transport ''sockA'' ''security'' ''peer1'' None)) \<and>
   map_option snd
     (get_peer (fst (handleJoinRoom one_transport ''sockA'' ''security'' ''peer1'' None)) ''sockA'')
     = Some (fresh_peer ''sockA'' ''peer1'')"
proof -
  have r: "run (new_server None)
     [JoinRoom ''sockA'' ''security'' ''peer1'' (Some router1),
      CreateWebRTCTransport ''sockA'' ''recv'' (Some transport1)]
     = (one_transport,
        snd (run (new_server None)
          [JoinRoom ''sockA'' ''security'' ''peer1'' (Some router1),
           CreateWebRTCTransport ''sockA'' ''recv'' (Some transport1)]))"
    by (simp add: one_transport_def)
  have h: "jsmap_has (rooms one_transport) ''security''" by code_simp
  from h have h': "jsmap_has (rooms one_transport) ''security'' \<or> None \<noteq> (None :: router option)"
    by simp
  from r h join_twice_same_as_once [OF r h', of "''sockA''" "''peer1''" None]
  show ?thesis by simp
qed

section \<open>One retry timer for a camera\<close>

lemma jsmap_set_same: "jsmap_get m k = Some v \<Longrightarrow> jsmap_set m k v = m"
  by (induction m) (auto split: if_splits)

lemma recorded_timer_set:
  "recorded_timer (jsmap_set rs cam st) c
   = (if c = cam then retryTimer st else recorded_timer rs c)"
  by (simp add: recorded_timer_def jsmap_get_set)

lemma timers_ok_set_same:
  "timers_ok tm nt rs \<Longrightarrow> retryTimer st = recorded_timer rs cam \<Longrightarrow>
   timers_ok tm nt (jsmap_set rs cam st)"
  by (auto simp: timers_ok_def recorded_timer_set)

lemma timers_ok_cancel_some:
  "timers_ok tm nt rs \<Longrightarrow> recorded_timer rs cam = Some old \<Longrightarrow> retryTimer st = None \<Longrightarrow>
   timers_ok (jsmap_delete tm old) nt (jsmap_set rs cam st)"
  by (fastforce simp: timers_ok_def recorded_timer_set set_jsmap_delete_iff
        distinct_jsmap_delete)

lemma timers_ok_schedule_none:
  "timers_ok tm nt rs \<Longrightarrow> recorded_timer rs cam = None \<Longrightarrow> retryTimer st = Some nt \<Longrightarrow>
   timers_ok (jsmap_set tm nt (cam, url)) (Suc nt) (jsmap_set rs cam st)"
  by (fastforce simp: timers_ok_def recorded_timer_set distinct_jsmap_set less_Suc_eq
        dest!: set_jsmap_set)

lemma timers_ok_schedule_some:
  "timers_ok tm nt rs \<Longrightarrow> recorded_timer rs cam = Some old \<Longrightarrow> retryTimer st = Some nt \<Longrightarrow>
   timers_ok (jsmap_set (jsmap_delete tm old) nt (cam, url)) (Suc nt) (jsmap_set rs cam st)"
  by (fastforce simp: timers_ok_def recorded_timer_set distinct_jsmap_set
        distinct_jsmap_delete less_Suc_eq set_jsmap_delete_iff dest!: set_jsmap_set)

lemma timers_ok_schedule:
  "timers_ok tm nt rs \<Longrightarrow> recorded_timer rs cam = ot \<Longrightarrow> retryTimer st = Some nt \<Longrightarrow>
   timers_ok
     (jsmap_set (case ot of None \<Rightarrow> tm | Some old \<Rightarrow> jsmap_delete tm old) nt (cam, url))
     (Suc nt) (jsmap_set rs cam st)"
  by (cases ot) (simp_all add: timers_ok_schedule_none timers_ok_schedule_some)

lemma timers_ok_cancel:
  "timers_ok tm nt rs \<Longrightarrow> recorded_timer rs cam = ot \<Longrightarrow> retryTimer st = None \<Longrightarrow>
   timers_ok (case ot of None \<Rightarrow> tm | Some old \<Rightarrow> jsmap_delete tm old) nt
     (jsmap_set rs cam st)"
  by (cases ot) (simp_all add: timers_ok_cancel_some timers_ok_set_same)

text \<open>
  Every operation of the bridge leaves the camera's timer alone, replaces it by a new one
  or cancels it, and so keeps the timers tracked.
\<close>

lemma startRTSPStream_timers_tracked:
  assumes "timers_tracked b0"
  shows "timers_tracked (fst (startRTSPStream b0 url cam env))"
proof -
  define b where "b = (if jsmap_has (routers b0) cam then b0
               else b0\<lparr>routers := jsmap_set (routers b0) cam empty_cam_state\<rparr>)"
  define st where
    "st = (case jsmap_get (routers b) cam of None \<Rightarrow> empty_cam_state | Some st \<Rightarrow> st)"
  have tb: "timers_ok (timers b) (next_timer b) (routers b)"
    using assms unfolding b_def timers_tracked_def
    by (auto simp: jsmap_has_def recorded_timer_def empty_cam_state_def
          intro!: timers_ok_set_same)
  have g: "jsmap_get (routers b) cam = Some st"
    unfolding st_def b_def by (auto simp: jsmap_has_def jsmap_get_set)
  then have rt: "recorded_timer (routers b) cam = retryTimer st"
    by (simp add: recorded_timer_def)
  have same: "timers_ok (timers b) (next_timer b) (jsmap_set (routers b) cam st')"
    if "retryTimer st' = retryTimer st" for st'
    using that timers_ok_set_same [OF tb, of st' cam] rt by simp
  have sched_none:
    "timers_ok (jsmap_set (timers b) (next_timer b) (cam, url)) (Suc (next_timer b))
       (jsmap_set (routers b) cam st')"
    if "retryTimer st = None" "retryTimer st' = Some (next_timer b)" for st'
    using timers_ok_schedule [OF tb rt that(2)] that(1) by simp
  have sched_some:
    "timers_ok (jsmap_set (jsmap_delete (timers b) old) (next_timer b) (cam, url))
       (Suc (next_timer b)) (jsmap_set (routers b) cam st')"
    if "retryTimer st = Some old" "retryTimer st' = Some (next_timer b)" for st' old
    using timers_ok_schedule [OF tb rt that(2)] that(1) by simp
  show ?thesis
    unfolding startRTSPStream_def b_def [symmetric] Let_def st_def [symmetric]
    using tb
    by (auto simp: startFFmpegProcess_def schedule_retry_def Let_def timers_tracked_def
          jsmap_set_set same sched_none sched_some split: option.splits prod.splits)
qed

lemma retryTick_timers_tracked:
  assumes "timers_tracked b"
  shows "timers_tracked (fst (retryTick b url cam ok env))"
proof (cases "isRunning b \<and> ok")
  case False
  then show ?thesis using assms by (auto simp: retryTick_def)
next
  case True
  show ?thesis
  proof (cases "jsmap_get (routers b) cam")
    case None
    with True show ?thesis
      using startRTSPStream_timers_tracked [OF assms] by (simp add: retryTick_def)
  next
    case (Some st)
    let ?b1 = "b\<lparr>timers := (case retryTimer st of None \<Rightarrow> timers b
                                       | Some t \<Rightarrow> jsmap_delete (timers b) t),
                  routers := jsmap_set (routers b) cam (st\<lparr>retryTimer := None\<rparr>)\<rparr>"
    have "recorded_timer (routers b) cam = retryTimer st"
      using Some by (simp add: recorded_timer_def)
    then have "timers_tracked ?b1"
      using assms timers_ok_cancel [of "timers b" "next_timer b" "routers b" cam
          "retryTimer st" "st\<lparr>retryTimer := None\<rparr>"]
      by (simp add: timers_tracked_def)
    then have "timers_tracked (fst (startRTSPStream ?b1 url cam env))"
      by (rule startRTSPStream_timers_tracked)
    moreover have "fst (retryTick b url cam ok env) = fst (startRTSPStream ?b1 url cam env)"
      using True Some by (simp add: retryTick_def split: prod.splits)
    ultimately show ?thesis by simp
  qed
qed

lemma onFFmpegClose_timers_tracked:
  assumes "timers_tracked b0"
  shows "timers_tracked (fst (onFFmpegClose b0 url cam))"
proof -
  define st where
    "st = (case jsmap_get (routers b0) cam of None \<Rightarrow> empty_cam_state | Some st \<Rightarrow> st)"
  have tb: "timers_ok (timers b0) (next_timer b0) (routers b0)"
    using assms by (simp add: timers_tracked_def)
  have rt: "recorded_timer (routers b0) cam = retryTimer st"
    unfolding st_def by (simp add: recorded_timer_def empty_cam_state_def split: option.splits)
  have same: "timers_ok (timers b0) (next_timer b0) (jsmap_set (routers b0) cam st')"
    if "retryTimer st' = retryTimer st" for st'
    using that timers_ok_set_same [OF tb, of st' cam] rt by simp
  have sched_none:
    "timers_ok (jsmap_set (timers b0) (next_timer b0) (cam, url)) (Suc (next_timer b0))
       (jsmap_set (routers b0) cam st')"
    if "retryTimer st = None" "retryTimer st' = Some (next_timer b0)" for st'
    using timers_ok_schedule [OF tb rt that(2)] that(1) by simp
  have sched_some:
    "timers_ok (jsmap_set (jsmap_delete (timers b0) old) (next_timer b0) (cam, url))
       (Suc (next_timer b0)) (jsmap_set (routers b0) cam st')"
    if "retryTimer st = Some old" "retryTimer st' = Some (next_timer b0)" for st' old
    using timers_ok_schedule [OF tb rt that(2)] that(1) by simp
  show ?thesis
    unfolding onFFmpegClose_def Let_def
    using tb
    by (auto simp: schedule_retry_def Let_def timers_tracked_def st_def [symmetric]
          same sched_none sched_some split: option.splits prod.splits)
qed

lemma stop_timers_tracked: "timers_tracked b \<Longrightarrow> timers_tracked (fst (stop b))"
  by (simp add: stop_def timers_tracked_def)

lemma fst_start_cameras_Cons:
  "fst (start_cameras b (url # urls) i envs)
   = fst (start_cameras (fst (startRTSPStream b (trim url) (cameraId i) (envs i)))
            urls (Suc i) envs)"
  by (simp split: prod.splits)

lemma start_cameras_timers_tracked:
  "timers_tracked b \<Longrightarrow> timers_tracked (fst (start_cameras b urls i envs))"
proof (induction urls arbitrary: b i)
  case Nil
  then show ?case by simp
next
  case (Cons url urls)
  have "timers_tracked (fst (startRTSPStream b (trim url) (cameraId i) (envs i)))"
    using Cons.prems by (rule startRTSPStream_timers_tracked)
  then have "timers_tracked (fst (start_cameras
      (fst (startRTSPStream b (trim url) (cameraId i) (envs i))) urls (Suc i) envs))"
    by (rule Cons.IH)
  then show ?case by (simp only: fst_start_cameras_Cons)
qed

lemma start_timers_tracked:
  assumes "timers_tracked b"
  shows "timers_tracked (case fst (start b cr envs) of Inl b' \<Rightarrow> b' | Inr b' \<Rightarrow> b')"
proof (cases "isRunning b")
  case True
  then show ?thesis using assms by (simp add: start_def)
next
  case False
  show ?thesis
  proof (cases cr)
    case None
    with False assms show ?thesis by (simp add: start_def timers_tracked_def)
  next
    case (Some r)
    have "timers_tracked (b\<lparr>isRunning := True, mainRouter := Some r\<rparr>)"
      using assms by (simp add: timers_tracked_def)
    then have "timers_tracked (fst (start_cameras (b\<lparr>isRunning := True, mainRouter := Some r\<rparr>)
                 (take 6 (rtspUrls b)) 0 envs))"
      by (rule start_cameras_timers_tracked)
    with False Some show ?thesis by (auto simp: start_def split: prod.splits)
  qed
qed

lemma handlers_keep_bridge:
  "rtspBridge (fst (handleJoinRoom s sid roomId peerId cr)) = rtspBridge s"
  "rtspBridge (fst (handleCreateWebRTCTransport s sid direction ct)) = rtspBridge s"
  "rtspBridge (fst (handleConnectTransport s sid transportId dtls ok)) = rtspBridge s"
  "rtspBridge (fst (handleProduce s sid transportId knd rtp pr)) = rtspBridge s"
  "rtspBridge (fst (handleConsume s sid transportId producerId caps can c)) = rtspBridge s"
  "rtspBridge (fst (handleResumeConsumer s sid consumerId ok)) = rtspBridge s"
  "rtspBridge (fst (handleDisconnect s sid)) = rtspBridge s"
  by (auto simp: handleJoinRoom_def handleCreateWebRTCTransport_def handleConnectTransport_def
        handleProduce_def handleConsume_def handleResumeConsumer_def handleDisconnect_def
        Let_def split: option.splits prod.splits)

lemma on_bridge_bridge: "rtspBridge (fst (on_bridge s r)) = fst r"
  by (simp add: on_bridge_def split: prod.splits)

lemma dispatch_timers_tracked:
  assumes "timers_tracked (rtspBridge s)"
  shows "timers_tracked (rtspBridge (fst (dispatch s c)))"
proof (cases c)
  case (BridgeStart cr envs)
  then show ?thesis
    using start_timers_tracked [OF assms, of cr envs]
    by (auto simp: on_bridge_bridge split: prod.splits sum.splits)
qed (use assms in \<open>simp_all add: handlers_keep_bridge on_bridge_bridge
       startRTSPStream_timers_tracked retryTick_timers_tracked onFFmpegClose_timers_tracked
       stop_timers_tracked\<close>)

lemma run_timers_tracked:
  "timers_tracked (rtspBridge s) \<Longrightarrow> timers_tracked (rtspBridge (fst (run s cs)))"
proof (induction cs arbitrary: s)
  case Nil
  then show ?case by simp
next
  case (Cons c cs)
  from Cons.prems have "timers_tracked (rtspBridge (fst (dispatch s c)))"
    by (rule dispatch_timers_tracked)
  then have "timers_tracked (rtspBridge (fst (run (fst (dispatch s c)) cs)))"
    by (rule Cons.IH)
  then show ?case by (simp only: fst_run_Cons)
qed

lemma new_server_timers_tracked: "timers_tracked (rtspBridge (new_server env))"
  by (simp add: new_server_def new_bridge_def timers_tracked_def timers_ok_def
        recorded_timer_def)

section \<open>The producers of a camera\<close>

lemma recorded_video_set:
  "recorded_video (jsmap_set rs cam st) c
   = (if c = cam then videoProducer st else recorded_video rs c)"
  by (simp add: recorded_video_def jsmap_get_set)

lemma recorded_audio_set:
  "recorded_audio (jsmap_set rs cam st) c
   = (if c = cam then audioProducer st else recorded_audio rs c)"
  by (simp add: recorded_audio_def jsmap_get_set)

lemma video_key_not_audio_key: "c @ ''_video'' \<noteq> c' @ ''_audio''"
  by simp

lemma jsmap_has_set: "jsmap_has (jsmap_set m k v) k' = (k' = k \<or> jsmap_has m k')"
  by (simp add: jsmap_has_def jsmap_get_set)

lemma jsmap_has_delete: "jsmap_has (jsmap_delete m k) k' = (k' \<noteq> k \<and> jsmap_has m k')"
  by (simp add: jsmap_has_def jsmap_get_delete)

lemma producers_ok_set_same:
  "producers_ok pm rs \<Longrightarrow> videoProducer st = recorded_video rs cam \<Longrightarrow>
   audioProducer st = recorded_audio rs cam \<Longrightarrow> producers_ok pm (jsmap_set rs cam st)"
  by (auto simp: producers_ok_def recorded_video_set recorded_audio_set)

lemma producers_ok_produce:
  "producers_ok pm rs \<Longrightarrow> videoProducer st = Some vp \<Longrightarrow> audioProducer st = Some ap \<Longrightarrow>
   producers_ok (jsmap_set (jsmap_set pm (cam @ ''_video'') vp) (cam @ ''_audio'') ap)
     (jsmap_set rs cam st)"
  using video_key_not_audio_key
  by (auto simp: producers_ok_def recorded_video_set recorded_audio_set jsmap_has_set)

lemma producers_ok_close:
  assumes "producers_ok pm rs" and "videoProducer st = None" and "audioProducer st = None"
  shows "producers_ok
     (case recorded_audio rs cam of
        None \<Rightarrow> (case recorded_video rs cam of None \<Rightarrow> pm
                 | Some vp \<Rightarrow> jsmap_delete pm (cam @ ''_video''))
      | Some ap \<Rightarrow> jsmap_delete (case recorded_video rs cam of None \<Rightarrow> pm
                                 | Some vp \<Rightarrow> jsmap_delete pm (cam @ ''_video''))
                    (cam @ ''_audio''))
     (jsmap_set rs cam st)"
  using assms video_key_not_audio_key
  by (auto simp: producers_ok_def recorded_video_set recorded_audio_set jsmap_has_delete
        split: option.splits)

lemma startRTSPStream_producers_tracked:
  assumes "producers_tracked b0"
  shows "producers_tracked (fst (startRTSPStream b0 url cam env))"
proof -
  define b where "b = (if jsmap_has (routers b0) cam then b0
               else b0\<lparr>routers := jsmap_set (routers b0) cam empty_cam_state\<rparr>)"
  define st where
    "st = (case jsmap_get (routers b) cam of None \<Rightarrow> empty_cam_state | Some st \<Rightarrow> st)"
  have pb: "producers_ok (b_producers b) (routers b)"
    using assms unfolding b_def producers_tracked_def
    by (auto simp: jsmap_has_def recorded_video_def recorded_audio_def empty_cam_state_def
          intro!: producers_ok_set_same)
  have g: "jsmap_get (routers b) cam = Some st"
    unfolding st_def b_def by (auto simp: jsmap_has_def jsmap_get_set)
  then have rv: "recorded_video (routers b) cam = videoProducer st"
    and ra: "recorded_audio (routers b) cam = audioProducer st"
    by (simp_all add: recorded_video_def recorded_audio_def)
  have same: "producers_ok (b_producers b) (jsmap_set (routers b) cam st')"
    if "videoProducer st' = videoProducer st" "audioProducer st' = audioProducer st" for st'
    using that producers_ok_set_same [OF pb, of st' cam] rv ra by simp
  have prod: "producers_ok
       (jsmap_set (jsmap_set (b_producers b) (cam @ ''_video'') vp) (cam @ ''_audio'') ap)
       (jsmap_set (routers b) cam st')"
    if "videoProducer st' = Some vp" "audioProducer st' = Some ap" for st' vp ap
    using producers_ok_produce [OF pb that] .
  show ?thesis
    unfolding startRTSPStream_def b_def [symmetric] Let_def st_def [symmetric]
    using pb
    by (auto simp: startFFmpegProcess_def schedule_retry_def Let_def producers_tracked_def
          jsmap_set_set same prod split: option.splits prod.splits)
qed

lemma retryTick_producers_tracked:
  assumes "producers_tracked b"
  shows "producers_tracked (fst (retryTick b url cam ok env))"
proof (cases "isRunning b \<and> ok")
  case False
  then show ?thesis using assms by (auto simp: retryTick_def)
next
  case True
  show ?thesis
  proof (cases "jsmap_get (routers b) cam")
    case None
    with True show ?thesis
      using startRTSPStream_producers_tracked [OF assms] by (simp add: retryTick_def)
  next
    case (Some st)
    let ?b1 = "b\<lparr>timers := (case retryTimer st of None \<Rightarrow> timers b
                                       | Some t \<Rightarrow> jsmap_delete (timers b) t),
                  routers := jsmap_set (routers b) cam (st\<lparr>retryTimer := None\<rparr>)\<rparr>"
    have "producers_tracked ?b1"
      using assms Some
        producers_ok_set_same [of "b_producers b" "routers b" "st\<lparr>retryTimer := None\<rparr>" cam]
      by (simp add: producers_tracked_def recorded_video_def recorded_audio_def)
    then have "producers_tracked (fst (startRTSPStream ?b1 url cam env))"
      by (rule startRTSPStream_producers_tracked)
    moreover have "fst (retryTick b url cam ok env) = fst (startRTSPStream ?b1 url cam env)"
      using True Some by (simp add: retryTick_def split: prod.splits)
    ultimately show ?thesis by simp
  qed
qed

text \<open>What the \<open>close\<close> handler leaves of the camera's producers and transports.\<close>

lemma onFFmpegClose_running:
  assumes "isRunning b"
  shows "onFFmpegClose b url cam =
    (let st = (case jsmap_get (routers b) cam of None \<Rightarrow> empty_cam_state | Some st \<Rightarrow> st);
         rt = recorded_timer (routers b) cam
     in (b\<lparr>ffmpegProcesses := jsmap_delete (ffmpegProcesses b) cam,
           b_producers :=
             (case recorded_audio (routers b) cam of
                None \<Rightarrow> (case recorded_video (routers b) cam of None \<Rightarrow> b_producers b
                         | Some vp \<Rightarrow> jsmap_delete (b_producers b) (cam @ ''_video''))
              | Some ap \<Rightarrow>
                  jsmap_delete (case recorded_video (routers b) cam of None \<Rightarrow> b_producers b
                                | Some vp \<Rightarrow> jsmap_delete (b_producers b) (cam @ ''_video''))
                    (cam @ ''_audio'')),
           timers := jsmap_set (case rt of None \<Rightarrow> timers b
                                | Some old \<Rightarrow> jsmap_delete (timers b) old)
                       (next_timer b) (cam, url),
           next_timer := Suc (next_timer b),
           routers := jsmap_set (routers b) cam
             (st\<lparr>videoProducer := None, audioProducer := None, videoTransport := None,
                 audioTransport := None, retryTimer := Some (next_timer b)\<rparr>)\<rparr>,
         (case videoProducer st of None \<Rightarrow> [] | Some vp \<Rightarrow> [CloseProducer (producer_id vp)])
         @ (case audioProducer st of None \<Rightarrow> [] | Some ap \<Rightarrow> [CloseProducer (producer_id ap)])
         @ (case videoTransport st of None \<Rightarrow> []
            | Some vt \<Rightarrow> [CloseTransport (plain_transport_id vt)])
         @ (case audioTransport st of None \<Rightarrow> []
            | Some at \<Rightarrow> [CloseTransport (plain_transport_id at)])
         @ (case rt of None \<Rightarrow> [] | Some old \<Rightarrow> [ClearInterval old])
         @ [SetInterval (next_timer b) cam url]))"
  using assms
  by (auto simp: onFFmpegClose_def schedule_retry_def Let_def recorded_timer_def
        recorded_video_def recorded_audio_def empty_cam_state_def split: option.splits)

lemma onFFmpegClose_producers_tracked:
  assumes "producers_tracked b"
  shows "producers_tracked (fst (onFFmpegClose b url cam))"
proof (cases "isRunning b")
  case True
  show ?thesis
    using assms
    by (simp add: onFFmpegClose_running [OF True] Let_def producers_tracked_def
          producers_ok_close)
next
  case False
  show ?thesis
  proof (cases "jsmap_get (routers b) cam")
    case None
    with False assms show ?thesis
      by (simp add: onFFmpegClose_def Let_def jsmap_has_def empty_cam_state_def
            producers_tracked_def)
  next
    case (Some st)
    have "producers_ok
       (case recorded_audio (routers b) cam of
          None \<Rightarrow> (case recorded_video (routers b) cam of None \<Rightarrow> b_producers b
                   | Some vp \<Rightarrow> jsmap_delete (b_producers b) (cam @ ''_video''))
        | Some ap \<Rightarrow>
            jsmap_delete (case recorded_video (routers b) cam of None \<Rightarrow> b_producers b
                          | Some vp \<Rightarrow> jsmap_delete (b_producers b) (cam @ ''_video''))
              (cam @ ''_audio''))
       (jsmap_set (routers b) cam
          (st\<lparr>videoProducer := None, audioProducer := None, videoTransport := None,
              audioTransport := None\<rparr>))"
      using assms by (intro producers_ok_close) (simp_all add: producers_tracked_def)
    with False Some show ?thesis
      by (simp add: onFFmpegClose_def Let_def jsmap_has_def producers_tracked_def
            recorded_video_def recorded_audio_def split: option.splits)
  qed
qed

lemma stop_producers_tracked: "producers_tracked (fst (stop b))"
  by (simp add: stop_def producers_tracked_def producers_ok_def jsmap_has_def)

lemma start_cameras_producers_tracked:
  "producers_tracked b \<Longrightarrow> producers_tracked (fst (start_cameras b urls i envs))"
proof (induction urls arbitrary: b i)
  case Nil
  then show ?case by simp
next
  case (Cons url urls)
  have "producers_tracked (fst (startRTSPStream b (trim url) (cameraId i) (envs i)))"
    using Cons.prems by (rule startRTSPStream_producers_tracked)
  then have "producers_tracked (fst (start_cameras
      (fst (startRTSPStream b (trim url) (cameraId i) (envs i))) urls (Suc i) envs))"
    by (rule Cons.IH)
  then show ?case by (simp only: fst_start_cameras_Cons)
qed

lemma start_producers_tracked:
  assumes "producers_tracked b"
  shows "producers_tracked (case fst (start b cr envs) of Inl b' \<Rightarrow> b' | Inr b' \<Rightarrow> b')"
proof (cases "isRunning b")
  case True
  then show ?thesis using assms by (simp add: start_def)
next
  case False
  show ?thesis
  proof (cases cr)
    case None
    with False assms show ?thesis by (simp add: start_def producers_tracked_def)
  next
    case (Some r)
    have "producers_tracked (b\<lparr>isRunning := True, mainRouter := Some r\<rparr>)"
      using assms by (simp add: producers_tracked_def)
    then have "producers_tracked
        (fst (start_cameras (b\<lparr>isRunning := True, mainRouter := Some r\<rparr>)
                 (take 6 (rtspUrls b)) 0 envs))"
      by (rule start_cameras_producers_tracked)
    with False Some show ?thesis by (auto simp: start_def split: prod.splits)
  qed
qed

lemma dispatch_producers_tracked:
  assumes "producers_tracked (rtspBridge s)"
  shows "producers_tracked (rtspBridge (fst (dispatch s c)))"
proof (cases c)
  case (BridgeStart cr envs)
  then show ?thesis
    using start_producers_tracked [OF assms, of cr envs]
    by (auto simp: on_bridge_bridge split: prod.splits sum.splits)
qed (use assms in \<open>simp_all add: handlers_keep_bridge on_bridge_bridge
       startRTSPStream_producers_tracked retryTick_producers_tracked
       onFFmpegClose_producers_tracked stop_producers_tracked\<close>)

lemma run_producers_tracked:
  "producers_tracked (rtspBridge s) \<Longrightarrow> producers_tracked (rtspBridge (fst (run s cs)))"
proof (induction cs arbitrary: s)
  case Nil
  then show ?case by simp
next
  case (Cons c cs)
  from Cons.prems have "producers_tracked (rtspBridge (fst (dispatch s c)))"
    by (rule dispatch_producers_tracked)
  then have "producers_tracked (rtspBridge (fst (run (fst (dispatch s c)) cs)))"
    by (rule Cons.IH)
  then show ?case by (simp only: fst_run_Cons)
qed

lemma new_server_producers_tracked: "producers_tracked (rtspBridge (new_server env))"
  by (simp add: new_server_def new_bridge_def producers_tracked_def producers_ok_def
        jsmap_has_def)

lemma jsmap_set_fresh: "k \<notin> fst ` set m \<Longrightarrow> jsmap_set m k v = m @ [(k, v)]"
  by (induction m) auto

lemma cam_timers_after_schedule:
  assumes "timers_ok tm nt rs" and "recorded_timer rs cam = ot"
  shows "filter (\<lambda>e. fst (snd e) = cam)
           (jsmap_set (case ot of None \<Rightarrow> tm | Some old \<Rightarrow> jsmap_delete tm old) nt (cam, url))
         = [(nt, cam, url)]"
proof -
  let ?cl = "case ot of None \<Rightarrow> tm | Some old \<Rightarrow> jsmap_delete tm old"
  have sub: "set ?cl \<subseteq> set tm"
    by (cases ot) (auto simp: set_jsmap_delete_iff)
  have fresh: "nt \<notin> fst ` set ?cl"
    using assms(1) sub by (auto simp: timers_ok_def)
  have none: "filter (\<lambda>e. fst (snd e) = cam) ?cl = []"
  proof -
    have "fst (snd e) \<noteq> cam" if "e \<in> set ?cl" for e
    proof
      assume c: "fst (snd e) = cam"
      from that sub have "e \<in> set tm" by auto
      with assms c have r: "ot = Some (fst e)" by (auto simp: timers_ok_def)
      with that show False by (simp add: set_jsmap_delete_iff)
    qed
    then show ?thesis by (auto simp: filter_empty_conv)
  qed
  show ?thesis by (simp add: jsmap_set_fresh [OF fresh] none)
qed

section \<open>Evaluating the example runs\<close>

lemmas server_defs = new_server_def handleJoinRoom_def handleCreateWebRTCTransport_def
  handleConnectTransport_def handleProduce_def handleConsume_def handleResumeConsumer_def
  handleDisconnect_def get_peer_def get_room_def socket_roomId_def on_bridge_def
  jsmap_has_def jsmap_delete_def jsmap_keys_def jsmap_values_def jsmap_size_def Let_def

lemmas bridge_defs = new_bridge_def start_def startRTSPStream_def startFFmpegProcess_def
  schedule_retry_def retryTick_def onFFmpegClose_def stop_def empty_cam_state_def
  cameraId_def ssrc_def parseInt_def padStart_def trim_def is_ws_def ffmpegArgs_def
  digit_char_def digit_value_def is_digit_of_def digits_value_def toString.simps

lemmas example_defs = router1_def router2_def transport1_def producer1_def camera_up_def
  camera_down_def

lemma camera_producing_bridge:
  "rtspBridge camera_producing =
    \<lparr>ffmpegProcesses = [(''cam01'', 101)],
     routers = [(''cam01'',
        \<lparr>retryTimer = None,
         videoTransport = Some \<lparr>plain_transport_id = ''plain-video-1'', localPort = 40000\<rparr>,
         audioTransport = Some \<lparr>plain_transport_id = ''plain-audio-1'', localPort = 40002\<rparr>,
         ffmpeg = Some 101,
         videoProducer = Some \<lparr>producer_id = ''camera-video-1'', producer_kind = Video\<rparr>,
         audioProducer = Some \<lparr>producer_id = ''camera-audio-1'', producer_kind = Audio\<rparr>\<rparr>)],
     b_producers = [(''cam01_video'', \<lparr>producer_id = ''camera-video-1'', producer_kind = Video\<rparr>),
       (''cam01_audio'', \<lparr>producer_id = ''camera-audio-1'', producer_kind = Audio\<rparr>)],
     rtspUrls = [''rtsp://camera-1/stream''], isRunning = True,
     mainRouter = Some router2, timers = [], next_timer = 0\<rparr>"
  by (simp add: camera_producing_def server_defs bridge_defs example_defs)

lemma camera_producing_registry:
  "rooms camera_producing = [] \<and> peers camera_producing = [] \<and>
   peer_objs camera_producing = [] \<and> sockets camera_producing = []"
  by (simp add: camera_producing_def server_defs new_bridge_def start_def
        split: prod.splits)

lemma camera_producing_peer_gone_state:
  "rooms camera_producing_peer_gone = [] \<and> peers camera_producing_peer_gone = [] \<and>
   b_producers (rtspBridge camera_producing_peer_gone)
     = [(''cam01_video'', \<lparr>producer_id = ''camera-video-1'', producer_kind = Video\<rparr>),
        (''cam01_audio'', \<lparr>producer_id = ''camera-audio-1'', producer_kind = Audio\<rparr>)]"
  by (simp add: camera_producing_peer_gone_def server_defs bridge_defs example_defs)

lemma two_cameras_bridge:
  "rtspBridge two_cameras =
    \<lparr>ffmpegProcesses = [(''cam01'', 101)],
     routers = [(''cam01'',
        \<lparr>retryTimer = None,
         videoTransport = Some \<lparr>plain_transport_id = ''plain-video-1'', localPort = 40000\<rparr>,
         audioTransport = Some \<lparr>plain_transport_id = ''plain-audio-1'', localPort = 40002\<rparr>,
         ffmpeg = Some 101,
         videoProducer = Some \<lparr>producer_id = ''camera-video-1'', producer_kind = Video\<rparr>,
         audioProducer = Some \<lparr>producer_id = ''camera-audio-1'', producer_kind = Audio\<rparr>\<rparr>),
       (''cam02'', \<lparr>retryTimer = Some 0, videoTransport = None, audioTransport = None,
           ffmpeg = None, videoProducer = None, audioProducer = None\<rparr>)],
     b_producers = [(''cam01_video'', \<lparr>producer_id = ''camera-video-1'', producer_kind = Video\<rparr>),
       (''cam01_audio'', \<lparr>producer_id = ''camera-audio-1'', producer_kind = Audio\<rparr>)],
     rtspUrls = [''rtsp://camera-1/stream'', ''rtsp://camera-2/stream''], isRunning = True,
     mainRouter = Some router2,
     timers = [(0, ''cam02'', ''rtsp://camera-2/stream'')], next_timer = 1\<rparr>"
  by (simp add: two_cameras_def server_defs bridge_defs example_defs)

lemma one_peer_state:
  "one_peer = \<lparr>rtspBridge = new_bridge None,
     rooms = [(''security'', \<lparr>r_router = router1, r_peers = [(''peer1'', 0)], r_producers = []\<rparr>)],
     peers = [(''sockA'', 0)],
     peer_objs = [fresh_peer ''sockA'' ''peer1''],
     sockets = [(''sockA'', ''peer1'', ''security'')]\<rparr>"
  by (simp add: one_peer_def server_defs fresh_peer_def)

lemma peer_and_bridge_main_router: "mainRouter (rtspBridge peer_and_bridge) = Some router2"
  by (simp add: peer_and_bridge_def server_defs bridge_defs example_defs)

lemmas join_defs = handleJoinRoom_to_await_def handleJoinRoom_from_await_def
  join_room_rest_def may_join_def

lemma bridge_start_first:
  "fst (occur (new_server (Some ''rtsp://camera-1/stream''), [])
          (Runs (BridgeStart (Some router2) (\<lambda>i. camera_up))))
     = (camera_producing, [])"
  by (simp add: camera_producing_def del: dispatch.simps split: prod.splits)

lemma orderly_run_first:
  "fst (occurs (new_server (Some ''rtsp://camera-1/stream''), []) orderly_run)
     = fst (occurs (camera_producing, []) (tl orderly_run))"
  by (simp only: orderly_run_def interleaved_joins_def append_Cons fst_occurs_Cons list.sel
        bridge_start_first)

lemma orderly_run_state:
  "fst (occurs (camera_producing, []) (tl orderly_run)) =
     (camera_producing
        \<lparr>rooms :=
           [(''lobby'', \<lparr>r_router = router3, r_peers = [(''peer2'', 0)], r_producers = []\<rparr>),
            (''security'', \<lparr>r_router = router1, r_peers = [(''peer1'', 1), (''peer3'', 2)],
                            r_producers = []\<rparr>)],
         peers := [(''sockB'', 0), (''sockA'', 1), (''sockC'', 2)],
         peer_objs := [fresh_peer ''sockB'' ''peer2'', fresh_peer ''sockA'' ''peer1'',
                       fresh_peer ''sockC'' ''peer3'', fresh_peer ''sockD'' ''peer4''],
         sockets := [(''sockB'', ''peer2'', ''lobby''), (''sockA'', ''peer1'', ''security''),
                     (''sockC'', ''peer3'', ''security''),
                     (''sockD'', ''peer4'', ''security'')]\<rparr>, [])"
  by (simp add: orderly_run_def interleaved_joins_def join_defs server_defs
        camera_producing_registry fresh_peer_def numeral_2_eq_2 numeral_3_eq_3)

lemma two_rooms_state:
  "two_rooms =
     camera_producing
        \<lparr>rooms :=
           [(''lobby'', \<lparr>r_router = router3, r_peers = [(''peer2'', 0)], r_producers = []\<rparr>),
            (''security'', \<lparr>r_router = router1, r_peers = [(''peer1'', 1), (''peer3'', 2)],
                            r_producers = []\<rparr>)],
         peers := [(''sockB'', 0), (''sockA'', 1), (''sockC'', 2)],
         peer_objs := [fresh_peer ''sockB'' ''peer2'', fresh_peer ''sockA'' ''peer1'',
                       fresh_peer ''sockC'' ''peer3'', fresh_peer ''sockD'' ''peer4''],
         sockets := [(''sockB'', ''peer2'', ''lobby''), (''sockA'', ''peer1'', ''security''),
                     (''sockC'', ''peer3'', ''security''),
                     (''sockD'', ''peer4'', ''security'')]\<rparr>"
  by (simp only: two_rooms_def orderly_run_first orderly_run_state fst_conv)

lemma orderly_run_orderly:
  "orderly (new_server (Some ''rtsp://camera-1/stream''), []) orderly_run"
proof -
  have "orderly (camera_producing, []) (tl orderly_run)"
    by (simp add: orderly_run_def interleaved_joins_def join_defs server_defs
          camera_producing_registry)
  then show ?thesis
    by (simp add: orderly_run_def interleaved_joins_def bridge_start_first del: occur.simps)
qed

lemma room_changed_state:
  "rooms room_changed =
     [(''lobby'', \<lparr>r_router = router1, r_peers = [(''peer1'', 0)], r_producers = []\<rparr>)] \<and>
   peers room_changed = [] \<and>
   sockets room_changed = [(''sockA'', ''peer1'', ''security'')] \<and>
   \<not> orderly (new_server None, []) room_changed_run"
  by (simp add: room_changed_def room_changed_run_def may_join_def server_defs)

lemma peer_id_shared_state:
  "rooms peer_id_shared = [] \<and> peers peer_id_shared = [(''sockB'', 1)] \<and>
   sockets peer_id_shared = [(''sockA'', ''peer1'', ''security''),
                             (''sockB'', ''peer1'', ''security'')] \<and>
   \<not> orderly (new_server None, []) peer_id_shared_run"
  by (simp add: peer_id_shared_def peer_id_shared_run_def may_join_def server_defs)

lemma joins_overlapped_state:
  "rooms joins_overlapped = [] \<and> peers joins_overlapped = [(''sockA'', 0)] \<and>
   sockets joins_overlapped = [(''sockA'', ''peer1'', ''security''),
                               (''sockB'', ''peer2'', ''security'')] \<and>
   \<not> orderly (new_server None, []) joins_overlapped_run"
  by (simp add: joins_overlapped_def joins_overlapped_run_def join_defs server_defs)







section \<open>Camera ingest\<close>

text \<open>
  What the \<open>close\<close> handler does. Take any state the server reaches from its start by a
  sequence of commands, with the bridge running, and let the \<open>close\<close> handler of a
  transcoding process of camera \<open>cam\<close> run (the exit code plays no part). Then exactly
  one retry interval is started: the handler's actions contain one \<open>setInterval\<close>, after
  it the camera has exactly one active timer, the new one, and a timer the camera's state
  recorded before is cleared and no longer active. The \<open>setInterval\<close> is the last action:
  before it every producer and every transport recorded in the camera's state has been
  closed, the state's producer and transport fields are empty, and the bridge's producer
  map has no entry of the camera. The handler works on what the camera's state records,
  which need not be what the attempt of the exited process has created.
\<close>

lemma close_handler_starts_one_retry:
  assumes "run (new_server env) cmds = (s, acts0)"
    and "isRunning (rtspBridge s)"
    and "onFFmpegClose (rtspBridge s) url cam = (b', acts)"
  shows "cam_timers b' cam = [(next_timer (rtspBridge s), cam, url)] \<and>
    filter is_SetInterval acts = [SetInterval (next_timer (rtspBridge s)) cam url] \<and>
    (\<forall>old. recorded_timer (routers (rtspBridge s)) cam = Some old \<longrightarrow>
       jsmap_get (timers b') old = None \<and> ClearInterval old \<in> set acts) \<and>
    (\<exists>cleanup. acts = cleanup @ [SetInterval (next_timer (rtspBridge s)) cam url] \<and>
       (\<forall>p. recorded_video (routers (rtspBridge s)) cam = Some p \<or>
            recorded_audio (routers (rtspBridge s)) cam = Some p \<longrightarrow>
            CloseProducer (producer_id p) \<in> set cleanup) \<and>
       (\<forall>st t. jsmap_get (routers (rtspBridge s)) cam = Some st \<and>
            (videoTransport st = Some t \<or> audioTransport st = Some t) \<longrightarrow>
            CloseTransport (plain_transport_id t) \<in> set cleanup)) \<and>
    (\<exists>st'. jsmap_get (routers b') cam = Some st' \<and>
       videoProducer st' = None \<and> audioProducer st' = None \<and>
       videoTransport st' = None \<and> audioTransport st' = None \<and>
       retryTimer st' = Some (next_timer (rtspBridge s))) \<and>
    \<not> jsmap_has (b_producers b') (cam @ ''_video'') \<and>
    \<not> jsmap_has (b_producers b') (cam @ ''_audio'')"
proof -
  let ?b = "rtspBridge s"
  let ?t = "next_timer ?b"
  have tt: "timers_ok (timers ?b) ?t (routers ?b)"
    using run_timers_tracked [OF new_server_timers_tracked, of env cmds] assms(1)
    by (simp add: timers_tracked_def)
  have pt: "producers_ok (b_producers ?b) (routers ?b)"
    using run_producers_tracked [OF new_server_producers_tracked, of env cmds] assms(1)
    by (simp add: producers_tracked_def)
  define st where
    "st = (case jsmap_get (routers ?b) cam of None \<Rightarrow> empty_cam_state | Some st \<Rightarrow> st)"
  define cleanup where "cleanup =
      (case videoProducer st of None \<Rightarrow> [] | Some vp \<Rightarrow> [CloseProducer (producer_id vp)])
    @ (case audioProducer st of None \<Rightarrow> [] | Some ap \<Rightarrow> [CloseProducer (producer_id ap)])
    @ (case videoTransport st of None \<Rightarrow> []
       | Some vt \<Rightarrow> [CloseTransport (plain_transport_id vt)])
    @ (case audioTransport st of None \<Rightarrow> []
       | Some at \<Rightarrow> [CloseTransport (plain_transport_id at)])
    @ (case recorded_timer (routers ?b) cam of None \<Rightarrow> [] | Some old \<Rightarrow> [ClearInterval old])"
  from assms(3) have b': "b' = fst (onFFmpegClose ?b url cam)"
    and acts: "acts = cleanup @ [SetInterval ?t cam url]"
    by (simp_all add: onFFmpegClose_running [OF assms(2)] Let_def st_def cleanup_def)
  have tm: "timers b' = jsmap_set (case recorded_timer (routers ?b) cam of None \<Rightarrow> timers ?b
                                   | Some old \<Rightarrow> jsmap_delete (timers ?b) old) ?t (cam, url)"
    and rs: "routers b' = jsmap_set (routers ?b) cam
             (st\<lparr>videoProducer := None, audioProducer := None, videoTransport := None,
                 audioTransport := None, retryTimer := Some ?t\<rparr>)"
    by (simp_all add: b' onFFmpegClose_running [OF assms(2)] Let_def st_def)
  have c1: "cam_timers b' cam = [(?t, cam, url)]"
    unfolding cam_timers_def tm by (rule cam_timers_after_schedule [OF tt refl])
  have c2: "filter is_SetInterval acts = [SetInterval ?t cam url]"
    by (simp add: acts cleanup_def split: option.splits)
  have c3: "jsmap_get (timers b') old = None \<and> ClearInterval old \<in> set acts"
    if "recorded_timer (routers ?b) cam = Some old" for old
  proof -
    from tt that have "old < ?t" by (auto simp: timers_ok_def)
    then show ?thesis
      using that by (simp add: tm acts cleanup_def jsmap_get_set jsmap_get_delete)
  qed
  have c4: "CloseProducer (producer_id p) \<in> set cleanup"
    if "recorded_video (routers ?b) cam = Some p \<or> recorded_audio (routers ?b) cam = Some p"
    for p
    using that
    by (auto simp: cleanup_def st_def recorded_video_def recorded_audio_def
          split: option.splits)
  have c5: "CloseTransport (plain_transport_id t) \<in> set cleanup"
    if "jsmap_get (routers ?b) cam = Some st0 \<and>
        (videoTransport st0 = Some t \<or> audioTransport st0 = Some t)" for st0 t
    using that by (auto simp: cleanup_def st_def split: option.splits)
  have c6: "\<exists>st'. jsmap_get (routers b') cam = Some st' \<and>
       videoProducer st' = None \<and> audioProducer st' = None \<and>
       videoTransport st' = None \<and> audioTransport st' = None \<and>
       retryTimer st' = Some ?t"
    by (simp add: rs jsmap_get_set)
  have pt': "producers_ok (b_producers b') (routers b')"
    using onFFmpegClose_producers_tracked [of ?b url cam] pt
    by (simp add: b' producers_tracked_def)
  have rv: "recorded_video (routers b') cam = None"
    and ra: "recorded_audio (routers b') cam = None"
    by (simp_all add: rs recorded_video_set recorded_audio_set)
  from pt' rv ra have c7: "\<not> jsmap_has (b_producers b') (cam @ ''_video'')"
    and c8: "\<not> jsmap_has (b_producers b') (cam @ ''_audio'')"
    by (auto simp: producers_ok_def)
  from c1 c2 c3 acts c4 c5 c6 c7 c8 show ?thesis by blast
qed

lemma close_handler_starts_one_retry_example:
  "run (new_server (Some ''rtsp://camera-1/stream''))
     [BridgeStart (Some router2) (\<lambda>i. camera_up)]
     = (camera_producing,
        snd (run (new_server (Some ''rtsp://camera-1/stream''))
               [BridgeStart (Some router2) (\<lambda>i. camera_up)])) \<and>
   isRunning (rtspBridge camera_producing) \<and>
   recorded_video (routers (rtspBridge camera_producing)) ''cam01''
     = Some \<lparr>producer_id = ''camera-video-1'', producer_kind = Video\<rparr> \<and>
   cam_timers (fst (onFFmpegClose (rtspBridge camera_producing)
                      ''rtsp://camera-1/stream'' ''cam01'')) ''cam01''
     = [(0, ''cam01'', ''rtsp://camera-1/stream'')] \<and>
   filter is_SetInterval (snd (onFFmpegClose (rtspBridge camera_producing)
                      ''rtsp://camera-1/stream'' ''cam01''))
     = [SetInterval 0 ''cam01'' ''rtsp://camera-1/stream''] \<and>
   \<not> jsmap_has (b_producers (fst (onFFmpegClose (rtspBridge camera_producing)
                      ''rtsp://camera-1/stream'' ''cam01''))) ''cam01_video'' \<and>
   \<not> jsmap_has (b_producers (fst (onFFmpegClose (rtspBridge camera_producing)
                      ''rtsp://camera-1/stream'' ''cam01''))) ''cam01_audio''"
proof -
  have r: "run (new_server (Some ''rtsp://camera-1/stream''))
     [BridgeStart (Some router2) (\<lambda>i. camera_up)]
     = (camera_producing,
        snd (run (new_server (Some ''rtsp://camera-1/stream''))
               [BridgeStart (Some router2) (\<lambda>i. camera_up)]))"
    by (simp add: camera_producing_def)
  have i: "isRunning (rtspBridge camera_producing)"
    by (simp add: camera_producing_bridge)
  have v: "recorded_video (routers (rtspBridge camera_producing)) ''cam01''
     = Some \<lparr>producer_id = ''camera-video-1'', producer_kind = Video\<rparr>"
    by (simp add: camera_producing_bridge recorded_video_def)
  have n: "next_timer (rtspBridge camera_producing) = 0"
    by (simp add: camera_producing_bridge)
  have e: "onFFmpegClose (rtspBridge camera_producing) ''rtsp://camera-1/stream'' ''cam01''
     = (fst (onFFmpegClose (rtspBridge camera_producing) ''rtsp://camera-1/stream'' ''cam01''),
        snd (onFFmpegClose (rtspBridge camera_producing) ''rtsp://camera-1/stream'' ''cam01''))"
    by simp
  from close_handler_starts_one_retry [OF r i e] r i v n show ?thesis by simp
qed


section \<open>Rooms and ingest producers\<close>

text \<open>
  Why the runs are orderly ones. When a socket joins a second room, its entry in the first
  room stays behind, and the first room is registered for good with no socket in it. When
  two sockets of a room give the same peer id, the disconnect of one removes the room
  under the other. When two joins of an unregistered room overlap, the router that settles
  last replaces the room the first join has made, and the disconnect of the second socket
  removes the room under the first.
\<close>

lemma outside_orderly_runs:
  "\<not> orderly (new_server None, []) room_changed_run \<and>
   room_exists room_changed ''lobby'' \<and> peer_count room_changed ''lobby'' = 0 \<and>
   \<not> orderly (new_server None, []) peer_id_shared_run \<and>
   \<not> room_exists peer_id_shared ''security'' \<and> peer_count peer_id_shared ''security'' = 1 \<and>
   \<not> orderly (new_server None, []) joins_overlapped_run \<and>
   \<not> room_exists joins_overlapped ''security'' \<and>
   peer_count joins_overlapped ''security'' = 1"
  by (simp add: room_changed_state peer_id_shared_state joins_overlapped_state
        room_exists_def peer_count_def room_sockets_def socket_roomId_def jsmap_has_def
        jsmap_keys_def)

text \<open>
  C3 (as stated, it fails). With one camera producing (the bridge holds two active ingest
  producers), a peer joins the room \<open>security\<close> and disconnects. The room is removed
  although ingest producers are active: no room exists, the peer count is 0 and the number
  of active ingest producers is 2, so "a room exists iff it has at least one peer or at
  least one active ingest producer" is false for that room (and, no room being left, for
  whichever room is taken as the shared one).
\<close>

theorem room_without_peers_despite_ingest:
  "ingest_producer_count camera_producing_peer_gone = 2 \<and>
   peer_count camera_producing_peer_gone ''security'' = 0 \<and>
   \<not> room_exists camera_producing_peer_gone ''security'' \<and>
   \<not> (room_exists camera_producing_peer_gone ''security'' \<longleftrightarrow>
        (1 \<le> peer_count camera_producing_peer_gone ''security'' \<or>
         1 \<le> ingest_producer_count camera_producing_peer_gone))"
  by (simp add: camera_producing_peer_gone_state ingest_producer_count_def peer_count_def
        room_sockets_def room_exists_def jsmap_has_def jsmap_size_def jsmap_keys_def)

text \<open>
  C3 (amended). Take any orderly run from the start of the server: joins may wait for
  their routers while other messages are handled, but no socket sends \<open>join-room\<close>
  while it is registered or has a join waiting, no \<open>join-room\<close> gives a peer id its room
  already holds or names a room whose router is being created, and no socket disconnects
  while its join is waiting. After the run, a room is in the registry iff at least one
  registered socket is in it (the peer count is the number of these sockets; ingest
  producers play no part), and a socket that has disconnected and has not asked to join
  since is not registered. When a socket of the room disconnects, the room's peer count
  drops by one. If it was the only one (the count reaches 0), the room's router is closed
  and the room is removed from the registry. If others remain, the room stays registered
  with its router, and no router is closed.
\<close>

theorem rooms_exist_iff_peers:
  assumes "occurs (new_server env, []) es = ((s, js), acts)"
    and "orderly (new_server env, []) es"
  shows "(room_exists s roomId \<longleftrightarrow> 1 \<le> peer_count s roomId) \<and>
    (es = es1 @ Runs (Disconnect x) # es2 \<and> (\<forall>e \<in> set es2. \<not> joins x e) \<longrightarrow>
       \<not> jsmap_has (peers s) x) \<and>
    (sid \<in> set (room_sockets s roomId) \<longrightarrow>
       (\<exists>room. jsmap_get (rooms s) roomId = Some room \<and>
          peer_count (fst (handleDisconnect s sid)) roomId = peer_count s roomId - 1 \<and>
          (peer_count s roomId = 1 \<longrightarrow>
             \<not> room_exists (fst (handleDisconnect s sid)) roomId \<and>
             filter is_CloseRouter (snd (handleDisconnect s sid))
               = [CloseRouter (router_id (r_router room))]) \<and>
          (peer_count s roomId \<noteq> 1 \<longrightarrow>
             map_option r_router (jsmap_get (rooms (fst (handleDisconnect s sid))) roomId)
               = Some (r_router room) \<and>
             filter is_CloseRouter (snd (handleDisconnect s sid)) = [])))"
proof -
  have "registry_ok (fst (fst (occurs (new_server env, []) es)))"
    using occurs_invariant [of "(new_server env, [])" es] new_server_invariant [of env] assms(2)
    by simp
  with assms(1) have ok: "registry_ok s" by simp
  have a: "room_exists s roomId \<longleftrightarrow> 1 \<le> peer_count s roomId"
    using room_exists_iff_sockets [OF ok, of roomId]
    by (cases "room_sockets s roomId") (simp_all add: peer_count_def)
  have b: "\<not> jsmap_has (peers s) x"
    if "es = es1 @ Runs (Disconnect x) # es2 \<and> (\<forall>e \<in> set es2. \<not> joins x e)"
  proof -
    from that assms(2) have "orderly (new_server env, []) (es1 @ Runs (Disconnect x) # es2)"
      and "\<forall>e \<in> set es2. \<not> joins x e" by simp_all
    from disconnected_socket_stays_out [OF this] that assms(1) show ?thesis by simp
  qed
  from a b disconnect_of_member [OF ok, of sid roomId] show ?thesis by blast
qed

theorem rooms_exist_iff_peers_witness:
  "orderly (new_server (Some ''rtsp://camera-1/stream''), []) orderly_run \<and>
   ingest_producer_count two_rooms = 2 \<and>
   \<not> jsmap_has (peers two_rooms) ''sockD'' \<and>
   room_exists two_rooms ''security'' \<and> peer_count two_rooms ''security'' = 2 \<and>
   ''sockA'' \<in> set (room_sockets two_rooms ''security'') \<and>
   peer_count (fst (handleDisconnect two_rooms ''sockA'')) ''security'' = 1 \<and>
   map_option r_router (jsmap_get (rooms (fst (handleDisconnect two_rooms ''sockA''))) ''security'')
     = Some router1 \<and>
   filter is_CloseRouter (snd (handleDisconnect two_rooms ''sockA'')) = [] \<and>
   room_exists two_rooms ''lobby'' \<and> peer_count two_rooms ''lobby'' = 1 \<and>
   ''sockB'' \<in> set (room_sockets two_rooms ''lobby'') \<and>
   peer_count (fst (handleDisconnect two_rooms ''sockB'')) ''lobby'' = 0 \<and>
   \<not> room_exists (fst (handleDisconnect two_rooms ''sockB'')) ''lobby'' \<and>
   filter is_CloseRouter (snd (handleDisconnect two_rooms ''sockB''))
     = [CloseRouter ''router-3'']"
proof -
  have r: "occurs (new_server (Some ''rtsp://camera-1/stream''), []) orderly_run
     = ((two_rooms, []),
        snd (occurs (new_server (Some ''rtsp://camera-1/stream''), []) orderly_run))"
    by (simp add: prod_eq_iff two_rooms_def orderly_run_first orderly_run_state)
  note o = orderly_run_orderly
  have d: "orderly_run = (interleaved_joins @ [JoinArrives ''sockD'' ''security'' ''peer4''])
             @ Runs (Disconnect ''sockD'') # []"
    by (simp add: orderly_run_def)
  have i: "ingest_producer_count two_rooms = 2"
    by (simp add: two_rooms_state ingest_producer_count_def jsmap_size_def
          camera_producing_bridge)
  have s1: "room_sockets two_rooms ''security'' = [''sockA'', ''sockC'']"
    and s2: "room_sockets two_rooms ''lobby'' = [''sockB'']"
    by (simp_all add: two_rooms_state room_sockets_def socket_roomId_def jsmap_keys_def)
  have g1: "jsmap_get (rooms two_rooms) ''security''
      = Some \<lparr>r_router = router1, r_peers = [(''peer1'', 1), (''peer3'', 2)], r_producers = []\<rparr>"
    and g2: "jsmap_get (rooms two_rooms) ''lobby''
      = Some \<lparr>r_router = router3, r_peers = [(''peer2'', 0)], r_producers = []\<rparr>"
    by (simp_all add: two_rooms_state)
  from rooms_exist_iff_peers [OF r o, of "''security''"
         "interleaved_joins @ [JoinArrives ''sockD'' ''security'' ''peer4'']" "''sockD''" "[]"
         "''sockA''"]
       rooms_exist_iff_peers [OF r o, of "''lobby''" _ _ _ "''sockB''"]
       o d i s1 s2 g1 g2
  show ?thesis by (simp add: peer_count_def router3_def)
qed

section \<open>Camera producers and rooms\<close>

lemma handleJoinRoom_bridge_frame:
  "handleJoinRoom (s\<lparr>rtspBridge := b\<rparr>) sid roomId peerId cr =
     (fst (handleJoinRoom s sid roomId peerId cr)\<lparr>rtspBridge := b\<rparr>,
      snd (handleJoinRoom s sid roomId peerId cr))"
  by (simp add: handleJoinRoom_def Let_def split: option.splits)

lemma startRTSPStream_producing:
  assumes "e_available env" and "mainRouter b \<noteq> None"
    and "e_videoTransport env = Some vt" and "e_audioTransport env = Some at"
    and "e_started env"
    and "e_videoProducer env = Some vp" and "e_audioProducer env = Some ap"
  shows "startRTSPStream b url cam env =
    (b\<lparr>ffmpegProcesses := jsmap_set (ffmpegProcesses b) cam (e_ffmpeg env),
       b_producers := jsmap_set (jsmap_set (b_producers b) (cam @ ''_video'') vp)
                        (cam @ ''_audio'') ap,
       routers := jsmap_set (routers b) cam
         ((case jsmap_get (routers b) cam of None \<Rightarrow> empty_cam_state | Some st \<Rightarrow> st)
            \<lparr>videoTransport := Some vt, audioTransport := Some at,
             ffmpeg := Some (e_ffmpeg env),
             videoProducer := Some vp, audioProducer := Some ap\<rparr>)\<rparr>,
     [EngineCreatePlainTransport, EngineCreatePlainTransport,
      Spawn (e_ffmpeg env) ''ffmpeg'' (ffmpegArgs url (localPort vt) (localPort at)),
      EngineProducePlain (plain_transport_id vt) Video (ssrc Video cam),
      EngineProducePlain (plain_transport_id at) Audio (ssrc Audio cam)])"
  using assms
  by (auto simp: startRTSPStream_def startFFmpegProcess_def Let_def jsmap_has_def
        jsmap_get_set jsmap_set_set split: option.splits)

text \<open>
  C2 (as stated, it fails). The producers of a camera that reaches the producing step are
  not in any room's producer map: with camera \<open>cam01\<close> producing, a peer that joins
  afterwards is answered with the router capabilities only and its room holds no producer;
  and when the camera starts while a peer is already joined, no event is sent to anyone.
\<close>

theorem camera_producers_not_in_room:
  "jsmap_keys (b_producers (rtspBridge camera_producing)) = [''cam01_video'', ''cam01_audio''] \<and>
   emitted ''sockA''
     (snd (handleJoinRoom camera_producing ''sockA'' ''security'' ''peer1'' (Some router1)))
     = [RouterRtpCapabilities [''audio/opus'', ''video/VP8'', ''video/H264'']] \<and>
   map_option r_producers
     (jsmap_get (rooms (fst (handleJoinRoom camera_producing ''sockA'' ''security'' ''peer1''
                               (Some router1)))) ''security'') = Some [] \<and>
   filter is_signal
     (snd (dispatch one_peer (CameraStart ''rtsp://camera-1/stream'' ''cam01'' camera_up))) = []"
proof -
  have a: "jsmap_keys (b_producers (rtspBridge camera_producing))
           = [''cam01_video'', ''cam01_audio'']"
    by (simp add: camera_producing_bridge jsmap_keys_def)
  have n: "jsmap_get (rooms camera_producing) ''security'' = None"
    by (simp add: camera_producing_registry)
  have b: "emitted ''sockA''
     (snd (handleJoinRoom camera_producing ''sockA'' ''security'' ''peer1'' (Some router1)))
     = [RouterRtpCapabilities [''audio/opus'', ''video/VP8'', ''video/H264'']]"
    by (simp add: handleJoinRoom_created [OF n] router1_def)
  have c: "map_option r_producers
     (jsmap_get (rooms (fst (handleJoinRoom camera_producing ''sockA'' ''security'' ''peer1''
                               (Some router1)))) ''security'') = Some []"
    by (simp add: handleJoinRoom_created [OF n] joined_def jsmap_get_set)
  have d: "filter is_signal
     (snd (dispatch one_peer (CameraStart ''rtsp://camera-1/stream'' ''cam01'' camera_up))) = []"
    by (simp add: one_peer_state server_defs bridge_defs example_defs)
  from a b c d show ?thesis by simp
qed

text \<open>
  C2 (amended). When an ingest attempt of camera \<open>cam\<close> reaches the producing step (the
  source answers the probe, both plain transports, the process and both producers are
  created), its video and audio producer are stored in the bridge's own producer map under
  the keys \<open>cam_video\<close> and \<open>cam_audio\<close> and in the camera's state. The registry of rooms
  and peers is unchanged, no event is sent to any client, and a join-room afterwards is
  answered exactly as it would have been without the ingest.
\<close>

theorem camera_producers_held_by_bridge:
  assumes "e_available env" and "mainRouter (rtspBridge s) \<noteq> None"
    and "e_videoTransport env = Some vt" and "e_audioTransport env = Some at"
    and "e_started env"
    and "e_videoProducer env = Some vp" and "e_audioProducer env = Some ap"
    and "dispatch s (CameraStart url cam env) = (s', acts)"
  shows "jsmap_get (b_producers (rtspBridge s')) (cam @ ''_video'') = Some vp \<and>
    jsmap_get (b_producers (rtspBridge s')) (cam @ ''_audio'') = Some ap \<and>
    recorded_video (routers (rtspBridge s')) cam = Some vp \<and>
    recorded_audio (routers (rtspBridge s')) cam = Some ap \<and>
    rooms s' = rooms s \<and> peers s' = peers s \<and> peer_objs s' = peer_objs s \<and>
    sockets s' = sockets s \<and>
    filter is_signal acts = [] \<and>
    snd (handleJoinRoom s' sid roomId peerId cr) = snd (handleJoinRoom s sid roomId peerId cr)"
proof -
  note p = startRTSPStream_producing [OF assms(1-7), of url cam]
  from assms(8) have s': "s' = s\<lparr>rtspBridge := fst (startRTSPStream (rtspBridge s) url cam env)\<rparr>"
    and acts: "acts = snd (startRTSPStream (rtspBridge s) url cam env)"
    by (auto simp: on_bridge_def split: prod.splits)
  have k: "cam @ ''_video'' \<noteq> cam @ ''_audio''" by simp
  show ?thesis
    unfolding s' acts p
    using k
    by (simp add: jsmap_get_set recorded_video_set recorded_audio_set
          handleJoinRoom_bridge_frame)
qed

theorem camera_producers_held_by_bridge_witness:
  "e_available camera_up \<and> mainRouter (rtspBridge peer_and_bridge) \<noteq> None \<and>
   e_started camera_up \<and>
   e_videoProducer camera_up = Some \<lparr>producer_id = ''camera-video-1'', producer_kind = Video\<rparr> \<and>
   jsmap_get (b_producers (rtspBridge (fst (dispatch peer_and_bridge
       (CameraStart ''rtsp://camera-1/stream'' ''cam01'' camera_up))))) ''cam01_video''
     = Some \<lparr>producer_id = ''camera-video-1'', producer_kind = Video\<rparr> \<and>
   rooms (fst (dispatch peer_and_bridge
       (CameraStart ''rtsp://camera-1/stream'' ''cam01'' camera_up))) = rooms peer_and_bridge \<and>
   filter is_signal (snd (dispatch peer_and_bridge
       (CameraStart ''rtsp://camera-1/stream'' ''cam01'' camera_up))) = [] \<and>
   snd (handleJoinRoom (fst (dispatch peer_and_bridge
       (CameraStart ''rtsp://camera-1/stream'' ''cam01'' camera_up)))
          ''sockB'' ''security'' ''peer2'' None)
     = snd (handleJoinRoom peer_and_bridge ''sockB'' ''security'' ''peer2'' None)"
proof -
  have a: "e_available camera_up" and st: "e_started camera_up"
    and vt: "e_videoTransport camera_up
             = Some \<lparr>plain_transport_id = ''plain-video-1'', localPort = 40000\<rparr>"
    and at: "e_audioTransport camera_up
             = Some \<lparr>plain_transport_id = ''plain-audio-1'', localPort = 40002\<rparr>"
    and vp: "e_videoProducer camera_up
             = Some \<lparr>producer_id = ''camera-video-1'', producer_kind = Video\<rparr>"
    and ap: "e_audioProducer camera_up
             = Some \<lparr>producer_id = ''camera-audio-1'', producer_kind = Audio\<rparr>"
    by (simp_all add: camera_up_def)
  have m: "mainRouter (rtspBridge peer_and_bridge) \<noteq> None"
    by (simp add: peer_and_bridge_main_router)
  have d: "dispatch peer_and_bridge (CameraStart ''rtsp://camera-1/stream'' ''cam01'' camera_up)
     = (fst (dispatch peer_and_bridge
               (CameraStart ''rtsp://camera-1/stream'' ''cam01'' camera_up)),
        snd (dispatch peer_and_bridge
               (CameraStart ''rtsp://camera-1/stream'' ''cam01'' camera_up)))"
    by simp
  from camera_producers_held_by_bridge [OF a m vt at st vp ap d,
      of "''sockB''" "''security''" "''peer2''" None] a m st vp
  show ?thesis by simp
qed

section \<open>Shutdown\<close>

lemma onFFmpegClose_stopped:
  assumes "\<not> isRunning b"
  shows "filter is_SetInterval (snd (onFFmpegClose b url cam)) = [] \<and>
    timers (fst (onFFmpegClose b url cam)) = timers b \<and>
    (jsmap_get (routers b) cam = Some st \<longrightarrow>
       (\<forall>t. videoTransport st = Some t \<or> audioTransport st = Some t \<longrightarrow>
          CloseTransport (plain_transport_id t) \<in> set (snd (onFFmpegClose b url cam))))"
  using assms
  by (auto simp: onFFmpegClose_def Let_def split: option.splits)

text \<open>
  C7 (as stated, it fails). With camera \<open>cam01\<close> producing (process 101) and camera
  \<open>cam02\<close> polling on retry timer 0, \<open>stop\<close> sends \<open>SIGTERM\<close> to the process, closes the two
  producers and the router, and nothing else: the retry timer is still active afterwards
  and no \<open>clearInterval\<close> is issued, no \<open>SIGKILL\<close> is sent, and neither transport of \<open>cam01\<close>
  is closed.
\<close>

theorem stop_leaves_timer_and_sends_no_kill:
  "jsmap_get (timers (rtspBridge two_cameras)) 0 = Some (''cam02'', ''rtsp://camera-2/stream'') \<and>
   jsmap_get (timers (fst (stop (rtspBridge two_cameras)))) 0
     = Some (''cam02'', ''rtsp://camera-2/stream'') \<and>
   jsmap_get (ffmpegProcesses (rtspBridge two_cameras)) ''cam01'' = Some 101 \<and>
   snd (stop (rtspBridge two_cameras))
     = [Kill 101 ''SIGTERM'', CloseProducer ''camera-video-1'',
        CloseProducer ''camera-audio-1'', CloseRouter ''router-2''] \<and>
   ClearInterval 0 \<notin> set (snd (stop (rtspBridge two_cameras))) \<and>
   Kill 101 ''SIGKILL'' \<notin> set (snd (stop (rtspBridge two_cameras))) \<and>
   CloseTransport ''plain-video-1'' \<notin> set (snd (stop (rtspBridge two_cameras))) \<and>
   CloseTransport ''plain-audio-1'' \<notin> set (snd (stop (rtspBridge two_cameras)))"
  by (simp add: two_cameras_bridge stop_def jsmap_values_def router2_def)

text \<open>
  C7 (amended). \<open>stop\<close> marks the bridge as not running, sends \<open>SIGTERM\<close> to every process
  registered in \<open>ffmpegProcesses\<close>, closes every producer of the bridge's producer map and
  the main router, and empties both maps; it does nothing else. It cancels no timer and
  leaves the cameras' state objects as they are: a pending retry timer stays active, but
  its callback returns at once, with no effect, because the bridge is not running. No
  second signal follows the \<open>SIGTERM\<close>. The transports recorded in a camera's state are
  closed later, by the \<open>close\<close> handler of the camera's process when the process exits,
  which then starts no retry.
\<close>

theorem stop_effects:
  assumes "stop b = (b', acts)"
  shows "\<not> isRunning b' \<and> ffmpegProcesses b' = [] \<and> b_producers b' = [] \<and>
    timers b' = timers b \<and> routers b' = routers b \<and>
    (\<forall>proc \<in> set (jsmap_values (ffmpegProcesses b)). Kill proc ''SIGTERM'' \<in> set acts) \<and>
    (\<forall>pr \<in> set (jsmap_values (b_producers b)). CloseProducer (producer_id pr) \<in> set acts) \<and>
    (\<forall>r. mainRouter b = Some r \<longrightarrow> CloseRouter (router_id r) \<in> set acts) \<and>
    (\<forall>a \<in> set acts.
       (\<exists>proc \<in> set (jsmap_values (ffmpegProcesses b)). a = Kill proc ''SIGTERM'') \<or>
       (\<exists>pr \<in> set (jsmap_values (b_producers b)). a = CloseProducer (producer_id pr)) \<or>
       (\<exists>r. mainRouter b = Some r \<and> a = CloseRouter (router_id r))) \<and>
    retryTick b' url cam ok env = (b', []) \<and>
    filter is_SetInterval (snd (onFFmpegClose b' url cam)) = [] \<and>
    (\<forall>st t. jsmap_get (routers b) cam = Some st \<and>
        (videoTransport st = Some t \<or> audioTransport st = Some t) \<longrightarrow>
        CloseTransport (plain_transport_id t) \<in> set (snd (onFFmpegClose b' url cam)))"
proof -
  from assms have b': "b' = b\<lparr>isRunning := False, ffmpegProcesses := [], b_producers := []\<rparr>"
    and acts: "acts = map (\<lambda>proc. Kill proc ''SIGTERM'') (jsmap_values (ffmpegProcesses b))
      @ map (\<lambda>pr. CloseProducer (producer_id pr)) (jsmap_values (b_producers b))
      @ (case mainRouter b of None \<Rightarrow> [] | Some r \<Rightarrow> [CloseRouter (router_id r)])"
    by (simp_all add: stop_def)
  have nr: "\<not> isRunning b'" and rs: "routers b' = routers b" by (simp_all add: b')
  have a: "\<not> isRunning b' \<and> ffmpegProcesses b' = [] \<and> b_producers b' = [] \<and>
    timers b' = timers b \<and> routers b' = routers b \<and>
    (\<forall>proc \<in> set (jsmap_values (ffmpegProcesses b)). Kill proc ''SIGTERM'' \<in> set acts) \<and>
    (\<forall>pr \<in> set (jsmap_values (b_producers b)). CloseProducer (producer_id pr) \<in> set acts) \<and>
    (\<forall>r. mainRouter b = Some r \<longrightarrow> CloseRouter (router_id r) \<in> set acts) \<and>
    (\<forall>a \<in> set acts.
       (\<exists>proc \<in> set (jsmap_values (ffmpegProcesses b)). a = Kill proc ''SIGTERM'') \<or>
       (\<exists>pr \<in> set (jsmap_values (b_producers b)). a = CloseProducer (producer_id pr)) \<or>
       (\<exists>r. mainRouter b = Some r \<and> a = CloseRouter (router_id r))) \<and>
    retryTick b' url cam ok env = (b', [])"
    using assms by (auto simp: stop_def retryTick_def split: option.splits)
  have c: "filter is_SetInterval (snd (onFFmpegClose b' url cam)) = []"
    using onFFmpegClose_stopped [OF nr] by blast
  have d: "CloseTransport (plain_transport_id t) \<in> set (snd (onFFmpegClose b' url cam))"
    if "jsmap_get (routers b) cam = Some st \<and>
        (videoTransport st = Some t \<or> audioTransport st = Some t)" for st t
    using onFFmpegClose_stopped [OF nr, of url cam st] that rs by auto
  from a c d show ?thesis by blast
qed

theorem stop_effects_witness:
  "jsmap_values (ffmpegProcesses (rtspBridge two_cameras)) = [101] \<and>
   timers (rtspBridge two_cameras) = [(0, ''cam02'', ''rtsp://camera-2/stream'')] \<and>
   mainRouter (rtspBridge two_cameras) = Some router2 \<and>
   \<not> isRunning (fst (stop (rtspBridge two_cameras))) \<and>
   timers (fst (stop (rtspBridge two_cameras))) = [(0, ''cam02'', ''rtsp://camera-2/stream'')] \<and>
   Kill 101 ''SIGTERM'' \<in> set (snd (stop (rtspBridge two_cameras))) \<and>
   CloseRouter ''router-2'' \<in> set (snd (stop (rtspBridge two_cameras))) \<and>
   retryTick (fst (stop (rtspBridge two_cameras))) ''rtsp://camera-2/stream'' ''cam02'' True
       camera_up
     = (fst (stop (rtspBridge two_cameras)), []) \<and>
   filter is_SetInterval
     (snd (onFFmpegClose (fst (stop (rtspBridge two_cameras)))
             ''rtsp://camera-2/stream'' ''cam02'')) = []"
proof -
  have p: "jsmap_values (ffmpegProcesses (rtspBridge two_cameras)) = [101]"
    and t: "timers (rtspBridge two_cameras) = [(0, ''cam02'', ''rtsp://camera-2/stream'')]"
    and m: "mainRouter (rtspBridge two_cameras) = Some router2"
    by (simp_all add: two_cameras_bridge jsmap_values_def)
  have e: "stop (rtspBridge two_cameras)
           = (fst (stop (rtspBridge two_cameras)), snd (stop (rtspBridge two_cameras)))"
    by simp
  from stop_effects [OF e, of "''rtsp://camera-2/stream''" "''cam02''" True camera_up] p t m
  show ?thesis by (simp add: router2_def)
qed

section \<open>The availability probe\<close>

lemma resolve_settled: "settled (resolve p b) \<noteq> Pending"
  by (cases "settled p") (simp_all add: resolve_def)

lemma resolve_pending: "settled p = Pending \<Longrightarrow> settled (resolve p b) = Resolved b"
  by (simp add: resolve_def)

lemma resolve_done: "settled p \<noteq> Pending \<Longrightarrow> resolve p b = p"
  by (cases "settled p") (simp_all add: resolve_def)

lemma probe_step_done: "settled p \<noteq> Pending \<Longrightarrow> settled (probe_step p e) = settled p"
  by (cases e) (simp_all add: resolve_done)

lemma probe_run_done:
  "settled p \<noteq> Pending \<Longrightarrow> settled (foldl probe_step p evs) = settled p"
  by (induction evs arbitrary: p) (simp_all add: probe_step_done)

lemma probe_step_not_rejected:
  "settled p \<noteq> Rejected \<Longrightarrow> settled (probe_step p e) \<noteq> Rejected"
  by (cases e; cases "settled p") (simp_all add: resolve_def)

lemma probe_run_not_rejected:
  "settled p \<noteq> Rejected \<Longrightarrow> settled (foldl probe_step p evs) \<noteq> Rejected"
  by (induction evs arbitrary: p) (simp_all add: probe_step_not_rejected)

lemma probe_run_unsettled:
  "\<not> list_ex settles pre \<Longrightarrow> settled p = Pending \<Longrightarrow>
   foldl probe_step p pre =
     p\<lparr>probe_output := probe_output p @ stdout_of pre,
       probe_errored := probe_errored p \<or> ProcError \<in> set pre\<rparr>"
proof (induction pre arbitrary: p)
  case Nil
  then show ?case by simp
next
  case (Cons e pre)
  then show ?case by (cases e) auto
qed

lemma probe_run_timeout:
  "SafetyTimeout \<in> set evs \<Longrightarrow> settled (foldl probe_step p evs) \<noteq> Pending"
proof (induction evs arbitrary: p)
  case Nil
  then show ?case by simp
next
  case (Cons e evs)
  show ?case
  proof (cases "e = SafetyTimeout")
    case True
    then show ?thesis by (simp add: probe_run_done resolve_settled)
  next
    case False
    with Cons show ?thesis by simp
  qed
qed

text \<open>
  C9. The promise of \<open>checkStreamAvailable\<close> is never rejected. If \<open>spawn\<close> throws, it
  resolves to false. Otherwise it resolves, to a boolean, as soon as the safety timeout has
  fired, whatever else happened. The value is decided by the first event that settles it:
  false when that is the safety timeout, and, when it is the \<open>close\<close> event, true only if
  no \<open>error\<close> event came before, the exit code is 0 and the output read on \<open>stdout\<close> is not
  blank; so a spawn error, a nonzero exit code and an empty output each give false.
\<close>

theorem probe_always_resolves:
  "checkStreamAvailable url spawn_throws evs \<noteq> Rejected \<and>
   checkStreamAvailable url True evs = Resolved False \<and>
   (SafetyTimeout \<in> set evs \<longrightarrow>
      (\<exists>b. checkStreamAvailable url spawn_throws evs = Resolved b)) \<and>
   (\<not> list_ex settles pre \<longrightarrow>
      checkStreamAvailable url False (pre @ SafetyTimeout # post) = Resolved False \<and>
      checkStreamAvailable url False (pre @ ProcClose code # post)
        = Resolved (ProcError \<notin> set pre \<and> code = Some 0 \<and> trim (stdout_of pre) \<noteq> []))"
proof -
  let ?init = "\<lparr>probe_output = [], probe_errored = False, settled = Pending\<rparr>"
  have a: "checkStreamAvailable url spawn_throws evs \<noteq> Rejected"
    by (simp add: checkStreamAvailable_def probe_run_not_rejected)
  have b: "checkStreamAvailable url True evs = Resolved False"
    by (simp add: checkStreamAvailable_def)
  have c: "\<exists>b. checkStreamAvailable url spawn_throws evs = Resolved b"
    if "SafetyTimeout \<in> set evs"
  proof (cases "checkStreamAvailable url spawn_throws evs")
    case Pending
    with probe_run_timeout [OF that, of ?init] show ?thesis
      by (simp add: checkStreamAvailable_def split: if_splits)
  next
    case (Resolved b)
    then show ?thesis by simp
  next
    case Rejected
    with a show ?thesis by simp
  qed
  have d: "checkStreamAvailable url False (pre @ SafetyTimeout # post) = Resolved False \<and>
      checkStreamAvailable url False (pre @ ProcClose code # post)
        = Resolved (ProcError \<notin> set pre \<and> code = Some 0 \<and> trim (stdout_of pre) \<noteq> [])"
    if "\<not> list_ex settles pre"
  proof -
    have t: "trim [] = []" by (simp add: trim_def)
    show ?thesis
      using t
      by (auto simp: checkStreamAvailable_def probe_run_unsettled [OF that] probe_run_done
            resolve_def)
  qed
  from a b c d show ?thesis by blast
qed

theorem probe_always_resolves_witness:
  "SafetyTimeout \<in> set [StderrData ''Connection refused'', ProcError, SafetyTimeout] \<and>
   checkStreamAvailable ''rtsp://camera-1/stream'' False
     [StderrData ''Connection refused'', ProcError, SafetyTimeout] = Resolved False \<and>
   \<not> list_ex settles [StdoutData ''h264'', StdoutData [CHR 0x0A]] \<and>
   checkStreamAvailable ''rtsp://camera-1/stream'' False
     ([StdoutData ''h264'', StdoutData [CHR 0x0A]] @ ProcClose (Some 1) # [SafetyTimeout])
     = Resolved False \<and>
   checkStreamAvailable ''rtsp://camera-1/stream'' False
     ([StdoutData ''h264'', StdoutData [CHR 0x0A]] @ ProcClose (Some 0) # [SafetyTimeout])
     = Resolved True \<and>
   checkStreamAvailable ''rtsp://camera-1/stream'' False
     ([StdoutData ''h264'', StdoutData [CHR 0x0A]] @ SafetyTimeout # [ProcClose None])
     = Resolved False"
proof -
  have m: "SafetyTimeout \<in> set [StderrData ''Connection refused'', ProcError, SafetyTimeout]"
    by simp
  have n: "\<not> list_ex settles [StdoutData ''h264'', StdoutData [CHR 0x0A]]" by simp
  have t: "trim (stdout_of [StdoutData ''h264'', StdoutData [CHR 0x0A]]) = ''h264''"
    by (simp add: trim_def is_ws_def)
  have e: "checkStreamAvailable ''rtsp://camera-1/stream'' False
     [StderrData ''Connection refused'', ProcError, SafetyTimeout] = Resolved False"
    using probe_always_resolves [of "''rtsp://camera-1/stream''" False "[]" "[StderrData ''Connection refused'', ProcError]" "[]" None]
    by simp
  from probe_always_resolves [of "''rtsp://camera-1/stream''" False
      "[StderrData ''Connection refused'', ProcError, SafetyTimeout]"
      "[StdoutData ''h264'', StdoutData [CHR 0x0A]]" "[SafetyTimeout]" "Some 1"]
    probe_always_resolves [of "''rtsp://camera-1/stream''" False
      "[StderrData ''Connection refused'', ProcError, SafetyTimeout]"
      "[StdoutData ''h264'', StdoutData [CHR 0x0A]]" "[SafetyTimeout]" "Some 0"]
    probe_always_resolves [of "''rtsp://camera-1/stream''" False
      "[StderrData ''Connection refused'', ProcError, SafetyTimeout]"
      "[StdoutData ''h264'', StdoutData [CHR 0x0A]]" "[ProcClose None]" None]
    m n t e
  show ?thesis by simp
qed

section \<open>Synchronisation-source ids\<close>

lemma digit_cases:
  "c \<in> set ''0123456789'' \<Longrightarrow>
   c = CHR ''0'' \<or> c = CHR ''1'' \<or> c = CHR ''2'' \<or> c = CHR ''3'' \<or> c = CHR ''4'' \<or>
   c = CHR ''5'' \<or> c = CHR ''6'' \<or> c = CHR ''7'' \<or> c = CHR ''8'' \<or> c = CHR ''9''"
  by simp

lemma digit_not_special:
  assumes "c \<in> set ''0123456789''"
  shows "\<not> is_ws c" and "c \<noteq> CHR ''-''" and "c \<noteq> CHR ''+''" and "c \<noteq> CHR ''x''"
    and "c \<noteq> CHR ''X''" and "is_digit_of 10 c"
  using digit_cases [OF assms]
  by (auto simp: is_ws_def is_digit_of_def digit_value_def)

lemma below_ten: "n < 10 \<Longrightarrow> n \<in> {0, 1, 2, 3, 4, 5, 6, 7, 8, 9 :: nat}"
  by (simp only: insert_iff empty_iff) arith

lemma digit_char_digit: "n < 10 \<Longrightarrow> digit_char n \<in> set ''0123456789''"
  by (drule below_ten) (auto simp: digit_char_def)

lemma digit_value_digit_char: "n < 10 \<Longrightarrow> digit_value (digit_char n) = Some n"
  by (drule below_ten) (auto simp: digit_char_def digit_value_def)

lemma toString_decimal: "decimal (toString n)"
proof (induction n rule: toString.induct)
  case (1 n)
  show ?case
  proof (cases "n < 10")
    case True
    then show ?thesis
      using digit_char_digit [of n] by (simp add: toString.simps [of n] decimal_def)
  next
    case False
    then show ?thesis
      using 1 digit_char_digit [of "n mod 10"]
      by (simp add: toString.simps [of n] decimal_def)
  qed
qed

lemma toString_not_Nil: "toString n \<noteq> []"
  by (simp add: toString.simps [of n])

lemma digits_value_snoc:
  "digits_value r (ds @ [c]) = digits_value r ds * r
     + (case digit_value c of None \<Rightarrow> 0 | Some d \<Rightarrow> d)"
  by (simp add: digits_value_def)

lemma digits_value_toString: "digits_value 10 (toString n) = n"
proof (induction n rule: toString.induct)
  case (1 n)
  show ?case
  proof (cases "n < 10")
    case True
    then show ?thesis
      by (simp add: toString.simps [of n] digits_value_def digit_value_digit_char)
  next
    case False
    then show ?thesis
      using 1 by (simp add: toString.simps [of n] digits_value_snoc digit_value_digit_char)
  qed
qed

lemma digits_value_zeros:
  "digits_value 10 (replicate k CHR ''0'' @ ds) = digits_value 10 ds"
proof -
  have "foldl (\<lambda>acc c. acc * 10 + (case digit_value c of None \<Rightarrow> 0 | Some d \<Rightarrow> d)) 0
          (replicate k CHR ''0'') = 0"
    by (induction k) (simp_all add: digit_value_def)
  then show ?thesis by (simp add: digits_value_def)
qed

lemma parseInt_decimal:
  assumes "s \<noteq> []" and "decimal s"
  shows "parseInt s = Some (int (digits_value 10 s))"
proof -
  from assms obtain c cs where s: "s = c # cs" by (cases s) auto
  from assms(2) have all: "\<forall>c \<in> set s. c \<in> set ''0123456789''" by (simp add: decimal_def)
  then have c: "c \<in> set ''0123456789''" by (simp add: s)
  have ws: "dropWhile is_ws s = s"
    using digit_not_special(1) [OF c] by (simp add: s)
  have sign: "take 1 s \<noteq> ''-''" "take 1 s \<noteq> ''+''"
    using digit_not_special(2,3) [OF c] by (simp_all add: s)
  have hex: "take 2 s \<noteq> ''0x''" "take 2 s \<noteq> ''0X''"
  proof -
    show "take 2 s \<noteq> ''0x''"
    proof (cases cs)
      case Nil
      then show ?thesis by (simp add: s)
    next
      case (Cons d ds)
      with all have "d \<in> set ''0123456789''" by (simp add: s)
      from digit_not_special(4) [OF this] Cons show ?thesis
        by (simp add: s numeral_2_eq_2)
    qed
    show "take 2 s \<noteq> ''0X''"
    proof (cases cs)
      case Nil
      then show ?thesis by (simp add: s)
    next
      case (Cons d ds)
      with all have "d \<in> set ''0123456789''" by (simp add: s)
      from digit_not_special(5) [OF this] Cons show ?thesis
        by (simp add: s numeral_2_eq_2)
    qed
  qed
  have tw: "takeWhile (is_digit_of 10) s = s"
    using all digit_not_special(6) by simp
  show ?thesis
    using sign hex assms(1) by (simp add: parseInt_def Let_def ws tw)
qed

lemma replace_cameraId:
  "replace (cameraId i) ''cam'' [] = padStart (toString (i + 1)) 2 CHR ''0''"
  by (simp add: cameraId_def)

lemma decimal_zeros: "decimal ds \<Longrightarrow> decimal (replicate k CHR ''0'' @ ds)"
  unfolding decimal_def by (induction k) simp_all

lemma parseInt_camera_index:
  "parseInt (replace (cameraId i) ''cam'' []) = Some (int (i + 1))"
proof -
  let ?s = "padStart (toString (i + 1)) 2 CHR ''0''"
  have ne: "?s \<noteq> []"
    unfolding padStart_def using toString_not_Nil [of "i + 1"] by blast
  have dec: "decimal ?s"
    unfolding padStart_def using toString_decimal by (rule decimal_zeros)
  have "digits_value 10 ?s = i + 1"
    unfolding padStart_def digits_value_zeros digits_value_toString ..
  with parseInt_decimal [OF ne dec] show ?thesis
    unfolding replace_cameraId by simp
qed

lemma ssrc_value:
  "ssrc knd (cameraId i)
   = Some ((case knd of Video \<Rightarrow> 11111111 | Audio \<Rightarrow> 22222222) + int (i + 1))"
  unfolding ssrc_def parseInt_camera_index by simp

lemma bases_apart:
  "i < 11111111 \<Longrightarrow> j < 11111111 \<Longrightarrow>
   (11111111::int) + int (i + 1) \<noteq> 22222222 + int (j + 1)"
  by linarith

text \<open>
  C8. For the camera at position \<open>i\<close> of the URL list, whose 1-based index is \<open>i + 1\<close>, the
  video producer's ssrc is 11111111 plus the index and the audio producer's ssrc is
  22222222 plus the index. The two bases differ, and for positions below 11111111 (the
  bridge starts at most 6 cameras) two ssrc values are equal only for the same camera and
  the same media kind.
\<close>

theorem ssrc_distinct:
  "ssrc Video (cameraId i) = Some (11111111 + int (i + 1)) \<and>
   ssrc Audio (cameraId i) = Some (22222222 + int (i + 1)) \<and>
   (i < 11111111 \<and> j < 11111111 \<and> (i \<noteq> j \<or> k \<noteq> k') \<longrightarrow>
      ssrc k (cameraId i) \<noteq> ssrc k' (cameraId j))"
proof -
  have d: "ssrc k (cameraId i) \<noteq> ssrc k' (cameraId j)"
    if b: "i < 11111111" "j < 11111111" and ne: "i \<noteq> j \<or> k \<noteq> k'"
  proof (cases k)
    case Audio
    show ?thesis
    proof (cases k')
      case Audio
      with \<open>k = Audio\<close> ne show ?thesis by (simp add: ssrc_value)
    next
      case Video
      with \<open>k = Audio\<close> bases_apart [OF b(2,1)] show ?thesis
        unfolding ssrc_value by auto
    qed
  next
    case Video
    show ?thesis
    proof (cases k')
      case Audio
      with \<open>k = Video\<close> bases_apart [OF b] show ?thesis
        unfolding ssrc_value by auto
    next
      case Video
      with \<open>k = Video\<close> ne show ?thesis by (simp add: ssrc_value)
    qed
  qed
  from d show ?thesis by (simp add: ssrc_value)
qed

theorem ssrc_distinct_witness:
  "(0::nat) < 11111111 \<and> (5::nat) < 11111111 \<and>
   cameraId 0 = ''cam01'' \<and> cameraId 5 = ''cam06'' \<and>
   ssrc Video (cameraId 0) = Some 11111112 \<and> ssrc Audio (cameraId 0) = Some 22222223 \<and>
   ssrc Video (cameraId 0) \<noteq> ssrc Audio (cameraId 5) \<and>
   ssrc Video (cameraId 0) \<noteq> ssrc Video (cameraId 5)"
proof -
  have c: "cameraId 0 = ''cam01''" "cameraId 5 = ''cam06''"
    by (simp_all add: cameraId_def padStart_def toString.simps digit_char_def)
  have h: "(0::nat) < 11111111 \<and> (5::nat) < 11111111 \<and> ((0::nat) \<noteq> 5 \<or> Video \<noteq> Audio)"
    and h': "(0::nat) < 11111111 \<and> (5::nat) < 11111111 \<and> ((0::nat) \<noteq> 5 \<or> Video \<noteq> Video)"
    by simp_all
  note t = ssrc_distinct [of 0 5 Video Audio]
  note t' = ssrc_distinct [of 0 5 Video Video]
  have a: "ssrc Video (cameraId 0) = Some 11111112"
    using conjunct1 [OF t] by simp
  have a': "ssrc Audio (cameraId 0) = Some 22222223"
    using conjunct1 [OF conjunct2 [OF t]] by simp
  have b: "ssrc Video (cameraId 0) \<noteq> ssrc Audio (cameraId 5)"
    using mp [OF conjunct2 [OF conjunct2 [OF t]] h] .
  have d: "ssrc Video (cameraId 0) \<noteq> ssrc Video (cameraId 5)"
    using mp [OF conjunct2 [OF conjunct2 [OF t']] h'] .
  from a a' b d c(1) c(2) show ?thesis by (intro conjI) simp_all
qed

end
